(* ===== verification/Prelude.thy ===== *)
theory Prelude
  imports Main "HOL-Library.Char_ord" "HOL-Library.List_Lexorder" "HOL-Library.Word"
    "HOL-Library.Sublist"
begin

text \<open>
  Shared ground of the development: the C++ standard library functions the code calls on
  strings (character classes of the C locale, searching, prefixes and suffixes, decimal
  and hexadecimal output, \<open>std::getline\<close>), the ordered map \<open>std::map\<close>, and the
  interface (a locale) of a map from keys to lists of values.

  A \<open>std::string\<close> or \<open>std::string_view\<close> is a \<open>string\<close>, a list of 8-bit characters; the
  casts to \<open>unsigned char\<close> in the code are \<open>of_char\<close>, whose values are 0 to 255.
\<close>

named_theorems str_simps \<open>equations for the string functions of the standard library\<close>

section \<open>Character classes (\<open><cctype>\<close>, C locale)\<close>

abbreviation byte_of :: "char \<Rightarrow> nat" where
  "byte_of c \<equiv> of_char c"

definition isspace :: "char \<Rightarrow> bool" where
  "isspace c \<longleftrightarrow> byte_of c = 32 \<or> (9 \<le> byte_of c \<and> byte_of c \<le> 13)"

definition isdigit :: "char \<Rightarrow> bool" where
  "isdigit c \<longleftrightarrow> 48 \<le> byte_of c \<and> byte_of c \<le> 57"

definition isupper :: "char \<Rightarrow> bool" where
  "isupper c \<longleftrightarrow> 65 \<le> byte_of c \<and> byte_of c \<le> 90"

definition islower :: "char \<Rightarrow> bool" where
  "islower c \<longleftrightarrow> 97 \<le> byte_of c \<and> byte_of c \<le> 122"

definition isalnum :: "char \<Rightarrow> bool" where
  "isalnum c \<longleftrightarrow> isdigit c \<or> isupper c \<or> islower c"

definition tolower :: "char \<Rightarrow> char" where
  "tolower c = (if isupper c then char_of (byte_of c + 32) else c)"

lemmas ctype_defs = isspace_def isdigit_def isupper_def islower_def isalnum_def tolower_def

lemma byte_of_less [simp]: "byte_of c < 256"
  by (metis of_char_mod_256 mod_less_divisor zero_less_numeral)

lemma byte_of_char_of: "n < 256 \<Longrightarrow> byte_of (char_of n) = n"
  by simp

lemma byte_of_inject: "byte_of c = byte_of d \<longleftrightarrow> c = d"
  by simp

lemma char_eq_byteI: "byte_of c = byte_of d \<Longrightarrow> c = d"
  by simp

text \<open>\<open>std::tolower\<close> applied to every character, as both \<open>lower_ascii\<close> helpers do.\<close>

lemma isupper_tolower [simp]: "\<not> isupper (tolower c)"
  by (auto simp: tolower_def isupper_def byte_of_char_of)

lemma tolower_idem [simp]: "tolower (tolower c) = tolower c"
  using isupper_tolower [of c] by (simp add: tolower_def [of "tolower c"])

section \<open>Strings\<close>

text \<open>\<open>find(c)\<close>: the index of the first occurrence, \<open>None\<close> for \<open>npos\<close>.\<close>

fun str_find :: "char \<Rightarrow> string \<Rightarrow> nat option" where
  "str_find c [] = None"
| "str_find c (x # xs) = (if x = c then Some 0 else map_option Suc (str_find c xs))"

text \<open>\<open>rfind(c)\<close>: the index of the last occurrence.\<close>

fun str_rfind :: "char \<Rightarrow> string \<Rightarrow> nat option" where
  "str_rfind c [] = None"
| "str_rfind c (x # xs) = (case str_rfind c xs of Some i \<Rightarrow> Some (Suc i)
     | None \<Rightarrow> if x = c then Some 0 else None)"

definition starts_with :: "string \<Rightarrow> string \<Rightarrow> bool" where
  "starts_with s p \<longleftrightarrow> take (length p) s = p"

definition ends_with :: "string \<Rightarrow> string \<Rightarrow> bool" where
  "ends_with s p \<longleftrightarrow> length p \<le> length s \<and> drop (length s - length p) s = p"

text \<open>\<open>find(s)\<close> for a substring, as the code uses it: is there an occurrence?\<close>

fun str_contains :: "string \<Rightarrow> string \<Rightarrow> bool" where
  "str_contains [] p = (p = [])"
| "str_contains (x # xs) p = (starts_with (x # xs) p \<or> str_contains xs p)"

text \<open>\<open>find(s)\<close> for a substring: the index of its first occurrence.\<close>

fun str_find_sub :: "string \<Rightarrow> string \<Rightarrow> nat option" where
  "str_find_sub [] p = (if p = [] then Some 0 else None)"
| "str_find_sub (x # xs) p =
     (if starts_with (x # xs) p then Some 0 else map_option Suc (str_find_sub xs p))"

lemma str_find_None [str_simps]: "str_find c s = None \<longleftrightarrow> c \<notin> set s"
  by (induction s) auto

lemma str_find_Some:
  "str_find c s = Some i \<longleftrightarrow> i < length s \<and> s ! i = c \<and> c \<notin> set (take i s)"
proof (induction s arbitrary: i)
  case Nil
  then show ?case by simp
next
  case (Cons x xs)
  then show ?case by (cases i) auto
qed

lemma str_find_split:
  "str_find c s = Some i \<Longrightarrow> s = take i s @ c # drop (Suc i) s \<and> c \<notin> set (take i s)"
  by (metis str_find_Some id_take_nth_drop)

lemma str_find_append [str_simps]: "c \<notin> set s \<Longrightarrow> str_find c (s @ c # t) = Some (length s)"
  by (induction s) auto

lemma starts_with_prefix: "starts_with s p \<longleftrightarrow> prefix p s"
  by (auto simp: starts_with_def prefix_def) (metis append_take_drop_id)

lemma ends_with_suffix: "ends_with s p \<longleftrightarrow> suffix p s"
  by (metis ends_with_def suffix_drop suffix_length_le suffix_def append_eq_conv_conj length_append
      add_diff_cancel_right')

lemma starts_with_Cons [simp]: "starts_with (x # xs) [c] \<longleftrightarrow> x = c"
  by (auto simp: starts_with_def)

lemma starts_with_Nil [simp]: "\<not> starts_with [] (c # cs)" "starts_with s []"
  by (auto simp: starts_with_def)

lemma starts_with_append [simp]: "starts_with (p @ s) p"
  by (simp add: starts_with_def)

lemma ends_with_append [simp]: "ends_with (s @ p) p"
  by (simp add: ends_with_def)

text \<open>\<open>std::to_string\<close> for unsigned and signed integers.\<close>

definition digit_char :: "nat \<Rightarrow> char" where
  "digit_char d = char_of (48 + d)"

fun show_nat :: "nat \<Rightarrow> string" where
  "show_nat n = (if n < 10 then [digit_char n] else show_nat (n div 10) @ [digit_char (n mod 10)])"

declare show_nat.simps [simp del]

definition show_int :: "int \<Rightarrow> string" where
  "show_int i = (if i < 0 then CHR ''-'' # show_nat (nat (- i)) else show_nat (nat i))"

text \<open>Reading decimal digits back, to show that the output determines the number.\<close>

definition digit_value :: "char \<Rightarrow> nat" where
  "digit_value c = byte_of c - 48"

definition read_nat :: "string \<Rightarrow> nat" where
  "read_nat s = foldl (\<lambda>n c. 10 * n + digit_value c) 0 s"

lemma digit_char_props [simp]:
  assumes "d < 10"
  shows "digit_value (digit_char d) = d" "isdigit (digit_char d)"
  using assms by (simp_all add: digit_value_def digit_char_def isdigit_def byte_of_char_of)

lemma read_show_nat [simp]: "read_nat (show_nat n) = n"
proof (induction n rule: show_nat.induct)
  case (1 n)
  show ?case
  proof (cases "n < 10")
    case True
    then show ?thesis by (simp add: show_nat.simps [of n] read_nat_def)
  next
    case False
    with 1 have "read_nat (show_nat (n div 10)) = n div 10" by simp
    with False show ?thesis by (simp add: show_nat.simps [of n] read_nat_def)
  qed
qed

lemma show_nat_inject [simp]: "show_nat m = show_nat n \<longleftrightarrow> m = n"
  by (metis read_show_nat)

lemma show_nat_digits: "c \<in> set (show_nat n) \<Longrightarrow> isdigit c"
proof (induction n rule: show_nat.induct)
  case (1 n)
  then show ?case
    by (cases "n < 10") (auto simp: show_nat.simps [of n])
qed

lemma show_nat_nonempty [simp]: "show_nat n \<noteq> []"
  by (subst show_nat.simps) simp

text \<open>Hexadecimal digits, as \<open>std::hex\<close> prints them.\<close>

lemma length_show_nat: "1 \<le> length (show_nat n)" "n < 100 \<Longrightarrow> length (show_nat n) \<le> 2"
proof -
  show "1 \<le> length (show_nat n)" using show_nat_nonempty [of n] by (cases "show_nat n") auto
  assume "n < 100"
  then have "n div 10 < 10" by simp
  then show "length (show_nat n) \<le> 2" by (simp add: show_nat.simps [of n] show_nat.simps [of "n div 10"])
qed

text \<open>A string between single quotes, as the messages show names.\<close>

definition quote :: "string \<Rightarrow> string" where
  "quote s = CHR 0x27 # s @ [CHR 0x27]"

definition hex_upper :: "nat \<Rightarrow> char" where
  "hex_upper d = (if d < 10 then char_of (48 + d) else char_of (55 + d))"

definition hex_lower :: "nat \<Rightarrow> char" where
  "hex_lower d = (if d < 10 then char_of (48 + d) else char_of (87 + d))"

text \<open>
  The loop \<open>while (std::getline(in, part, delim))\<close> over a string stream: the parts between
  delimiters, without an empty part after a final delimiter.
\<close>

function getline_parts :: "char \<Rightarrow> string \<Rightarrow> string list" where
  "getline_parts d s =
     (case str_find d s of
        None \<Rightarrow> (if s = [] then [] else [s])
      | Some i \<Rightarrow> take i s # getline_parts d (drop (Suc i) s))"
  by pat_completeness auto
termination
  by (relation "measure (\<lambda>(d, s). length s)") (auto simp: str_find_Some)

declare getline_parts.simps [simp del]

lemma getline_parts_Nil [simp]: "getline_parts d [] = []"
  by (simp add: getline_parts.simps [of d "[]"])

lemma getline_parts_line:
  "d \<notin> set l \<Longrightarrow> getline_parts d (l @ d # s) = l # getline_parts d s"
  by (subst getline_parts.simps) (simp add: str_find_append)

lemma getline_parts_lines:
  "\<forall>l \<in> set ls. d \<notin> set l \<Longrightarrow> getline_parts d (concat (map (\<lambda>l. l @ [d]) ls)) = ls"
  by (induction ls) (simp_all add: getline_parts_line)

section \<open>\<open>std::map\<close>\<close>

text \<open>
  A \<open>std::map\<close> is its association list in iteration order, which is increasing key order.
  \<open>smap_upd k f m\<close> is \<open>m[k] = f(m[k])\<close>, where \<open>f None\<close> stands for the value made from a
  default-constructed element.
\<close>

fun smap_upd :: "'k::linorder \<Rightarrow> ('v option \<Rightarrow> 'v) \<Rightarrow> ('k \<times> 'v) list \<Rightarrow> ('k \<times> 'v) list" where
  "smap_upd k f [] = [(k, f None)]"
| "smap_upd k f ((k', v) # m) =
     (if k < k' then (k, f None) # (k', v) # m
      else if k = k' then (k, f (Some v)) # m
      else (k', v) # smap_upd k f m)"

definition smap_wf :: "('k::linorder \<times> 'v) list \<Rightarrow> bool" where
  "smap_wf m \<longleftrightarrow> sorted_wrt (<) (map fst m)"

lemma smap_wf_Nil [simp]: "smap_wf []"
  by (simp add: smap_wf_def)

lemma smap_wf_Cons [simp]: "smap_wf (p # m) \<longleftrightarrow> (\<forall>q \<in> set m. fst p < fst q) \<and> smap_wf m"
  by (auto simp: smap_wf_def)

lemma smap_keys_upd [simp]: "fst ` set (smap_upd k f m) = insert k (fst ` set m)"
  by (induction k f m rule: smap_upd.induct) auto

lemma smap_wf_upd [simp]: "smap_wf m \<Longrightarrow> smap_wf (smap_upd k f m)"
proof (induction k f m rule: smap_upd.induct)
  case (2 k f k' v m)
  have "q \<in> set (smap_upd k f m) \<Longrightarrow> fst q = k \<or> fst q \<in> fst ` set m" for q
    by (metis image_eqI insert_iff smap_keys_upd)
  with 2 show ?case by (fastforce simp: not_less)
qed simp

lemma smap_lookup_upd [simp]:
  "smap_wf m \<Longrightarrow> map_of (smap_upd k f m) = (map_of m)(k \<mapsto> f (map_of m k))"
proof (induction k f m rule: smap_upd.induct)
  case (2 k f k' v m)
  have "k < k' \<Longrightarrow> map_of m k = None"
    using 2(2) by (force simp: map_of_eq_None_iff)
  with 2 show ?case by (auto simp: fun_eq_iff)
qed auto

section \<open>The interface of a map from keys to lists of values\<close>

text \<open>
  \<open>ParsedQuadlet\<close> and the query parameters of the example service are both maps to vectors
  that are only ever grown by appending one value under one key. What their clients rely on
  is stated here once: after a sequence of insertions, the values of a key are the inserted
  values of that key, in insertion order.
\<close>

locale multimap =
  fixes empty :: 'm
    and add :: "'k \<Rightarrow> 'v \<Rightarrow> 'm \<Rightarrow> 'm"
    and vals :: "'m \<Rightarrow> 'k \<Rightarrow> 'v list"
    and invar :: "'m \<Rightarrow> bool"
  assumes invar_empty: "invar empty"
    and invar_add: "invar m \<Longrightarrow> invar (add k v m)"
    and vals_empty: "vals empty k = []"
    and vals_add: "invar m \<Longrightarrow> vals (add k v m) k' = (if k' = k then vals m k @ [v] else vals m k')"
begin

lemma invar_fold_add: "invar m \<Longrightarrow> invar (fold (\<lambda>(k, v). add k v) kvs m)"
  by (induction kvs arbitrary: m) (auto simp: invar_add)

lemma vals_fold_add:
  "invar m \<Longrightarrow> vals (fold (\<lambda>(k, v). add k v) kvs m) k
     = vals m k @ map snd (filter (\<lambda>p. fst p = k) kvs)"
proof (induction kvs arbitrary: m)
  case (Cons p kvs)
  obtain k' v' where "p = (k', v')" by fastforce
  with Cons.IH [of "add k' v' m"] Cons.prems show ?case
    by (auto simp: invar_add vals_add)
qed simp

lemma vals_fold_add_empty:
  "vals (fold (\<lambda>(k, v). add k v) kvs empty) k = map snd (filter (\<lambda>p. fst p = k) kvs)"
  by (simp add: vals_fold_add invar_empty vals_empty)

end

end
