(* ===== verification/Errors.thy ===== *)
theory Errors
  imports Prelude
begin

text \<open>
  The error values of the library (\<open>include/pod_installer/error.hpp\<close>, \<open>src/error.cpp\<close>):
  the \<open>ErrorKind\<close> enumeration, the \<open>Error\<close> structure and \<open>make_error\<close>. A \<open>Result<T>\<close>, which is
  \<open>std::expected<T, Error>\<close>, is the sum type \<open>error + 'a\<close> with \<open>Inl\<close> for the error;
  \<open>Result<void>\<close> is \<open>error + unit\<close>.
\<close>

datatype error_kind =
    Invalid_argument | Filesystem | Socket_validation | Transport | Http | Policy | Systemd

record error =
  kind :: error_kind
  message :: string
  http_status :: int
  os_errno :: int
  transport_code :: int

type_synonym 'a Result = "error + 'a"

fun to_string :: "error_kind \<Rightarrow> string" where
  "to_string Invalid_argument = ''invalid_argument''"
| "to_string Filesystem = ''filesystem''"
| "to_string Socket_validation = ''socket_validation''"
| "to_string Transport = ''transport''"
| "to_string Http = ''http''"
| "to_string Policy = ''policy''"
| "to_string Systemd = ''systemd''"

definition make_error :: "error_kind \<Rightarrow> string \<Rightarrow> int \<Rightarrow> int \<Rightarrow> int \<Rightarrow> error" where
  "make_error k msg http os transport =
     \<lparr>kind = k, message = msg, http_status = http, os_errno = os, transport_code = transport\<rparr>"

text \<open>\<open>make_error(kind, message)\<close>, with the three defaulted arguments.\<close>

abbreviation err :: "error_kind \<Rightarrow> string \<Rightarrow> error" where
  "err k msg \<equiv> make_error k msg 0 0 0"

lemma make_error_sel [simp]:
  "kind (make_error k msg h os t) = k"
  "message (make_error k msg h os t) = msg"
  "http_status (make_error k msg h os t) = h"
  "os_errno (make_error k msg h os t) = os"
  "transport_code (make_error k msg h os t) = t"
  by (simp_all add: make_error_def)

lemma make_error_inject [simp]:
  "make_error k m h os t = make_error k' m' h' os' t' \<longleftrightarrow>
     k = k' \<and> m = m' \<and> h = h' \<and> os = os' \<and> t = t'"
  by (auto simp: make_error_def)

section \<open>Sequencing of results\<close>

text \<open>
  \<open>if (auto r = f(); !r) return std::unexpected(r.error()); ... *r ...\<close> is
  \<open>bind_result f (\<lambda>x. ...)\<close>; \<open>guard c e\<close> is \<open>if (!c) return std::unexpected(e);\<close>.
\<close>

definition bind_result :: "'e + 'a \<Rightarrow> ('a \<Rightarrow> 'e + 'b) \<Rightarrow> 'e + 'b" where
  "bind_result m f = (case m of Inl e \<Rightarrow> Inl e | Inr x \<Rightarrow> f x)"

definition guard :: "bool \<Rightarrow> 'e \<Rightarrow> 'e + unit" where
  "guard c e = (if c then Inr () else Inl e)"

named_theorems result_simps \<open>when a composed result is a value\<close>

lemma bind_result_simps [simp]:
  "bind_result (Inl e) f = Inl e"
  "bind_result (Inr x) f = f x"
  by (simp_all add: bind_result_def)

lemma bind_result_Inr [result_simps]:
  "bind_result m f = Inr y \<longleftrightarrow> (\<exists>x. m = Inr x \<and> f x = Inr y)"
  by (cases m) auto

lemma bind_result_Inl:
  "bind_result m f = Inl e \<longleftrightarrow> m = Inl e \<or> (\<exists>x. m = Inr x \<and> f x = Inl e)"
  by (cases m) auto

lemma guard_Inr [result_simps]: "guard c e = Inr u \<longleftrightarrow> c"
  by (simp add: guard_def)

lemma guard_simps [simp]: "guard True e = Inr ()" "guard False e = Inl e"
  by (simp_all add: guard_def)

lemma guard_Inl: "guard c e = Inl e' \<longleftrightarrow> \<not> c \<and> e' = e"
  by (auto simp: guard_def)

lemma bind_result_cong [fundef_cong]:
  "m = m' \<Longrightarrow> (\<And>x. m' = Inr x \<Longrightarrow> f x = f' x) \<Longrightarrow> bind_result m f = bind_result m' f'"
  by (cases m) auto

text \<open>A loop over a vector that returns at the first error: \<open>for (x : xs) { check(x) }\<close>.\<close>

fun check_all :: "('a \<Rightarrow> 'e + unit) \<Rightarrow> 'a list \<Rightarrow> 'e + unit" where
  "check_all f [] = Inr ()"
| "check_all f (x # xs) = bind_result (f x) (\<lambda>_. check_all f xs)"

lemma check_all_Inr [result_simps]: "check_all f xs = Inr u \<longleftrightarrow> (\<forall>x \<in> set xs. f x = Inr ())"
  by (induction xs) (auto simp: bind_result_Inr)

text \<open>An error of the loop is the error of one of its elements.\<close>

lemma check_all_Inl: "check_all f xs = Inl e \<Longrightarrow> \<exists>x \<in> set xs. f x = Inl e"
  by (induction xs) (auto simp: bind_result_Inl)

end
