(* ===== verification/Quadlet_Syntax.thy ===== *)
theory Quadlet_Syntax
  imports Errors
begin

text \<open>
  The textual part of \<open>src/quadlet.cpp\<close>: trimming and case folding, Quadlet file names and
  the service unit names made from them, and the parser \<open>parse_quadlet\<close> with its result
  \<open>ParsedQuadlet\<close>, a nested ordered map from sections and keys to values.
\<close>

section \<open>Helpers\<close>

definition trim :: "string \<Rightarrow> string" where
  "trim value = rev (dropWhile isspace (rev (dropWhile isspace value)))"

definition lower_ascii :: "string \<Rightarrow> string" where
  "lower_ascii value = map tolower value"

definition truthy :: "string \<Rightarrow> bool" where
  "truthy value =
     (let normalized = lower_ascii (trim value)
      in normalized = ''1'' \<or> normalized = ''yes'' \<or> normalized = ''true'' \<or> normalized = ''on'')"

definition contains_control_or_slash :: "string \<Rightarrow> bool" where
  "contains_control_or_slash value =
     list_ex (\<lambda>c. byte_of c < 0x20 \<or> byte_of c = 0x7f \<or> c = CHR ''/'') value"

definition safe_unit_file_char :: "char \<Rightarrow> bool" where
  "safe_unit_file_char c \<longleftrightarrow>
     isalnum c \<or> c = CHR ''_'' \<or> c = CHR ''-'' \<or> c = CHR ''.'' \<or> c = CHR ''@''"

definition equals_key :: "string \<Rightarrow> string \<Rightarrow> bool" where
  "equals_key value expected \<longleftrightarrow> lower_ascii (trim value) = lower_ascii expected"

subsection \<open>Trimmed strings\<close>

text \<open>A string that \<open>trim\<close> leaves alone: neither its first nor its last character is a space.\<close>

definition trimmed :: "string \<Rightarrow> bool" where
  "trimmed s \<longleftrightarrow> s = [] \<or> (\<not> isspace (hd s) \<and> \<not> isspace (last s))"

lemma dropWhile_hd_id: "s = [] \<or> \<not> P (hd s) \<Longrightarrow> dropWhile P s = s"
  by (cases s) auto

lemma trim_id: "trimmed s \<Longrightarrow> trim s = s"
  by (cases "s = []") (auto simp: trim_def trimmed_def dropWhile_hd_id hd_rev)

lemma last_dropWhile: "dropWhile P s \<noteq> [] \<Longrightarrow> last (dropWhile P s) = last s"
  by (induction s) auto

lemma hd_dropWhile_not: "dropWhile P s \<noteq> [] \<Longrightarrow> \<not> P (hd (dropWhile P s))"
  by (induction s) auto

lemma trimmed_trim [simp]: "trimmed (trim s)"
proof (cases "trim s = []")
  case False
  define t where "t = dropWhile isspace s"
  define r where "r = dropWhile isspace (rev t)"
  have trim: "trim s = rev r" by (simp add: trim_def t_def r_def)
  with False have r: "r \<noteq> []" by simp
  then have t: "t \<noteq> []" by (auto simp: r_def)
  have "last r = hd t"
    using last_dropWhile [of isspace "rev t"] r t by (simp add: r_def last_rev)
  moreover have "\<not> isspace (hd t)" "\<not> isspace (hd r)"
    using hd_dropWhile_not [of isspace] t r by (simp_all add: t_def r_def)
  ultimately show ?thesis
    using r by (simp add: trim trimmed_def hd_rev last_rev)
qed (simp add: trimmed_def)

lemma trim_idem [simp]: "trim (trim s) = trim s"
  by (simp add: trim_id)

lemma trim_Nil [simp]: "trim [] = []"
  by (simp add: trim_def)

lemma set_trim: "set (trim s) \<subseteq> set s"
  by (metis (no_types, lifting) trim_def set_dropWhileD set_rev subsetI)

lemma trim_eq_Nil_iff: "trim s = [] \<longleftrightarrow> (\<forall>c \<in> set s. isspace c)"
proof
  assume "trim s = []"
  then have "\<forall>c \<in> set (dropWhile isspace s). isspace c" by (simp add: trim_def)
  then have "dropWhile isspace s = []" using hd_dropWhile_not [of isspace s] by auto
  then show "\<forall>c \<in> set s. isspace c" by simp
next
  assume "\<forall>c \<in> set s. isspace c"
  then have "dropWhile isspace s = []" by (simp only: dropWhile_eq_Nil_conv)
  then show "trim s = []" by (simp only: trim_def) simp
qed

section \<open>File names\<close>

definition validate_quadlet_file_name :: "string \<Rightarrow> unit Result" where
  "validate_quadlet_file_name file_name =
     (if file_name = [] \<or> length file_name > 255 then
        Inl (err Invalid_argument ''Quadlet file name must be 1 to 255 bytes'')
      else if file_name = ''.'' \<or> file_name = ''..'' \<or> starts_with file_name ''.''
              \<or> starts_with file_name ''-'' then
        Inl (err Invalid_argument ''Quadlet file name must not be hidden, relative, or option-like'')
      else if contains_control_or_slash file_name then
        Inl (err Invalid_argument ''Quadlet file name must not contain slashes or control characters'')
      else if \<not> list_all safe_unit_file_char file_name then
        Inl (err Invalid_argument ''Quadlet file name contains unsupported characters'')
      else if \<not> ends_with file_name ''.container'' then
        Inl (err Invalid_argument ''MVP deployment bundles require a .container Quadlet file'')
      else Inr ())"

definition service_unit_name_from_quadlet :: "string \<Rightarrow> string Result" where
  "service_unit_name_from_quadlet file_name =
     bind_result (validate_quadlet_file_name file_name)
       (\<lambda>_. Inr (take (length file_name - length ''.container'') file_name @ ''.service''))"

subsection \<open>What an accepted file name looks like\<close>

text \<open>The declarative form of acceptance: a non-empty stem of safe characters and the suffix.\<close>

definition quadlet_stem :: "string \<Rightarrow> bool" where
  "quadlet_stem stem \<longleftrightarrow>
     stem \<noteq> [] \<and> length stem \<le> 245 \<and> hd stem \<noteq> CHR ''.'' \<and> hd stem \<noteq> CHR ''-''
     \<and> list_all safe_unit_file_char stem"

lemma safe_char_not_control: "safe_unit_file_char c \<Longrightarrow> \<not> (byte_of c < 0x20 \<or> byte_of c = 0x7f \<or> c = CHR ''/'')"
  by (auto simp: safe_unit_file_char_def ctype_defs)

lemma safe_chars_no_control: "list_all safe_unit_file_char s \<Longrightarrow> \<not> contains_control_or_slash s"
  using safe_char_not_control by (auto simp: list_all_iff list_ex_iff contains_control_or_slash_def)

lemma container_suffix_safe: "list_all safe_unit_file_char ''.container''"
  by (simp add: safe_unit_file_char_def ctype_defs)

lemma quadlet_stem_accepted:
  assumes "quadlet_stem stem"
  shows "validate_quadlet_file_name (stem @ ''.container'') = Inr ()"
proof -
  obtain c cs where stem: "stem = c # cs" and c: "c \<noteq> CHR ''.''" "c \<noteq> CHR ''-''"
    using assms by (cases stem) (auto simp: quadlet_stem_def)
  have safe: "list_all safe_unit_file_char (stem @ ''.container'')"
    using assms container_suffix_safe by (simp add: quadlet_stem_def)
  have len: "length (stem @ ''.container'') \<le> 255"
    using assms by (simp add: quadlet_stem_def)
  have "\<not> starts_with (stem @ ''.container'') ''.''" "\<not> starts_with (stem @ ''.container'') ''-''"
    using c by (simp_all add: stem)
  moreover have "stem @ ''.container'' \<noteq> ''.''" "stem @ ''.container'' \<noteq> ''..''"
    by (simp_all add: stem)
  moreover have "ends_with (stem @ ''.container'') ''.container''"
    by (rule ends_with_append)
  ultimately show ?thesis
    using len safe safe_chars_no_control [OF safe]
    by (simp add: validate_quadlet_file_name_def del: ends_with_append)
qed

lemma accepted_file_name:
  assumes "validate_quadlet_file_name file_name = Inr u"
  obtains stem where "file_name = stem @ ''.container''" "quadlet_stem stem"
proof -
  from assms have ne: "file_name \<noteq> []" and len: "length file_name \<le> 255"
    and ndot: "\<not> starts_with file_name ''.''" and ndash: "\<not> starts_with file_name ''-''"
    and safe: "list_all safe_unit_file_char file_name"
    and suf: "ends_with file_name ''.container''"
    by (auto simp: validate_quadlet_file_name_def split: if_splits)
  from suf obtain stem where f: "file_name = stem @ ''.container''"
    by (metis ends_with_suffix suffix_def)
  have "stem \<noteq> []"
    using ndot f by auto
  then obtain c cs where "stem = c # cs" by (cases stem) auto
  with f ndot ndash len safe have "quadlet_stem stem"
    by (auto simp: quadlet_stem_def)
  with f show ?thesis by (rule that)
qed

lemma validate_quadlet_file_name_iff:
  "validate_quadlet_file_name f = Inr () \<longleftrightarrow> (\<exists>stem. f = stem @ ''.container'' \<and> quadlet_stem stem)"
  using quadlet_stem_accepted accepted_file_name by metis

lemma service_unit_name_stem:
  "quadlet_stem stem \<Longrightarrow> service_unit_name_from_quadlet (stem @ ''.container'') = Inr (stem @ ''.service'')"
  by (simp add: service_unit_name_from_quadlet_def quadlet_stem_accepted)

lemma service_unit_name_Inr:
  assumes "service_unit_name_from_quadlet f = Inr u"
  obtains stem where "f = stem @ ''.container''" "quadlet_stem stem" "u = stem @ ''.service''"
proof -
  from assms have "validate_quadlet_file_name f = Inr ()"
    by (auto simp: service_unit_name_from_quadlet_def bind_result_Inr)
  then obtain stem where f: "f = stem @ ''.container''" and s: "quadlet_stem stem"
    by (rule accepted_file_name)
  with assms have "u = stem @ ''.service''"
    by (simp add: service_unit_name_stem)
  with f s show ?thesis by (rule that)
qed

section \<open>The parsed form\<close>

type_synonym quadlet_section = "(string \<times> string list) list"

record parsed_quadlet =
  sections :: "(string \<times> quadlet_section) list"

definition empty_parsed :: parsed_quadlet where
  "empty_parsed = \<lparr>sections = []\<rparr>"

definition has_section :: "parsed_quadlet \<Rightarrow> string \<Rightarrow> bool" where
  "has_section parsed section \<longleftrightarrow> map_of (sections parsed) section \<noteq> None"

definition quadlet_values :: "parsed_quadlet \<Rightarrow> string \<Rightarrow> string \<Rightarrow> string list" where
  "quadlet_values parsed section key =
     (case map_of (sections parsed) section of
        None \<Rightarrow> []
      | Some entries \<Rightarrow> (case map_of entries key of None \<Rightarrow> [] | Some vs \<Rightarrow> vs))"

text \<open>\<open>sections_[section][key].push_back(value)\<close>: both subscripts create a missing element.\<close>

definition add_entry :: "string \<Rightarrow> string \<Rightarrow> string \<Rightarrow> parsed_quadlet \<Rightarrow> parsed_quadlet" where
  "add_entry section key value parsed =
     parsed\<lparr>sections :=
       smap_upd section
         (\<lambda>entries. smap_upd key
            (\<lambda>vs. (case vs of None \<Rightarrow> [] | Some vs \<Rightarrow> vs) @ [value])
            (case entries of None \<Rightarrow> [] | Some es \<Rightarrow> es))
         (sections parsed)\<rparr>"

definition parsed_wf :: "parsed_quadlet \<Rightarrow> bool" where
  "parsed_wf parsed \<longleftrightarrow>
     smap_wf (sections parsed) \<and>
     (\<forall>section entries. map_of (sections parsed) section = Some entries \<longrightarrow>
        smap_wf entries \<and> entries \<noteq> [] \<and> (\<forall>q \<in> set entries. snd q \<noteq> []))"

lemma parsed_wf_empty [simp]: "parsed_wf empty_parsed"
  by (simp add: parsed_wf_def empty_parsed_def)

lemma smap_upd_ne [simp]: "smap_upd k f m \<noteq> []"
  by (induction k f m rule: smap_upd.induct) auto

lemma smap_upd_values:
  "q \<in> set (smap_upd k f m) \<Longrightarrow> q \<in> set m \<or> (\<exists>vo. snd q = f vo)"
  by (induction k f m rule: smap_upd.induct) (auto split: if_splits)

lemma parsed_wf_add [simp]:
  assumes "parsed_wf p"
  shows "parsed_wf (add_entry s k v p)"
proof -
  let ?es = "case map_of (sections p) s of None \<Rightarrow> [] | Some es \<Rightarrow> es"
  let ?f = "\<lambda>vs. (case vs of None \<Rightarrow> [] | Some vs \<Rightarrow> vs) @ [v]"
  have wf: "smap_wf (sections p)" using assms by (simp add: parsed_wf_def)
  have es: "smap_wf ?es" "\<forall>q \<in> set ?es. snd q \<noteq> []"
    using assms by (cases "map_of (sections p) s"; simp add: parsed_wf_def)+
  have "\<forall>q \<in> set (smap_upd k ?f ?es). snd q \<noteq> []"
    using es(2) smap_upd_values [of _ k ?f ?es] by force
  with assms es(1) wf show ?thesis
    by (auto simp: parsed_wf_def add_entry_def split: if_splits)
qed

lemma values_empty [simp]: "quadlet_values empty_parsed s k = []"
  by (simp add: quadlet_values_def empty_parsed_def)

lemma values_add:
  assumes "parsed_wf p"
  shows "quadlet_values (add_entry s k v p) s' k' =
    (if (s', k') = (s, k) then quadlet_values p s k @ [v] else quadlet_values p s' k')"
  using assms
  by (auto simp: parsed_wf_def quadlet_values_def add_entry_def split: option.splits)

text \<open>The parsed form provides the interface of a map from (section, key) to values.\<close>

interpretation quadlet_map: multimap empty_parsed
  "\<lambda>sk value. add_entry (fst sk) (snd sk) value"
  "\<lambda>parsed sk. quadlet_values parsed (fst sk) (snd sk)" parsed_wf
  by unfold_locales (auto simp: values_add prod_eq_iff)

lemma has_section_iff:
  "parsed_wf p \<Longrightarrow> has_section p s \<longleftrightarrow> (\<exists>k. quadlet_values p s k \<noteq> [])"
proof
  assume wf: "parsed_wf p" and "has_section p s"
  then obtain es where es: "map_of (sections p) s = Some es" by (auto simp: has_section_def)
  with wf have "es \<noteq> []" "\<forall>q \<in> set es. snd q \<noteq> []" by (auto simp: parsed_wf_def)
  then obtain k vs m where "es = (k, vs) # m" "vs \<noteq> []" by (cases es) auto
  with es have "quadlet_values p s k \<noteq> []" by (simp add: quadlet_values_def)
  then show "\<exists>k. quadlet_values p s k \<noteq> []" ..
next
  assume "\<exists>k. quadlet_values p s k \<noteq> []"
  then show "has_section p s"
    by (auto simp: quadlet_values_def has_section_def split: option.splits)
qed

end
