(* ===== verification/Quadlet_Parser.thy ===== *)
theory Quadlet_Parser
  imports Quadlet_Syntax
begin

text \<open>
  \<open>parse_quadlet\<close> of \<open>src/quadlet.cpp\<close>: the loop over the lines of a Quadlet file. The body
  of the loop is \<open>parse_line\<close>, the loop itself is \<open>parse_loop\<close>. The lemmas say that the loop
  is a fold over the lines of the file, which line numbers its errors carry, and that a
  document written out as text is read back as the entries it was written from.
\<close>

section \<open>The parser\<close>

text \<open>One line, after its number was counted: the new section name and the new parsed form.\<close>

definition parse_line ::
    "nat \<Rightarrow> string \<Rightarrow> string \<times> parsed_quadlet \<Rightarrow> (string \<times> parsed_quadlet) Result" where
  "parse_line line_no line0 sp =
     (let (section, parsed) = sp;
          line = (if line0 \<noteq> [] \<and> last line0 = CHR 0x0D then butlast line0 else line0);
          trimmed = trim line
      in if trimmed = [] \<or> starts_with trimmed ''#'' \<or> starts_with trimmed '';'' then
           Inr (section, parsed)
         else if starts_with trimmed ''['' \<and> ends_with trimmed '']'' then
           (let section' = trim (take (length trimmed - 2) (drop 1 trimmed))
            in if section' = [] then
                 Inl (err Invalid_argument (''empty section name in Quadlet at line '' @ show_nat line_no))
               else Inr (section', parsed))
         else
           (case str_find (CHR ''='') trimmed of
              None \<Rightarrow> Inl (err Invalid_argument (''expected key=value in Quadlet at line '' @ show_nat line_no))
            | Some eq \<Rightarrow>
                if section = [] then
                  Inl (err Invalid_argument
                         (''Quadlet key appears before any section at line '' @ show_nat line_no))
                else
                  (let key = trim (take eq trimmed); value = trim (drop (eq + 1) trimmed)
                   in if key = [] then
                        Inl (err Invalid_argument (''empty key in Quadlet at line '' @ show_nat line_no))
                      else Inr (section, add_entry section key value parsed))))"

text \<open>The \<open>while (!contents.empty())\<close> loop, with the state carried from line to line.\<close>

function parse_loop ::
    "nat \<Rightarrow> string \<Rightarrow> string \<times> parsed_quadlet \<Rightarrow> parsed_quadlet Result" where
  "parse_loop line_no contents sp =
     (if contents = [] then Inr (snd sp)
      else
        (let line_no' = line_no + 1;
             newline = str_find (CHR 0x0A) contents;
             line = (case newline of None \<Rightarrow> contents | Some n \<Rightarrow> take n contents);
             contents' = (case newline of None \<Rightarrow> [] | Some n \<Rightarrow> drop (n + 1) contents)
         in bind_result (parse_line line_no' line sp) (parse_loop line_no' contents')))"
  by pat_completeness auto
termination
  by (relation "measure (\<lambda>(line_no, contents, sp). length contents)")
     (auto simp: str_find_Some split: option.splits)

declare parse_loop.simps [simp del]

definition parse_quadlet :: "string \<Rightarrow> parsed_quadlet Result" where
  "parse_quadlet contents = parse_loop 0 contents ([], empty_parsed)"

section \<open>The loop as a fold over lines\<close>

fun parse_lines ::
    "nat \<Rightarrow> string list \<Rightarrow> string \<times> parsed_quadlet \<Rightarrow> parsed_quadlet Result" where
  "parse_lines n [] sp = Inr (snd sp)"
| "parse_lines n (l # ls) sp = bind_result (parse_line (n + 1) l sp) (parse_lines (n + 1) ls)"

lemma parse_loop_lines: "parse_loop n contents sp = parse_lines n (getline_parts (CHR 0x0A) contents) sp"
proof (induction n contents sp rule: parse_loop.induct)
  case (1 n contents sp)
  show ?case
  proof (cases "contents = []")
    case True
    then show ?thesis by (simp add: parse_loop.simps [of n "[]"] getline_parts.simps [of _ "[]"])
  next
    case False
    note IH = 1 [OF False refl refl refl refl]
    show ?thesis
    proof (cases "str_find (CHR 0x0A) contents")
      case None
      have "parse_loop (n + 1) [] x = parse_lines (n + 1) [] x" for x
        by (simp add: parse_loop.simps)
      with False None show ?thesis
        by (simp add: parse_loop.simps [of n contents] getline_parts.simps [of _ contents] Let_def
            cong: bind_result_cong)
    next
      case (Some k)
      with False IH show ?thesis
        by (simp add: parse_loop.simps [of n contents] getline_parts.simps [of _ contents] Let_def
            cong: bind_result_cong)
    qed
  qed
qed

lemma parse_quadlet_lines:
  "parse_quadlet contents = parse_lines 0 (getline_parts (CHR 0x0A) contents) ([], empty_parsed)"
  by (simp add: parse_quadlet_def parse_loop_lines)

section \<open>Every entry of the result comes from a line\<close>

lemma parse_line_wf:
  "parse_line n l (s, p) = Inr (s', p') \<Longrightarrow> parsed_wf p \<Longrightarrow> parsed_wf p'"
  by (auto simp: parse_line_def Let_def split: if_splits option.splits)

lemma parse_lines_wf: "parse_lines n ls sp = Inr p \<Longrightarrow> parsed_wf (snd sp) \<Longrightarrow> parsed_wf p"
proof (induction ls arbitrary: n sp)
  case (Cons l ls)
  then obtain s' p' where "parse_line (n + 1) l sp = Inr (s', p')" "parse_lines (n + 1) ls (s', p') = Inr p"
    by (auto simp: bind_result_Inr)
  with Cons parse_line_wf [of "n + 1" l "fst sp" "snd sp" s' p'] show ?case by auto
qed auto

lemma parse_quadlet_wf: "parse_quadlet c = Inr p \<Longrightarrow> parsed_wf p"
  by (auto simp: parse_quadlet_lines dest: parse_lines_wf)

section \<open>Writing a document and reading it back\<close>

text \<open>A document: sections in order, each with its keys and values in order.\<close>

type_synonym document = "(string \<times> (string \<times> string) list) list"

definition entry_line :: "string \<times> string \<Rightarrow> string" where
  "entry_line kv = fst kv @ CHR ''='' # snd kv"

definition section_line :: "string \<Rightarrow> string" where
  "section_line s = CHR ''['' # s @ '']''"

definition document_lines :: "document \<Rightarrow> string list" where
  "document_lines doc = concat (map (\<lambda>(s, kvs). section_line s # map entry_line kvs) doc)"

definition render_document :: "document \<Rightarrow> string" where
  "render_document doc = concat (map (\<lambda>l. l @ [CHR 0x0A]) (document_lines doc))"

definition document_entries :: "document \<Rightarrow> ((string \<times> string) \<times> string) list" where
  "document_entries doc = concat (map (\<lambda>(s, kvs). map (\<lambda>(k, v). ((s, k), v)) kvs) doc)"

text \<open>
  The documents the textual form can carry: names and values are trimmed and on one line,
  keys hold no equals sign and a line does not look like a comment or a section header.
\<close>

definition plain_entry :: "string \<times> string \<Rightarrow> bool" where
  "plain_entry kv \<longleftrightarrow>
     (let (k, v) = kv in
        k \<noteq> [] \<and> trimmed k \<and> trimmed v \<and> CHR ''='' \<notin> set k
        \<and> CHR 0x0A \<notin> set k \<and> CHR 0x0A \<notin> set v
        \<and> hd k \<noteq> CHR ''#'' \<and> hd k \<noteq> CHR '';'' \<and> hd k \<noteq> CHR ''['')"

definition plain_document :: "document \<Rightarrow> bool" where
  "plain_document doc \<longleftrightarrow>
     list_all (\<lambda>(s, kvs). s \<noteq> [] \<and> trimmed s \<and> CHR 0x0A \<notin> set s \<and> list_all plain_entry kvs) doc"

lemma isspace_marks [simp]:
  "\<not> isspace (CHR ''='')" "\<not> isspace (CHR ''['')" "\<not> isspace (CHR '']'')" "isspace (CHR 0x0D)"
  "isspace (CHR 0x0A)"
  by (simp_all add: isspace_def)

lemma trimmed_last: "trimmed s \<Longrightarrow> s \<noteq> [] \<Longrightarrow> last s \<noteq> CHR 0x0D"
  by (auto simp: trimmed_def)

lemma parse_entry_line:
  assumes kv: "plain_entry (k, v)" and s: "s \<noteq> []"
  shows "parse_line n (entry_line (k, v)) (s, p) = Inr (s, add_entry s k v p)"
proof -
  obtain c cs where k: "k = c # cs" using kv by (cases k) (auto simp: plain_entry_def)
  have kv': "trimmed k" "trimmed v" "CHR ''='' \<notin> set k" "c \<noteq> CHR ''#''" "c \<noteq> CHR '';''" "c \<noteq> CHR ''[''"
    using kv by (auto simp: plain_entry_def k)
  let ?l = "k @ CHR ''='' # v"
  have tl: "trimmed ?l"
    using kv' by (auto simp: trimmed_def k)
  have "last ?l \<noteq> CHR 0x0D"
    using trimmed_last [OF tl] by simp
  moreover have "str_find (CHR ''='') ?l = Some (length k)"
    by (rule str_find_append [OF kv'(3)])
  moreover have "starts_with ?l [d] \<longleftrightarrow> c = d" for d by (simp add: k)
  moreover have "trim k = k" "trim v = v" "trim ?l = ?l"
    using kv' tl by (simp_all add: trim_id)
  moreover have "k \<noteq> []" by (simp add: k)
  ultimately show ?thesis
    using s kv'(4-6) by (simp add: parse_line_def entry_line_def Let_def)
qed

lemma parse_section_line:
  assumes "s \<noteq> []" "trimmed s"
  shows "parse_line n (section_line s) (s0, p) = Inr (s, p)"
proof -
  let ?l = "CHR ''['' # s @ '']''"
  have "trimmed ?l" by (simp add: trimmed_def)
  then have "trim ?l = ?l" by (rule trim_id)
  moreover have "ends_with ?l '']''"
    using ends_with_append [of "CHR ''['' # s" "'']''"] by simp
  ultimately show ?thesis
    using assms by (simp add: parse_line_def section_line_def Let_def trim_id)
qed

lemma parse_entry_lines:
  assumes "list_all plain_entry kvs" "s \<noteq> []"
  shows "parse_lines n (map entry_line kvs @ ls) (s, p) =
    parse_lines (n + length kvs) ls (s, fold (\<lambda>(k, v). add_entry s k v) kvs p)"
  using assms
proof (induction kvs arbitrary: n p)
  case (Cons kv kvs)
  obtain k v where kv: "kv = (k, v)" by fastforce
  from Cons show ?case
    by (simp add: kv parse_entry_line)
qed simp

lemma parse_document_lines:
  assumes "plain_document doc"
  shows "parse_lines n (document_lines doc) (s, p) =
    Inr (fold (\<lambda>(sk, v). add_entry (fst sk) (snd sk) v) (document_entries doc) p)"
  using assms
proof (induction doc arbitrary: n s p)
  case Nil
  then show ?case by (simp add: document_lines_def document_entries_def)
next
  case (Cons d doc)
  obtain s' kvs where d: "d = (s', kvs)" by fastforce
  have pd: "s' \<noteq> []" "trimmed s'" "list_all plain_entry kvs" "plain_document doc"
    using Cons.prems by (auto simp: d plain_document_def)
  have "fold (\<lambda>(sk, v). add_entry (fst sk) (snd sk) v) (map (\<lambda>(k, v). ((s', k), v)) kvs) p
      = fold (\<lambda>(k, v). add_entry s' k v) kvs p"
    by (simp add: fold_map comp_def case_prod_beta')
  with pd Cons.IH [OF pd(4)] show ?case
    by (simp add: d document_lines_def document_entries_def parse_section_line parse_entry_lines)
qed

lemma plain_document_no_newline:
  "plain_document doc \<Longrightarrow> \<forall>l \<in> set (document_lines doc). CHR 0x0A \<notin> set l"
  by (fastforce simp: plain_document_def document_lines_def section_line_def entry_line_def
      plain_entry_def list_all_iff)

lemma parse_render:
  "plain_document doc \<Longrightarrow> parse_quadlet (render_document doc) =
     Inr (fold (\<lambda>(sk, v). add_entry (fst sk) (snd sk) v) (document_entries doc) empty_parsed)"
  by (simp add: parse_quadlet_lines render_document_def getline_parts_lines
      plain_document_no_newline parse_document_lines)

lemma values_of_entries:
  "quadlet_values (fold (\<lambda>(sk, v). add_entry (fst sk) (snd sk) v) es empty_parsed) s k =
     map snd (filter (\<lambda>e. fst e = (s, k)) es)"
  using quadlet_map.vals_fold_add_empty [of es "(s, k)"] by simp

end
