(* ===== verification/Quadlet_Policy.thy ===== *)
theory Quadlet_Policy
  imports Quadlet_Parser
begin

text \<open>
  The policy half of \<open>src/quadlet.cpp\<close>: splitting \<open>PodmanArgs=\<close> into arguments, recognising
  denied arguments and host paths, the allowed sections and keys, the managed label, and
  \<open>validate_quadlet_policy\<close>, which puts them together. The lemmas give acceptance a
  declarative form, entry by entry, and show that a more permissive policy accepts more.
\<close>

section \<open>Data\<close>

record quadlet_file =
  qf_file_name :: string
  qf_contents :: string

record quadlet_policy =
  require_container_section :: bool
  require_image :: bool
  require_managed_label :: bool
  managed_label_key :: string
  managed_label_value :: string
  allow_privileged :: bool
  allow_host_network :: bool
  allow_host_pid :: bool
  allow_host_ipc :: bool
  allow_host_userns :: bool
  allow_devices :: bool
  allow_root_mount :: bool
  allow_podman_args :: bool

text \<open>The default member initialisers of \<open>QuadletPolicy\<close>.\<close>

definition default_policy :: quadlet_policy where
  "default_policy =
     \<lparr>require_container_section = True, require_image = True, require_managed_label = True,
      managed_label_key = ''com.example.pod-installer.managed'', managed_label_value = ''true'',
      allow_privileged = False, allow_host_network = False, allow_host_pid = False,
      allow_host_ipc = False, allow_host_userns = False, allow_devices = False,
      allow_root_mount = False, allow_podman_args = False\<rparr>"

section \<open>Podman arguments\<close>

definition starts_with_option_assignment :: "string \<Rightarrow> string \<Rightarrow> bool" where
  "starts_with_option_assignment value option \<longleftrightarrow>
     length value > length option \<and> starts_with value option \<and> value ! length option = CHR ''=''"

text \<open>The loop of \<open>split_podman_args\<close> over its characters, and what follows the loop.\<close>

fun split_loop ::
    "string list \<Rightarrow> string \<Rightarrow> bool \<Rightarrow> bool \<Rightarrow> bool \<Rightarrow> string \<Rightarrow> string list" where
  "split_loop tokens current in_single in_double escaped [] =
     (let current = (if escaped then current @ [CHR 0x5C] else current)
      in if current \<noteq> [] then tokens @ [current] else tokens)"
| "split_loop tokens current in_single in_double escaped (c # cs) =
     (if escaped then split_loop tokens (current @ [c]) in_single in_double False cs
      else if c = CHR 0x5C \<and> \<not> in_single then split_loop tokens current in_single in_double True cs
      else if c = CHR 0x27 \<and> \<not> in_double then split_loop tokens current (\<not> in_single) in_double escaped cs
      else if c = CHR 0x22 \<and> \<not> in_single then split_loop tokens current in_single (\<not> in_double) escaped cs
      else if isspace c \<and> \<not> in_single \<and> \<not> in_double then
        (if current \<noteq> [] then split_loop (tokens @ [current]) [] in_single in_double escaped cs
         else split_loop tokens current in_single in_double escaped cs)
      else split_loop tokens (current @ [c]) in_single in_double escaped cs)"

definition split_podman_args :: "string \<Rightarrow> string list" where
  "split_podman_args value = split_loop [] [] False False False value"

definition option_value :: "string \<Rightarrow> string \<Rightarrow> string" where
  "option_value token option =
     (if starts_with_option_assignment token option then drop (length option + 1) token else [])"

definition token_has_value :: "string \<Rightarrow> string \<Rightarrow> string \<Rightarrow> string \<Rightarrow> bool" where
  "token_has_value token next option denied_value =
     (let assigned = lower_ascii (option_value token option)
      in if assigned \<noteq> [] then assigned = lower_ascii denied_value
         else lower_ascii token = lower_ascii option \<and> lower_ascii next = lower_ascii denied_value)"

text \<open>The conditions of one iteration of \<open>denied_podman_arg\<close>, on a part and the part after it.\<close>

definition denied_part :: "quadlet_policy \<Rightarrow> string \<Rightarrow> string \<Rightarrow> bool" where
  "denied_part policy part next \<longleftrightarrow>
     part \<noteq> [] \<and>
     (\<not> allow_privileged policy \<and>
        (lower_ascii part = ''--privileged''
         \<or> starts_with_option_assignment (lower_ascii part) ''--privileged'')
      \<or> \<not> allow_host_network policy \<and>
        (token_has_value part next ''--network'' ''host'' \<or> token_has_value part next ''--net'' ''host'')
      \<or> \<not> allow_host_pid policy \<and> token_has_value part next ''--pid'' ''host''
      \<or> \<not> allow_host_ipc policy \<and> token_has_value part next ''--ipc'' ''host''
      \<or> \<not> allow_host_userns policy \<and> token_has_value part next ''--userns'' ''host''
      \<or> \<not> allow_devices policy \<and>
        (lower_ascii part = ''--device'' \<or> starts_with_option_assignment (lower_ascii part) ''--device'')
      \<or> \<not> allow_root_mount policy \<and>
        (lower_ascii part = ''--volume'' \<or> starts_with_option_assignment (lower_ascii part) ''--volume''
         \<or> lower_ascii part = ''-v'' \<or> starts_with_option_assignment (lower_ascii part) ''-v''
         \<or> lower_ascii part = ''--mount'' \<or> starts_with_option_assignment (lower_ascii part) ''--mount''))"

fun denied_parts :: "quadlet_policy \<Rightarrow> string list \<Rightarrow> bool" where
  "denied_parts policy [] = False"
| "denied_parts policy (part # rest) =
     (if denied_part policy part (case rest of [] \<Rightarrow> [] | next # _ \<Rightarrow> next) then True
      else denied_parts policy rest)"

definition denied_podman_arg :: "string \<Rightarrow> quadlet_policy \<Rightarrow> bool" where
  "denied_podman_arg value policy = denied_parts policy (split_podman_args value)"

section \<open>Host paths\<close>

text \<open>The test on a volume or mount source that both functions below spell out.\<close>

definition host_source :: "string \<Rightarrow> bool" where
  "host_source source \<longleftrightarrow>
     starts_with source ''/'' \<or> starts_with source ''.'' \<or> starts_with source ''~''
     \<or> starts_with source ''$'' \<or> str_find (CHR ''/'') source \<noteq> None
     \<or> str_find (CHR 0x5C) source \<noteq> None \<or> str_contains source ''..''
     \<or> str_find (CHR ''%'') source \<noteq> None"

definition host_path_volume :: "string \<Rightarrow> bool" where
  "host_path_volume value =
     (let trimmed = trim value;
          source = trim (case str_find (CHR '':'') trimmed of None \<Rightarrow> trimmed | Some colon \<Rightarrow> take colon trimmed)
      in if source = [] then False else host_source source)"

definition host_mount_part :: "string \<Rightarrow> bool" where
  "host_mount_part part =
     (let eq = str_find (CHR ''='') part;
          key = lower_ascii (trim (case eq of None \<Rightarrow> part | Some i \<Rightarrow> take i part));
          val = trim (case eq of None \<Rightarrow> [] | Some i \<Rightarrow> drop (i + 1) part);
          lower_value = lower_ascii val
      in (key = ''type'' \<and> lower_value = ''bind'')
         \<or> ((key = ''source'' \<or> key = ''src'' \<or> key = ''from'') \<and> host_source val))"

definition host_path_mount :: "string \<Rightarrow> bool" where
  "host_path_mount value = list_ex host_mount_part (getline_parts (CHR '','') (trim value))"

section \<open>Sections, keys and the managed label\<close>

definition dangerous_service_key :: "string \<Rightarrow> bool" where
  "dangerous_service_key key \<longleftrightarrow>
     starts_with key ''Exec'' \<or> key = ''EnvironmentFile'' \<or> key = ''LoadCredential''
     \<or> key = ''SetCredential'' \<or> key = ''RootDirectory'' \<or> key = ''RootImage'' \<or> key = ''BindPaths''
     \<or> key = ''BindReadOnlyPaths'' \<or> key = ''WorkingDirectory'' \<or> key = ''User'' \<or> key = ''Group''"

definition allowed :: "(string \<times> string list) list" where
  "allowed =
     [(''Unit'', [''Description'', ''After'', ''Wants'', ''Requires'', ''Documentation'']),
      (''Container'',
        [''Image'', ''ContainerName'', ''Label'', ''Environment'', ''ReadOnly'', ''NoNewPrivileges'',
         ''DropCapability'', ''Network'', ''Volume'', ''Mount'', ''UserNS'', ''PID'', ''IPCHost'',
         ''Device'', ''AddDevice'', ''Rootfs'', ''PodmanArgs'']),
      (''Service'', [''Restart'', ''TimeoutStartSec'', ''TimeoutStopSec'']),
      (''Install'', [''WantedBy''])]"

definition validate_key :: "string \<Rightarrow> string list \<Rightarrow> string \<Rightarrow> unit Result" where
  "validate_key section keys key =
     (if dangerous_service_key key then
        Inl (err Policy (''unsupported host-executing service key: '' @ section @ ''.'' @ key))
      else if key \<notin> set keys then
        Inl (err Policy (''unsupported Quadlet key: '' @ section @ ''.'' @ key))
      else Inr ())"

definition validate_allowed_keys :: "parsed_quadlet \<Rightarrow> unit Result" where
  "validate_allowed_keys parsed =
     check_all
       (\<lambda>(section, entries).
          case map_of allowed section of
            None \<Rightarrow> Inl (err Policy (''unsupported Quadlet section: '' @ section))
          | Some keys \<Rightarrow> check_all (\<lambda>(key, values). validate_key section keys key) entries)
       (sections parsed)"

definition label_key :: "string \<Rightarrow> string" where
  "label_key label = trim (case str_find (CHR ''='') label of None \<Rightarrow> label | Some eq \<Rightarrow> take eq label)"

definition label_value :: "string \<Rightarrow> string" where
  "label_value label = trim (case str_find (CHR ''='') label of None \<Rightarrow> [] | Some eq \<Rightarrow> drop (eq + 1) label)"

text \<open>The two counters of \<open>validate_managed_label\<close>: \<open>(managed_labels, matches)\<close>.\<close>

fun count_labels :: "quadlet_policy \<Rightarrow> string list \<Rightarrow> nat \<times> nat \<Rightarrow> nat \<times> nat" where
  "count_labels policy [] counts = counts"
| "count_labels policy (label # labels) (managed_labels, matches) =
     count_labels policy labels
       (if label_key label = managed_label_key policy then
          (managed_labels + 1,
           if label_value label = managed_label_value policy then matches + 1 else matches)
        else (managed_labels, matches))"

definition validate_managed_label :: "parsed_quadlet \<Rightarrow> quadlet_policy \<Rightarrow> unit Result" where
  "validate_managed_label parsed policy =
     (let (managed_labels, matches) = count_labels policy (quadlet_values parsed ''Container'' ''Label'') (0, 0)
      in if managed_labels \<noteq> 1 \<or> matches \<noteq> 1 then
           Inl (err Policy (''Quadlet must carry exactly one managed Label='' @ managed_label_key policy
                            @ ''='' @ managed_label_value policy))
         else Inr ())"

section \<open>\<open>validate_quadlet_policy\<close>\<close>

text \<open>One loop over the values of a \<open>[Container]\<close> key that rejects a denied value.\<close>

definition deny_values :: "parsed_quadlet \<Rightarrow> string \<Rightarrow> (string \<Rightarrow> bool) \<Rightarrow> string \<Rightarrow> unit Result" where
  "deny_values parsed key denied msg =
     check_all (\<lambda>value. guard (\<not> denied value) (err Policy msg)) (quadlet_values parsed ''Container'' key)"

definition validate_values :: "parsed_quadlet \<Rightarrow> quadlet_policy \<Rightarrow> unit Result" where
  "validate_values parsed policy =
     bind_result (deny_values parsed ''Network''
        (\<lambda>value. \<not> allow_host_network policy \<and> equals_key value ''host'')
        ''Quadlet Network=host is not allowed'') (\<lambda>_.
     bind_result (deny_values parsed ''PID''
        (\<lambda>value. \<not> allow_host_pid policy \<and> equals_key value ''host'')
        ''Quadlet PID=host is not allowed'') (\<lambda>_.
     bind_result (deny_values parsed ''IPCHost''
        (\<lambda>value. \<not> allow_host_ipc policy \<and> truthy value)
        ''Quadlet IPCHost=true is not allowed'') (\<lambda>_.
     bind_result (deny_values parsed ''UserNS''
        (\<lambda>value. \<not> allow_host_userns policy \<and> equals_key value ''host'')
        ''Quadlet UserNS=host is not allowed'') (\<lambda>_.
     bind_result (deny_values parsed ''Device''
        (\<lambda>value. \<not> allow_devices policy \<and> trim value \<noteq> [])
        ''Quadlet Device= is not allowed by default'') (\<lambda>_.
     bind_result (deny_values parsed ''AddDevice''
        (\<lambda>value. \<not> allow_devices policy \<and> trim value \<noteq> [])
        ''Quadlet AddDevice= is not allowed by default'') (\<lambda>_.
     bind_result (deny_values parsed ''Volume''
        (\<lambda>value. \<not> allow_root_mount policy \<and> host_path_volume value)
        ''Quadlet host path Volume= mounts are not allowed'') (\<lambda>_.
     bind_result (deny_values parsed ''Mount''
        (\<lambda>value. \<not> allow_root_mount policy \<and> host_path_mount value)
        ''Quadlet host path Mount= mounts are not allowed'') (\<lambda>_.
     bind_result (deny_values parsed ''Rootfs''
        (\<lambda>value. \<not> allow_root_mount policy \<and> trim value \<noteq> [])
        ''Quadlet Rootfs= is not allowed by default'') (\<lambda>_.
     check_all
       (\<lambda>value.
          if \<not> allow_podman_args policy then
            Inl (err Policy ''Quadlet PodmanArgs= is not allowed by default'')
          else if denied_podman_arg value policy then
            Inl (err Policy ''Quadlet PodmanArgs contains a denied argument'')
          else Inr ())
       (quadlet_values parsed ''Container'' ''PodmanArgs''))))))))))"

definition validate_quadlet_policy :: "quadlet_file \<Rightarrow> quadlet_policy \<Rightarrow> unit Result" where
  "validate_quadlet_policy quadlet policy =
     bind_result (validate_quadlet_file_name (qf_file_name quadlet)) (\<lambda>_.
     bind_result (guard (qf_contents quadlet \<noteq> []) (err Invalid_argument ''Quadlet contents are empty'')) (\<lambda>_.
     bind_result (guard (str_find (CHR 0x00) (qf_contents quadlet) = None)
        (err Invalid_argument ''Quadlet contents must not contain NUL bytes'')) (\<lambda>_.
     bind_result (parse_quadlet (qf_contents quadlet)) (\<lambda>parsed.
     bind_result (guard (\<not> (require_container_section policy \<and> \<not> has_section parsed ''Container''))
        (err Policy ''Quadlet must contain a [Container] section'')) (\<lambda>_.
     bind_result (guard (\<not> (require_image policy \<and> quadlet_values parsed ''Container'' ''Image'' = []))
        (err Policy ''Quadlet [Container] section must contain Image='')) (\<lambda>_.
     bind_result (validate_allowed_keys parsed) (\<lambda>_.
     bind_result (if require_managed_label policy then validate_managed_label parsed policy else Inr ()) (\<lambda>_.
       validate_values parsed policy))))))))"

end
