(* ===== verification/Quadlet_Policy_Facts.thy ===== *)
theory Quadlet_Policy_Facts
  imports Quadlet_Policy
begin

text \<open>
  What \<open>validate_quadlet_policy\<close> accepts: a declarative condition on each entry
  (\<open>entry_allowed\<close>) and on the labels (\<open>managed_by_policy\<close>), shown equivalent to the
  sequence of loops of the code; monotonicity in the policy; the quoting rules of
  \<open>split_podman_args\<close>.
\<close>

section \<open>Allowed keys\<close>

definition key_allowed :: "string \<Rightarrow> string \<Rightarrow> bool" where
  "key_allowed section key \<longleftrightarrow>
     (case map_of allowed section of None \<Rightarrow> False | Some keys \<Rightarrow> key \<in> set keys)"

text \<open>No key of the table is one the dangerous-key test knows, so that test only picks the message.\<close>

lemma allowed_not_dangerous: "key_allowed section key \<Longrightarrow> \<not> dangerous_service_key key"
  by (auto simp: key_allowed_def allowed_def dangerous_service_key_def starts_with_def
      split: if_splits)

lemma validate_key_Inr:
  "map_of allowed section = Some keys \<Longrightarrow>
     validate_key section keys key = Inr () \<longleftrightarrow> key_allowed section key"
  using allowed_not_dangerous [of "section" key]
  by (auto simp: validate_key_def key_allowed_def)

lemma values_nonempty_iff:
  assumes "parsed_wf p"
  shows "quadlet_values p s k \<noteq> [] \<longleftrightarrow> (\<exists>es. map_of (sections p) s = Some es \<and> k \<in> fst ` set es)"
proof
  assume "quadlet_values p s k \<noteq> []"
  then obtain es vs where "map_of (sections p) s = Some es" "map_of es k = Some vs"
    by (auto simp: quadlet_values_def split: option.splits)
  then show "\<exists>es. map_of (sections p) s = Some es \<and> k \<in> fst ` set es"
    by (auto dest!: map_of_SomeD intro!: image_eqI)
next
  assume "\<exists>es. map_of (sections p) s = Some es \<and> k \<in> fst ` set es"
  then obtain es where es: "map_of (sections p) s = Some es" "k \<in> fst ` set es" by blast
  then obtain vs where vs: "map_of es k = Some vs"
    by (metis map_of_eq_None_iff not_None_eq)
  then have "vs \<noteq> []"
    using assms es(1) map_of_SomeD [OF vs] by (fastforce simp: parsed_wf_def)
  with es(1) vs show "quadlet_values p s k \<noteq> []" by (simp add: quadlet_values_def)
qed

lemma smap_wf_distinct: "smap_wf m \<Longrightarrow> distinct (map fst m)"
  by (induction m) force+

lemma smap_wf_mem: "smap_wf m \<Longrightarrow> (k, v) \<in> set m \<longleftrightarrow> map_of m k = Some v"
  by (simp add: smap_wf_distinct)

lemma validate_allowed_keys_Inr:
  assumes "parsed_wf p"
  shows "validate_allowed_keys p = Inr () \<longleftrightarrow>
    (\<forall>s k. quadlet_values p s k \<noteq> [] \<longrightarrow> key_allowed s k)"
proof -
  have entries: "(case map_of allowed s of
          None \<Rightarrow> Inl (err Policy (''unsupported Quadlet section: '' @ s))
        | Some keys \<Rightarrow> check_all (\<lambda>(key, values). validate_key s keys key) es) = Inr ()
      \<longleftrightarrow> (\<forall>k \<in> fst ` set es. key_allowed s k)" if "es \<noteq> []" for s es
  proof (cases "map_of allowed s")
    case None
    with that show ?thesis by (cases es) (auto simp: key_allowed_def)
  next
    case (Some keys)
    then show ?thesis by (auto simp: check_all_Inr validate_key_Inr)
  qed
  have wf: "smap_wf (sections p)" "\<And>s es. (s, es) \<in> set (sections p) \<Longrightarrow> es \<noteq> []"
    using assms by (auto simp: parsed_wf_def smap_wf_mem)
  have "validate_allowed_keys p = Inr () \<longleftrightarrow>
      (\<forall>(s, es) \<in> set (sections p). \<forall>k \<in> fst ` set es. key_allowed s k)"
    unfolding validate_allowed_keys_def check_all_Inr
  proof (rule ball_cong [OF refl])
    fix x assume "x \<in> set (sections p)"
    moreover obtain s es where "x = (s, es)" by fastforce
    ultimately show "(case x of (s, es) \<Rightarrow> (case map_of allowed s of
          None \<Rightarrow> Inl (err Policy (''unsupported Quadlet section: '' @ s))
        | Some keys \<Rightarrow> check_all (\<lambda>(key, values). validate_key s keys key) es)) = Inr ()
      \<longleftrightarrow> (case x of (s, es) \<Rightarrow> \<forall>k \<in> fst ` set es. key_allowed s k)"
      using entries [OF wf(2)] by simp
  qed
  also have "\<dots> \<longleftrightarrow> (\<forall>s es. map_of (sections p) s = Some es \<longrightarrow> (\<forall>k \<in> fst ` set es. key_allowed s k))"
    by (simp add: Ball_def split_paired_All smap_wf_mem [OF wf(1)])
  finally show ?thesis
    by (auto simp: values_nonempty_iff [OF assms])
qed

section \<open>The managed label\<close>

text \<open>Exactly one label has the managed key, and it has the managed value.\<close>

definition managed_by_policy :: "quadlet_policy \<Rightarrow> string list \<Rightarrow> bool" where
  "managed_by_policy policy labels \<longleftrightarrow>
     (case filter (\<lambda>label. label_key label = managed_label_key policy) labels of
        [l] \<Rightarrow> label_value l = managed_label_value policy
      | _ \<Rightarrow> False)"

lemma count_labels_conv:
  "count_labels policy labels (m, n) =
     (m + length (filter (\<lambda>l. label_key l = managed_label_key policy) labels),
      n + length (filter (\<lambda>l. label_key l = managed_label_key policy
                            \<and> label_value l = managed_label_value policy) labels))"
  by (induction labels arbitrary: m n) auto

lemma validate_managed_label_Inr:
  "validate_managed_label p policy = Inr () \<longleftrightarrow>
     managed_by_policy policy (quadlet_values p ''Container'' ''Label'')"
proof -
  let ?ls = "quadlet_values p ''Container'' ''Label''"
  let ?k = "filter (\<lambda>l. label_key l = managed_label_key policy) ?ls"
  have matches: "filter (\<lambda>l. label_key l = managed_label_key policy
        \<and> label_value l = managed_label_value policy) ?ls
      = filter (\<lambda>l. label_value l = managed_label_value policy) ?k"
    by (simp add: conj_commute)
  show ?thesis
  proof (cases "\<exists>l. ?k = [l]")
    case True
    then obtain l where "?k = [l]" ..
    with matches show ?thesis
      by (auto simp: validate_managed_label_def managed_by_policy_def count_labels_conv)
  next
    case False
    then have "length ?k \<noteq> 1" by (simp add: length_Suc_conv)
    with False show ?thesis
      by (auto simp: validate_managed_label_def managed_by_policy_def count_labels_conv split: list.splits)
  qed
qed

section \<open>Denied values\<close>

text \<open>The condition one value of a \<open>[Container]\<close> key has to meet, by key.\<close>

definition value_allowed :: "quadlet_policy \<Rightarrow> string \<Rightarrow> string \<Rightarrow> bool" where
  "value_allowed policy key value \<longleftrightarrow>
     (key = ''Network'' \<longrightarrow> allow_host_network policy \<or> \<not> equals_key value ''host'') \<and>
     (key = ''PID'' \<longrightarrow> allow_host_pid policy \<or> \<not> equals_key value ''host'') \<and>
     (key = ''IPCHost'' \<longrightarrow> allow_host_ipc policy \<or> \<not> truthy value) \<and>
     (key = ''UserNS'' \<longrightarrow> allow_host_userns policy \<or> \<not> equals_key value ''host'') \<and>
     (key = ''Device'' \<or> key = ''AddDevice'' \<longrightarrow> allow_devices policy \<or> trim value = []) \<and>
     (key = ''Volume'' \<longrightarrow> allow_root_mount policy \<or> \<not> host_path_volume value) \<and>
     (key = ''Mount'' \<longrightarrow> allow_root_mount policy \<or> \<not> host_path_mount value) \<and>
     (key = ''Rootfs'' \<longrightarrow> allow_root_mount policy \<or> trim value = []) \<and>
     (key = ''PodmanArgs'' \<longrightarrow> allow_podman_args policy \<and> \<not> denied_podman_arg value policy)"

definition entry_allowed :: "quadlet_policy \<Rightarrow> string \<Rightarrow> string \<Rightarrow> string \<Rightarrow> bool" where
  "entry_allowed policy section key value \<longleftrightarrow>
     key_allowed section key \<and> (section = ''Container'' \<longrightarrow> value_allowed policy key value)"

lemma deny_values_Inr:
  "deny_values p key denied msg = Inr () \<longleftrightarrow> (\<forall>v \<in> set (quadlet_values p ''Container'' key). \<not> denied v)"
  by (simp add: deny_values_def check_all_Inr guard_Inr)

lemma value_allowed_keys:
  "value_allowed policy ''Network'' v = (allow_host_network policy \<or> \<not> equals_key v ''host'')"
  "value_allowed policy ''PID'' v = (allow_host_pid policy \<or> \<not> equals_key v ''host'')"
  "value_allowed policy ''IPCHost'' v = (allow_host_ipc policy \<or> \<not> truthy v)"
  "value_allowed policy ''UserNS'' v = (allow_host_userns policy \<or> \<not> equals_key v ''host'')"
  "value_allowed policy ''Device'' v = (allow_devices policy \<or> trim v = [])"
  "value_allowed policy ''AddDevice'' v = (allow_devices policy \<or> trim v = [])"
  "value_allowed policy ''Volume'' v = (allow_root_mount policy \<or> \<not> host_path_volume v)"
  "value_allowed policy ''Mount'' v = (allow_root_mount policy \<or> \<not> host_path_mount v)"
  "value_allowed policy ''Rootfs'' v = (allow_root_mount policy \<or> trim v = [])"
  "value_allowed policy ''PodmanArgs'' v = (allow_podman_args policy \<and> \<not> denied_podman_arg v policy)"
  by (simp_all add: value_allowed_def)

definition checked_keys :: "string list" where
  "checked_keys = [''Network'', ''PID'', ''IPCHost'', ''UserNS'', ''Device'', ''AddDevice'',
     ''Volume'', ''Mount'', ''Rootfs'', ''PodmanArgs'']"

lemma unchecked_key_allowed: "k \<notin> set checked_keys \<Longrightarrow> value_allowed policy k v"
  by (simp add: checked_keys_def value_allowed_def)

lemma validate_values_checked:
  "validate_values p policy = Inr () \<longleftrightarrow>
     (\<forall>k \<in> set checked_keys. \<forall>v \<in> set (quadlet_values p ''Container'' k). value_allowed policy k v)"
proof -
  have "check_all (\<lambda>value.
          if \<not> allow_podman_args policy then
            Inl (err Policy ''Quadlet PodmanArgs= is not allowed by default'')
          else if denied_podman_arg value policy then
            Inl (err Policy ''Quadlet PodmanArgs contains a denied argument'')
          else Inr ()) vs = Inr ()
      \<longleftrightarrow> (\<forall>v \<in> set vs. allow_podman_args policy \<and> \<not> denied_podman_arg v policy)" for vs
    by (auto simp: check_all_Inr)
  then show ?thesis
    by (simp add: validate_values_def bind_result_Inr deny_values_Inr checked_keys_def value_allowed_keys)
qed

lemma validate_values_Inr:
  "validate_values p policy = Inr () \<longleftrightarrow>
     (\<forall>k. \<forall>v \<in> set (quadlet_values p ''Container'' k). value_allowed policy k v)"
  using unchecked_key_allowed validate_values_checked by blast

section \<open>Acceptance\<close>

definition quadlet_acceptable :: "quadlet_policy \<Rightarrow> parsed_quadlet \<Rightarrow> bool" where
  "quadlet_acceptable policy p \<longleftrightarrow>
     (require_container_section policy \<longrightarrow> has_section p ''Container'') \<and>
     (require_image policy \<longrightarrow> quadlet_values p ''Container'' ''Image'' \<noteq> []) \<and>
     (require_managed_label policy \<longrightarrow> managed_by_policy policy (quadlet_values p ''Container'' ''Label'')) \<and>
     (\<forall>s k. \<forall>v \<in> set (quadlet_values p s k). entry_allowed policy s k v)"

lemma entries_allowed_split:
  "(\<forall>s k. \<forall>v \<in> set (quadlet_values p s k). entry_allowed policy s k v) \<longleftrightarrow>
     (\<forall>s k. quadlet_values p s k \<noteq> [] \<longrightarrow> key_allowed s k) \<and>
     (\<forall>k. \<forall>v \<in> set (quadlet_values p ''Container'' k). value_allowed policy k v)"
proof -
  have "xs \<noteq> [] \<longleftrightarrow> (\<exists>v. v \<in> set xs)" for xs :: "string list"
    by (cases xs) auto
  then show ?thesis unfolding entry_allowed_def by blast
qed

lemma acceptance:
  "validate_quadlet_policy q policy = Inr () \<longleftrightarrow>
     validate_quadlet_file_name (qf_file_name q) = Inr () \<and> qf_contents q \<noteq> [] \<and>
     CHR 0x00 \<notin> set (qf_contents q) \<and>
     (\<exists>p. parse_quadlet (qf_contents q) = Inr p \<and> quadlet_acceptable policy p)"
proof -
  have managed: "(if require_managed_label policy then validate_managed_label p policy else Inr ()) = Inr ()
      \<longleftrightarrow> (require_managed_label policy \<longrightarrow>
             managed_by_policy policy (quadlet_values p ''Container'' ''Label''))" for p
    by (simp add: validate_managed_label_Inr)
  have "validate_allowed_keys p = Inr () \<and> validate_values p policy = Inr () \<longleftrightarrow>
      (\<forall>s k. \<forall>v \<in> set (quadlet_values p s k). entry_allowed policy s k v)"
    if "parse_quadlet (qf_contents q) = Inr p" for p
    using validate_allowed_keys_Inr [OF parse_quadlet_wf [OF that]] validate_values_Inr [of p policy]
      entries_allowed_split [of p policy] by simp
  then show ?thesis
    by (simp add: validate_quadlet_policy_def bind_result_Inr guard_Inr managed str_find_None
        quadlet_acceptable_def) blast
qed

section \<open>More permissive policies accept more\<close>

text \<open>\<open>policy_le a b\<close>: \<open>b\<close> requires no more than \<open>a\<close> and allows no less, with the same label.\<close>

definition policy_le :: "quadlet_policy \<Rightarrow> quadlet_policy \<Rightarrow> bool" where
  "policy_le a b \<longleftrightarrow>
     (require_container_section b \<longrightarrow> require_container_section a) \<and>
     (require_image b \<longrightarrow> require_image a) \<and>
     (require_managed_label b \<longrightarrow> require_managed_label a) \<and>
     managed_label_key a = managed_label_key b \<and> managed_label_value a = managed_label_value b \<and>
     (allow_privileged a \<longrightarrow> allow_privileged b) \<and>
     (allow_host_network a \<longrightarrow> allow_host_network b) \<and>
     (allow_host_pid a \<longrightarrow> allow_host_pid b) \<and>
     (allow_host_ipc a \<longrightarrow> allow_host_ipc b) \<and>
     (allow_host_userns a \<longrightarrow> allow_host_userns b) \<and>
     (allow_devices a \<longrightarrow> allow_devices b) \<and>
     (allow_root_mount a \<longrightarrow> allow_root_mount b) \<and>
     (allow_podman_args a \<longrightarrow> allow_podman_args b)"

lemma denied_part_mono: "policy_le a b \<Longrightarrow> denied_part b part next \<Longrightarrow> denied_part a part next"
  unfolding denied_part_def policy_le_def by (elim conjE disjE) simp_all

lemma denied_parts_mono: "policy_le a b \<Longrightarrow> denied_parts b parts \<Longrightarrow> denied_parts a parts"
  by (induction parts) (auto dest: denied_part_mono split: if_splits)

lemma value_allowed_mono: 
  assumes "policy_le a b"  "value_allowed a k v" shows "value_allowed b k v"
proof (cases "k \<in> set checked_keys")
  case True
  have "denied_podman_arg v b \<Longrightarrow> denied_podman_arg v a"
    using denied_parts_mono [OF assms(1)] by (simp add: denied_podman_arg_def)
  note args = this
  have "k = x \<Longrightarrow> value_allowed a x v \<Longrightarrow> value_allowed b x v" if "x \<in> set checked_keys" for x
    using that assms(1) args unfolding checked_keys_def policy_le_def
    by (simp only: list.set insert_iff empty_iff) (elim disjE FalseE; simp only: value_allowed_keys; blast)
  with assms True show ?thesis by blast
next
  case False
  then show ?thesis by (rule unchecked_key_allowed)
qed
lemma acceptable_mono:
  assumes "policy_le a b" and "quadlet_acceptable a p"
  shows "quadlet_acceptable b p"
proof -
  have "managed_label_key a = managed_label_key b" "managed_label_value a = managed_label_value b"
    using assms(1) by (simp_all add: policy_le_def)
  then have "managed_by_policy a ls = managed_by_policy b ls" for ls
    by (simp only: managed_by_policy_def)
  with assms value_allowed_mono [OF assms(1)] show ?thesis
    by (simp add: quadlet_acceptable_def entry_allowed_def policy_le_def)
qed

section \<open>Splitting arguments\<close>

text \<open>Every part of the argument list is tested together with the part that follows it.\<close>

lemma denied_parts_iff:
  "denied_parts policy parts \<longleftrightarrow>
     (\<exists>i < length parts. denied_part policy (parts ! i)
        (if Suc i < length parts then parts ! Suc i else []))"
proof (induction parts)
  case (Cons part rest)
  have next_part: "(case rest of [] \<Rightarrow> [] | x # _ \<Rightarrow> x) = (if 0 < length rest then rest ! 0 else [])"
    by (cases rest) auto
  show ?case
    unfolding denied_parts.simps next_part Cons.IH
    by (simp add: Ex_less_Suc2)
qed simp
text \<open>
  The quoting that \<open>split_podman_args\<close> undoes: double quotes around, a backslash before a
  double quote or a backslash. Arguments written so come out as they were.
\<close>

definition escape_arg :: "string \<Rightarrow> string" where
  "escape_arg t = concat (map (\<lambda>c. if c = CHR 0x22 \<or> c = CHR 0x5C then [CHR 0x5C, c] else [c]) t)"

definition quote_arg :: "string \<Rightarrow> string" where
  "quote_arg t = CHR 0x22 # escape_arg t @ [CHR 0x22]"

definition join_args :: "string list \<Rightarrow> string" where
  "join_args ts = concat (map (\<lambda>t. quote_arg t @ '' '') ts)"

lemma split_escaped:
  "split_loop ts cur False True False (escape_arg t @ s) = split_loop ts (cur @ t) False True False s"
  by (induction t arbitrary: cur) (simp_all add: escape_arg_def)

lemma split_quoted:
  "t \<noteq> [] \<Longrightarrow> split_loop ts [] False False False (quote_arg t @ '' '' @ s) =
     split_loop (ts @ [t]) [] False False False s"
  by (simp add: quote_arg_def split_escaped isspace_def)

lemma split_joined:
  "\<forall>t \<in> set args. t \<noteq> [] \<Longrightarrow> split_loop ts [] False False False (join_args args) = ts @ args"
proof (induction args arbitrary: ts)
  case (Cons t args)
  then show ?case
    using split_quoted [of t ts "join_args args"] by (simp add: join_args_def)
qed (simp add: join_args_def)

section \<open>Acceptance of a document\<close>

text \<open>The acceptance condition on the entries of a document instead of on its parsed form.\<close>

definition document_acceptable :: "quadlet_policy \<Rightarrow> document \<Rightarrow> bool" where
  "document_acceptable policy doc \<longleftrightarrow>
     (let es = document_entries doc in
        doc \<noteq> [] \<and> CHR 0x00 \<notin> set (render_document doc) \<and>
        (require_container_section policy \<longrightarrow> list_ex (\<lambda>((s, k), v). s = ''Container'') es) \<and>
        (require_image policy \<longrightarrow> list_ex (\<lambda>((s, k), v). s = ''Container'' \<and> k = ''Image'') es) \<and>
        (require_managed_label policy \<longrightarrow>
           managed_by_policy policy (map snd (filter (\<lambda>e. fst e = (''Container'', ''Label'')) es))) \<and>
        list_all (\<lambda>((s, k), v). entry_allowed policy s k v) es)"

lemma render_document_Nil [simp]: "render_document doc = [] \<longleftrightarrow> doc = []"
  by (cases doc) (auto simp: render_document_def document_lines_def)

lemma document_acceptable_parsed:
  assumes wf: "parsed_wf p"
    and vals: "\<And>s k. quadlet_values p s k = map snd (filter (\<lambda>e. fst e = (s, k)) (document_entries doc))"
  shows "doc \<noteq> [] \<and> CHR 0x00 \<notin> set (render_document doc) \<and> quadlet_acceptable policy p
    \<longleftrightarrow> document_acceptable policy doc"
proof -
  have mem: "v \<in> set (quadlet_values p s k) \<longleftrightarrow> ((s, k), v) \<in> set (document_entries doc)" for s k v
    by (force simp: vals)
  have ne: "quadlet_values p s k \<noteq> [] \<longleftrightarrow> (\<exists>v. ((s, k), v) \<in> set (document_entries doc))" for s k
    by (metis mem list.set_intros(1) neq_Nil_conv empty_iff empty_set)
  have "has_section p s \<longleftrightarrow> (\<exists>k v. ((s, k), v) \<in> set (document_entries doc))" for s
    using has_section_iff [OF wf] ne by blast
  then show ?thesis
    unfolding document_acceptable_def quadlet_acceptable_def Let_def vals [symmetric]
    by (simp add: ne mem list_ex_iff list_all_iff Bex_def Ball_def)
qed

lemma acceptance_document:
  assumes "plain_document doc"
  shows "validate_quadlet_policy \<lparr>qf_file_name = f, qf_contents = render_document doc\<rparr> policy = Inr () \<longleftrightarrow>
    validate_quadlet_file_name f = Inr () \<and> document_acceptable policy doc"
proof -
  obtain p where p: "parse_quadlet (render_document doc) = Inr p"
    and vals: "\<And>s k. quadlet_values p s k = map snd (filter (\<lambda>e. fst e = (s, k)) (document_entries doc))"
    using parse_render [OF assms] values_of_entries by blast
  from document_acceptable_parsed [OF parse_quadlet_wf [OF p] vals] show ?thesis
    by (auto simp: acceptance p)
qed

end
