(* ===== verification/Quadlet_Properties.thy ===== *)
theory Quadlet_Properties
  imports Quadlet_Policy_Facts
begin

text \<open>
  The properties of the pure part of \<open>src/quadlet.cpp\<close>: what the policy accepts, what the
  parser reads back, and which file and unit names go together.
\<close>

section \<open>A sample document\<close>

text \<open>The document of the test suite, and one with an attached short option in \<open>PodmanArgs=\<close>.\<close>

definition sample_document :: document where
  "sample_document =
     [(''Unit'', [(''Description'', ''Demo'')]),
      (''Container'', [(''Image'', ''localhost/demo:latest''),
         (''Label'', ''com.example.pod-installer.managed=true''), (''ReadOnly'', ''true'')]),
      (''Service'', [(''Restart'', ''on-failure'')])]"

definition attached_volume_document :: document where
  "attached_volume_document =
     [(''Container'', [(''Image'', ''busybox''),
         (''Label'', ''com.example.pod-installer.managed=true''), (''PodmanArgs'', ''-v/:/host'')])]"

definition quadlet_of :: "string \<Rightarrow> document \<Rightarrow> quadlet_file" where
  "quadlet_of f doc = \<lparr>qf_file_name = f, qf_contents = render_document doc\<rparr>"

lemma plain_sample: "plain_document sample_document"
  by code_simp

section \<open>The policy\<close>

text \<open>
  C7: For a Quadlet that is written out from sections, keys and values,
  \<open>validate_quadlet_policy\<close> accepts exactly when the file name is valid and the document meets
  the declarative policy: required section, image and exactly one managed label are there,
  every section and key is in the allowed table, and every value of a sensitive key
  (network, PID, IPC, user namespace, devices, mounts, rootfs, Podman arguments) passes its
  test under the policy's switches.
\<close>

theorem policy_accepts_document:
  assumes "plain_document doc"
  shows "validate_quadlet_policy (quadlet_of f doc) policy = Inr () \<longleftrightarrow>
    validate_quadlet_file_name f = Inr () \<and> document_acceptable policy doc"
  unfolding quadlet_of_def by (rule acceptance_document [OF assms])

theorem policy_accepts_document_witness:
  "validate_quadlet_policy (quadlet_of ''demo.container'' sample_document) default_policy = Inr ()"
proof -
  have "validate_quadlet_file_name ''demo.container'' = Inr ()" by code_simp
  moreover have "document_acceptable default_policy sample_document" by code_simp
  ultimately show ?thesis
    using policy_accepts_document [OF plain_sample, of "''demo.container''" default_policy] by simp
qed

text \<open>
  C6: Whatever the text, \<open>validate_quadlet_policy\<close> returns success exactly when the name is
  valid, the contents are non-empty and free of NUL bytes, the text parses, and the parsed
  form is acceptable: the sequence of early returns rejects nothing else and lets nothing
  else through.
\<close>

theorem policy_accepts_exactly:
  "validate_quadlet_policy q policy = Inr () \<longleftrightarrow>
     validate_quadlet_file_name (qf_file_name q) = Inr () \<and> qf_contents q \<noteq> [] \<and>
     CHR 0x00 \<notin> set (qf_contents q) \<and>
     (\<exists>p. parse_quadlet (qf_contents q) = Inr p \<and> quadlet_acceptable policy p)"
  by (rule acceptance)

text \<open>
  C24: Making a policy more permissive (dropping requirements, switching permissions on, with
  the same managed label) never turns an accepted Quadlet into a rejected one.
\<close>

theorem policy_monotone:
  assumes "policy_le a b" and "validate_quadlet_policy q a = Inr ()"
  shows "validate_quadlet_policy q b = Inr ()"
  using assms(2) acceptable_mono [OF assms(1)] by (auto simp: acceptance)

theorem policy_monotone_witness:
  "validate_quadlet_policy (quadlet_of ''demo.container'' sample_document)
     (default_policy\<lparr>allow_devices := True\<rparr>) = Inr ()"
proof (rule policy_monotone)
  show "policy_le default_policy (default_policy\<lparr>allow_devices := True\<rparr>)"
    by code_simp
  show "validate_quadlet_policy (quadlet_of ''demo.container'' sample_document) default_policy = Inr ()"
    by code_simp
qed

text \<open>
  C23: A document of trimmed, single-line entries that is written out in the Quadlet syntax is
  read back by \<open>parse_quadlet\<close>: the parse succeeds, and the values of every section and key
  are exactly the written ones, in order, over repeated sections and keys.
\<close>

theorem parse_render_values:
  assumes "plain_document doc"
  shows "\<exists>p. parse_quadlet (render_document doc) = Inr p \<and>
    (\<forall>s k. quadlet_values p s k = map snd (filter (\<lambda>e. fst e = (s, k)) (document_entries doc)))"
  using parse_render [OF assms] values_of_entries by blast

theorem parse_render_values_witness:
  "\<exists>p. parse_quadlet (render_document sample_document) = Inr p \<and>
     quadlet_values p ''Container'' ''Image'' = [''localhost/demo:latest'']"
proof -
  have "map snd (filter (\<lambda>e. fst e = (''Container'', ''Image'')) (document_entries sample_document))
      = [''localhost/demo:latest'']"
    by code_simp
  then show ?thesis
    using parse_render_values [OF plain_sample] by auto
qed

text \<open>
  Arguments written in double quotes, with a backslash before each double quote and
  backslash, are what \<open>split_podman_args\<close> returns: quoting cannot hide or merge arguments.
\<close>

theorem split_podman_args_quoted:
  assumes "\<forall>t \<in> set args. t \<noteq> []"
  shows "split_podman_args (join_args args) = args"
  using split_joined [OF assms, of "[]"] by (simp add: split_podman_args_def)

theorem split_podman_args_quoted_witness:
  "split_podman_args (join_args [''--userns'', ''ho st'']) = [''--userns'', ''ho st'']"
  by (rule split_podman_args_quoted) simp

text \<open>
  An argument list is denied exactly when some argument, read with the one that follows
  it, is denied; in particular an argument such as \<open>--pid\<close> with the value \<open>host\<close> in the next
  argument is found at any position.
\<close>

theorem denied_podman_arg_iff:
  "denied_podman_arg value policy \<longleftrightarrow>
     (let parts = split_podman_args value in
      \<exists>i < length parts. denied_part policy (parts ! i)
        (if Suc i < length parts then parts ! Suc i else []))"
  by (simp add: denied_podman_arg_def denied_parts_iff Let_def)

text \<open>
  The short volume option with its value attached (\<open>-v/:/host\<close>, which Podman's option
  parser reads as \<open>-v /:/host\<close>) passes \<open>denied_podman_arg\<close>: a policy that permits Podman
  arguments and forbids host mounts accepts a Quadlet that mounts the host's root.
\<close>

theorem attached_volume_accepted:
  "validate_quadlet_policy (quadlet_of ''demo.container'' attached_volume_document)
     (default_policy\<lparr>allow_podman_args := True\<rparr>) = Inr ()
   \<and> \<not> allow_root_mount (default_policy\<lparr>allow_podman_args := True\<rparr>)"
  by (rule conjI; code_simp)

section \<open>Names\<close>

text \<open>
  The unit name of an accepted Quadlet file is the file's stem with \<open>.service\<close>,
  made of a non-empty stem of at most 245 safe characters that starts with neither a dot nor
  a dash, and every such stem is accepted. So the map from file names to unit names is
  one-to-one: two Quadlets of a user never share a unit.
\<close>

theorem service_unit_name_correct:
  "service_unit_name_from_quadlet f = Inr u \<longleftrightarrow>
     (\<exists>stem. quadlet_stem stem \<and> f = stem @ ''.container'' \<and> u = stem @ ''.service'')"
  using service_unit_name_Inr service_unit_name_stem by metis

end
