(* ===== verification/Path.thy ===== *)
theory Path
  imports Prelude
begin

text \<open>
  \<open>std::filesystem::path\<close> in the POSIX format, as far as the code uses it: a path is the
  string it was made from; iteration over its elements, \<open>operator/\<close>, \<open>filename\<close>,
  \<open>parent_path\<close>, \<open>is_absolute\<close>, \<open>lexically_normal\<close> and comparison.
\<close>

type_synonym path = string

fun split_on :: "char \<Rightarrow> string \<Rightarrow> string list" where
  "split_on d [] = [[]]"
| "split_on d (c # cs) =
     (if c = d then [] # split_on d cs
      else case split_on d cs of [] \<Rightarrow> [[c]] | p # ps \<Rightarrow> (c # p) # ps)"

text \<open>The file names of a path: what stands between directory separators.\<close>

definition path_names :: "path \<Rightarrow> string list" where
  "path_names p = filter (\<lambda>n. n \<noteq> []) (split_on (CHR ''/'') p)"

definition is_absolute :: "path \<Rightarrow> bool" where
  "is_absolute p \<longleftrightarrow> starts_with p ''/''"

text \<open>
  The elements \<open>begin()\<close> to \<open>end()\<close>: the root directory, the names, and an empty element for
  a trailing separator.
\<close>

definition path_elems :: "path \<Rightarrow> string list" where
  "path_elems p =
     (if is_absolute p then [''/''] else []) @ path_names p
     @ (if path_names p \<noteq> [] \<and> last p = CHR ''/'' then [[]] else [])"

definition path_eq :: "path \<Rightarrow> path \<Rightarrow> bool" where
  "path_eq p q \<longleftrightarrow> path_elems p = path_elems q"

text \<open>\<open>p / q\<close>\<close>

definition path_append :: "path \<Rightarrow> path \<Rightarrow> path" where
  "path_append p q =
     (if is_absolute q then q
      else if p = [] \<or> last p = CHR ''/'' then p @ q
      else p @ CHR ''/'' # q)"

definition filename :: "path \<Rightarrow> string" where
  "filename p = rev (takeWhile (\<lambda>c. c \<noteq> CHR ''/'') (rev p))"

definition parent_path :: "path \<Rightarrow> path" where
  "parent_path p =
     (let pre = rev (dropWhile (\<lambda>c. c \<noteq> CHR ''/'') (rev p));
          stripped = rev (dropWhile (\<lambda>c. c = CHR ''/'') (rev pre))
      in if stripped = [] then (if pre = [] then [] else ''/'') else stripped)"

text \<open>
  \<open>lexically_normal()\<close>: dots go, a name followed by dot-dot goes with it, dot-dot directly
  under the root goes. \<open>st\<close> is the stack of kept names, \<open>trail\<close> whether the result ends in a
  separator.
\<close>

fun normal_loop :: "bool \<Rightarrow> string list \<Rightarrow> string list \<Rightarrow> bool \<Rightarrow> string list \<times> bool" where
  "normal_loop absolute st [] trail = (rev st, trail)"
| "normal_loop absolute st (n # ns) trail =
     (if n = ''.'' then normal_loop absolute st ns (ns = [] \<or> trail)
      else if n = ''..'' then
        (case st of
           [] \<Rightarrow> normal_loop absolute (if absolute then [] else [n]) ns trail
         | s # st' \<Rightarrow>
             if s = ''..'' then normal_loop absolute (n # st) ns trail
             else normal_loop absolute st' ns (ns = [] \<or> trail))
      else normal_loop absolute (n # st) ns trail)"

fun join_names :: "string list \<Rightarrow> string" where
  "join_names [] = []"
| "join_names [n] = n"
| "join_names (n # ns) = n @ CHR ''/'' # join_names ns"

definition lexically_normal :: "path \<Rightarrow> path" where
  "lexically_normal p =
     (if p = [] then []
      else let (ns, trail) = normal_loop (is_absolute p) [] (path_names p) (last p = CHR ''/'')
           in if ns = [] then (if is_absolute p then ''/'' else ''.'')
              else (if is_absolute p then ''/'' else []) @ join_names ns
                   @ (if trail \<and> last ns \<noteq> ''..'' then ''/'' else []))"

section \<open>Lemmas\<close>

lemma split_on_ne [simp]: "split_on d s \<noteq> []"
  by (cases s) (auto split: list.splits)

lemma split_on_no_sep: "n \<in> set (split_on d s) \<Longrightarrow> d \<notin> set n"
proof (induction s arbitrary: n)
  case (Cons c s)
  then show ?case by (cases "split_on d s") (auto split: if_splits)
qed simp

lemma split_on_single: "d \<notin> set s \<Longrightarrow> split_on d s = [s]"
  by (induction s) auto

lemma split_on_append: "d \<notin> set s \<Longrightarrow> split_on d (s @ d # t) = s # split_on d t"
  by (induction s) auto

lemma split_on_append_sep:
  "split_on d (s @ d # t) = split_on d s @ split_on d t"
proof (induction s)
  case (Cons c s)
  then show ?case by (cases "split_on d s") (auto split: list.splits)
qed simp

lemma path_names_props: "n \<in> set (path_names p) \<Longrightarrow> n \<noteq> [] \<and> CHR ''/'' \<notin> set n"
  by (auto simp: path_names_def dest: split_on_no_sep)

definition plain_name :: "string \<Rightarrow> bool" where
  "plain_name n \<longleftrightarrow> n \<noteq> [] \<and> CHR ''/'' \<notin> set n"

lemma plain_last: "plain_name n \<Longrightarrow> n \<noteq> [] \<and> last n \<noteq> CHR ''/''"
  unfolding plain_name_def by (metis last_in_set)

lemma path_names_plain: "\<forall>n \<in> set (path_names p). plain_name n"
  by (auto simp: plain_name_def dest: path_names_props)

lemma plain_name_not_absolute [simp]: "plain_name n \<Longrightarrow> \<not> is_absolute n"
  by (cases n) (auto simp: plain_name_def is_absolute_def)

lemma path_names_plain_name [simp]: "plain_name n \<Longrightarrow> path_names n = [n]"
  by (simp add: plain_name_def path_names_def split_on_single)

lemma path_append_plain:
  "plain_name n \<Longrightarrow> p \<noteq> [] \<Longrightarrow> last p \<noteq> CHR ''/'' \<Longrightarrow> path_append p n = p @ CHR ''/'' # n"
  by (simp add: path_append_def)

lemma path_names_append:
  "plain_name n \<Longrightarrow> path_names (path_append p n) = path_names p @ [n]"
proof -
  assume n: "plain_name n"
  consider "p = []" | q where "p = q @ ''/''" | "p \<noteq> []" "last p \<noteq> CHR ''/''"
    by (metis append_butlast_last_id)
  then show ?thesis
  proof cases
    case 1
    with n show ?thesis by (simp add: path_append_def path_names_def [of "[]"])
  next
    case 2
    with n split_on_append_sep [of "CHR ''/''" q n] split_on_append_sep [of "CHR ''/''" q "[]"]
    show ?thesis by (simp add: path_append_def path_names_def plain_name_def split_on_single)
  next
    case 3
    with n split_on_append_sep [of "CHR ''/''" p n]
    show ?thesis by (simp add: path_append_plain path_names_def plain_name_def split_on_single)
  qed
qed

lemma is_absolute_append [simp]:
  "plain_name n \<Longrightarrow> is_absolute (path_append p n) \<longleftrightarrow> is_absolute p"
proof -
  assume n: "plain_name n"
  show ?thesis
  proof (cases p)
    case Nil
    with n show ?thesis by (simp add: path_append_def is_absolute_def [of "[]"])
  next
    case (Cons c cs)
    with n show ?thesis by (auto simp: path_append_def is_absolute_def [of p] is_absolute_def [of "c # _"])
  qed
qed

lemma takeWhile_sep: "d \<notin> set s \<Longrightarrow> takeWhile (\<lambda>c. c \<noteq> d) (s @ d # r) = s"
  by (induction s) auto

lemma takeWhile_no_sep: "d \<notin> set s \<Longrightarrow> takeWhile (\<lambda>c. c \<noteq> d) s = s"
  by (induction s) auto

lemma dropWhile_sep: "d \<notin> set s \<Longrightarrow> dropWhile (\<lambda>c. c \<noteq> d) (s @ d # r) = d # r"
  by (induction s) auto

lemma filename_append:
  assumes n: "plain_name n"
  shows "filename (path_append p n) = n"
proof -
  have s: "CHR ''/'' \<notin> set (rev n)" using n by (simp add: plain_name_def)
  consider "p = []" | q where "p = q @ ''/''" | "p \<noteq> []" "last p \<noteq> CHR ''/''"
    by (metis append_butlast_last_id)
  then show ?thesis
    by cases (use n in \<open>simp_all add: path_append_def filename_def takeWhile_sep [OF s]
        takeWhile_no_sep [OF s]\<close>)
qed

lemma parent_path_append:
  assumes n: "plain_name n" and p: "p \<noteq> []" "last p \<noteq> CHR ''/''"
  shows "parent_path (path_append p n) = p"
proof -
  have s: "CHR ''/'' \<notin> set (rev n)" using n by (simp add: plain_name_def)
  have pre: "rev (dropWhile (\<lambda>c. c \<noteq> CHR ''/'') (rev (p @ CHR ''/'' # n))) = p @ ''/''"
    using dropWhile_sep [OF s, of "rev p"] by simp
  obtain c r where r: "rev p = c # r" "c \<noteq> CHR ''/''"
    using p by (metis hd_rev list.collapse rev_is_Nil_conv)
  then have strip: "rev (dropWhile (\<lambda>c. c = CHR ''/'') (rev (p @ ''/''))) = p"
    by (simp flip: rev_swap)
  show ?thesis
    unfolding parent_path_def path_append_plain [OF n p] Let_def pre strip using p(1) by simp
qed

text \<open>Joining names and splitting again.\<close>

lemma path_names_Nil [simp]: "path_names [] = []" "path_names (CHR ''/'' # p) = path_names p"
  by (simp_all add: path_names_def)

lemma path_names_cons: "plain_name n \<Longrightarrow> path_names (n @ CHR ''/'' # p) = n # path_names p"
  by (simp add: path_names_def plain_name_def split_on_append)

lemma path_names_join [simp]: "\<forall>n \<in> set ns. plain_name n \<Longrightarrow> path_names (join_names ns) = ns"
  by (induction ns rule: join_names.induct) (simp_all add: path_names_cons)

lemma join_names_Nil_iff: "\<forall>n \<in> set ns. plain_name n \<Longrightarrow> join_names ns = [] \<longleftrightarrow> ns = []"
  by (cases ns rule: join_names.cases) (auto simp: plain_name_def)

lemma join_names_relative: "\<forall>n \<in> set ns. plain_name n \<Longrightarrow> \<not> is_absolute (join_names ns)"
proof (cases ns rule: join_names.cases)
  case (3 n m ms)
  moreover assume "\<forall>n \<in> set ns. plain_name n"
  ultimately show ?thesis by (cases n) (auto simp: is_absolute_def plain_name_def)
qed (auto simp: is_absolute_def [of "[]"])

lemma set_join_names: "set (join_names ns) \<subseteq> insert (CHR ''/'') (\<Union> (set ` set ns))"
  by (induction ns rule: join_names.induct) auto

lemma set_split_on: "n \<in> set (split_on d s) \<Longrightarrow> set n \<subseteq> set s"
proof (induction s arbitrary: n)
  case (Cons c s)
  then show ?case by (cases "split_on d s") (fastforce split: if_splits)+
qed simp

lemma set_path_names: "n \<in> set (path_names p) \<Longrightarrow> set n \<subseteq> set p"
  by (auto simp: path_names_def dest: set_split_on)

end
