(* ===== verification/Http.thy ===== *)
theory Http
  imports Errors
begin

text \<open>
  HTTP values and the URL component codec (\<open>include/pod_installer/http.hpp\<close>,
  \<open>src/http.cpp\<close>): requests and responses, the case-insensitive header lookup,
  \<open>url_encode_component\<close> and \<open>url_decode_component\<close>, with the round trip between them.
\<close>

unbundle bit_operations_syntax

section \<open>Requests and responses\<close>

record http_request =
  req_method :: string
  req_path :: string
  req_headers :: "string list"
  req_body :: "string option"

record http_response =
  rsp_status :: int
  rsp_body :: string
  rsp_headers :: "(string \<times> string) list"

text \<open>The default member initialisers of \<open>HttpRequest\<close>.\<close>

definition default_request :: http_request where
  "default_request = \<lparr>req_method = ''GET'', req_path = ''/'', req_headers = [], req_body = None\<rparr>"

definition lower_ascii :: "string \<Rightarrow> string" where
  "lower_ascii value = map tolower value"

fun header_loop :: "string \<Rightarrow> (string \<times> string) list \<Rightarrow> string option" where
  "header_loop wanted [] = None"
| "header_loop wanted ((key, value) # headers) =
     (if lower_ascii key = wanted then Some value else header_loop wanted headers)"

definition header :: "http_response \<Rightarrow> string \<Rightarrow> string option" where
  "header r name = header_loop (lower_ascii name) (rsp_headers r)"

lemma lower_ascii_idem [simp]: "lower_ascii (lower_ascii s) = lower_ascii s"
  by (simp add: lower_ascii_def)

lemma lower_ascii_simps [simp]:
  "lower_ascii [] = []" "lower_ascii (c # s) = tolower c # lower_ascii s"
  "lower_ascii (s @ t) = lower_ascii s @ lower_ascii t" "length (lower_ascii s) = length s"
  by (simp_all add: lower_ascii_def)

lemma header_loop_conv: "header_loop w hs = map_of (map (\<lambda>(k, v). (lower_ascii k, v)) hs) w"
  by (induction w hs rule: header_loop.induct) auto

section \<open>The URL component codec\<close>

definition hex_value :: "char \<Rightarrow> int" where
  "hex_value c =
     (if 48 \<le> byte_of c \<and> byte_of c \<le> 57 then int (byte_of c) - 48
      else if 97 \<le> byte_of c \<and> byte_of c \<le> 102 then int (byte_of c) - 97 + 10
      else if 65 \<le> byte_of c \<and> byte_of c \<le> 70 then int (byte_of c) - 65 + 10
      else -1)"

definition unreserved :: "char \<Rightarrow> bool" where
  "unreserved c \<longleftrightarrow> isalnum c \<or> c = CHR ''-'' \<or> c = CHR ''_'' \<or> c = CHR ''.'' \<or> c = CHR ''~''"

fun url_encode_component :: "string \<Rightarrow> string" where
  "url_encode_component [] = []"
| "url_encode_component (c # input) =
     (if unreserved c then [c]
      else [CHR ''%'', hex_upper (byte_of c div 16), hex_upper (byte_of c mod 16)])
     @ url_encode_component input"

text \<open>
  The index loop of \<open>url_decode_component\<close>; \<open>input\<close> is what is left from index \<open>i\<close> on, so the
  test \<open>i + 2 >= input.size()\<close> is that fewer than two characters follow the percent sign.
\<close>

fun url_decode_loop :: "bool \<Rightarrow> string \<Rightarrow> string \<Rightarrow> string Result" where
  "url_decode_loop plus_as_space out [] = Inr out"
| "url_decode_loop plus_as_space out (c # input) =
     (if c = CHR ''+'' \<and> plus_as_space then url_decode_loop plus_as_space (out @ '' '') input
      else if c \<noteq> CHR ''%'' then url_decode_loop plus_as_space (out @ [c]) input
      else case input of
             h # l # rest \<Rightarrow>
               (let hi = hex_value h; lo = hex_value l
                in if hi < 0 \<or> lo < 0
                   then Inl (err Invalid_argument ''invalid percent escape in URL component'')
                   else url_decode_loop plus_as_space
                          (out @ [char_of (nat (push_bit 4 hi OR lo))]) rest)
           | _ \<Rightarrow> Inl (err Invalid_argument ''incomplete percent escape in URL component''))"

definition url_decode_component :: "string \<Rightarrow> bool \<Rightarrow> string Result" where
  "url_decode_component input plus_as_space = url_decode_loop plus_as_space [] input"

subsection \<open>Lemmas\<close>

lemma hex_upper_props:
  assumes "d < 16"
  shows "hex_value (hex_upper d) = int d" "hex_upper d \<noteq> CHR ''%''" "hex_upper d \<noteq> CHR ''/''"
    "isalnum (hex_upper d)"
proof -
  have "d \<in> {0..<16}" using assms by simp
  then have *: "d \<in> {0,1,2,3,4,5,6,7,8,9,10,11,12,13,14,15}"
    by (simp add: atLeast0_lessThan_Suc eval_nat_numeral) auto
  show "hex_value (hex_upper d) = int d"
    using * by (auto simp: hex_upper_def hex_value_def)
  show "isalnum (hex_upper d)"
    using * by (auto simp: hex_upper_def ctype_defs)
  then show "hex_upper d \<noteq> CHR ''%''" "hex_upper d \<noteq> CHR ''/''"
    by (auto simp: ctype_defs)
qed

lemma shift_or_byte:
  assumes "n < 256"
  shows "nat (push_bit 4 (int (n div 16)) OR int (n mod 16)) = n"
proof -
  have "push_bit 4 (int (n div 16)) OR int (n mod 16) = int n"
  proof (rule bit_eqI)
    fix i :: nat
    have "int (n div 16) = drop_bit 4 (int n)" "int (n mod 16) = take_bit 4 (int n)"
      by (simp_all add: drop_bit_eq_div take_bit_eq_mod zdiv_int zmod_int)
    then show "bit (push_bit 4 (int (n div 16)) OR int (n mod 16)) i = bit (int n) i"
      by (auto simp: bit_or_iff bit_push_bit_iff bit_drop_bit_eq bit_take_bit_iff)
  qed
  then show ?thesis by simp
qed

lemma unreserved_not_special: "unreserved c \<Longrightarrow> c \<noteq> CHR ''%'' \<and> c \<noteq> CHR ''+''"
  by (auto simp: unreserved_def ctype_defs)

text \<open>Decoding one escape that the encoder made.\<close>

lemma decode_escape:
  "url_decode_loop p out (CHR ''%'' # hex_upper (byte_of c div 16) # hex_upper (byte_of c mod 16) # s)
     = url_decode_loop p (out @ [c]) s"
proof -
  have "byte_of c div 16 < 16" "byte_of c mod 16 < 16"
    using byte_of_less [of c] by (auto simp del: byte_of_less)
  then show ?thesis
    using shift_or_byte [OF byte_of_less [of c]] by (simp add: hex_upper_props)
qed

lemma decode_encode_loop: "url_decode_loop p out (url_encode_component s @ t) = url_decode_loop p (out @ s) t"
proof (induction s arbitrary: out)
  case (Cons c s)
  then show ?case
    using decode_escape [of p out c "url_encode_component s @ t"]
    by (cases "unreserved c") (simp_all add: unreserved_not_special del: url_decode_loop.simps(2),
        simp add: unreserved_not_special)
qed simp

text \<open>What the encoder writes: unreserved characters and the percent sign.\<close>

lemma url_encode_chars: "c \<in> set (url_encode_component s) \<Longrightarrow> unreserved c \<or> c = CHR ''%''"
proof (induction s)
  case (Cons d s)
  have "byte_of d div 16 < 16" "byte_of d mod 16 < 16"
    using byte_of_less [of d] by (auto simp del: byte_of_less)
  with Cons show ?case
    by (auto simp: hex_upper_props unreserved_def split: if_splits)
qed simp

section \<open>Properties\<close>

text \<open>
  \<open>url_decode_component\<close> undoes \<open>url_encode_component\<close> on every byte string, whether or not
  plus signs are read as spaces: nothing a caller encodes is lost or changed.
\<close>

theorem url_decode_encode: "url_decode_component (url_encode_component s) plus_as_space = Inr s"
  using decode_encode_loop [of plus_as_space "[]" s "[]"] by (simp add: url_decode_component_def)

end
