(* ===== verification/Posix.thy ===== *)
theory Posix
  imports Path Http
begin

text \<open>
  The operating system as the code sees it, as an explicit world: a file system of inodes,
  the system calls the code makes on it, the user database, and what the other parties (the
  Podman service behind libcurl, the spawned \<open>systemctl\<close> processes) answer. The world also
  holds what is undetermined from the program's side, as a finite schedule of events: each
  system call takes the next event, which may first let other processes change the file
  system, may make the call fail with an error number, and may shorten a transfer. A call
  that finds no event left runs undisturbed. Theorems quantify over all schedules.

  Nothing here models code of the repository; these are the POSIX and C++ library calls its
  sources use. Permission bits are recorded, but not checked, since the program runs as
  root; a permission error is one of the failures a schedule can inject. Only the errors
  \<open>ENOENT\<close> and \<open>EEXIST\<close>, which the code reads as statements about the file system, cannot be
  injected: they are returned when they are true. A file descriptor is the inode it refers
  to; file offsets are passed along by the loops that advance them.
\<close>

unbundle bit_operations_syntax

section \<open>Error numbers\<close>

type_synonym errno = int

definition ENOENT :: errno where "ENOENT = 2"
definition EINTR :: errno where "EINTR = 4"
definition ENXIO :: errno where "ENXIO = 6"
definition EEXIST :: errno where "EEXIST = 17"
definition ENOTDIR :: errno where "ENOTDIR = 20"
definition EISDIR :: errno where "EISDIR = 21"
definition EINVAL :: errno where "EINVAL = 22"
definition ENAMETOOLONG :: errno where "ENAMETOOLONG = 36"
definition ELOOP :: errno where "ELOOP = 40"

lemmas errno_defs = ENOENT_def EINTR_def ENXIO_def EEXIST_def ENOTDIR_def EISDIR_def EINVAL_def
  ENAMETOOLONG_def ELOOP_def

section \<open>The file system\<close>

type_synonym ino = nat
type_synonym u32 = "32 word"

text \<open>The octal permission constants of the code.\<close>

abbreviation mode_0777 :: u32 where "mode_0777 \<equiv> 0x1FF"
abbreviation mode_0755 :: u32 where "mode_0755 \<equiv> 0x1ED"
abbreviation mode_0644 :: u32 where "mode_0644 \<equiv> 0x1A4"
abbreviation mode_0022 :: u32 where "mode_0022 \<equiv> 0x12"

datatype node = Reg string | Dir "string \<Rightarrow> ino option" | Lnk string | Sock | Fifo

record inode =
  i_node :: node
  i_mode :: u32
  i_uid :: u32
  i_gid :: u32

record fs =
  inodes :: "ino \<Rightarrow> inode option"
  next_ino :: ino

definition dir_entries :: "fs \<Rightarrow> ino \<Rightarrow> (string \<Rightarrow> ino option) option" where
  "dir_entries fs d =
     (case inodes fs d of None \<Rightarrow> None
      | Some nd \<Rightarrow> (case i_node nd of Dir es \<Rightarrow> Some es | _ \<Rightarrow> None))"

definition is_dir :: "fs \<Rightarrow> ino \<Rightarrow> bool" where
  "is_dir fs d \<longleftrightarrow> dir_entries fs d \<noteq> None"

definition entry :: "fs \<Rightarrow> ino \<Rightarrow> string \<Rightarrow> ino option" where
  "entry fs d n = (case dir_entries fs d of None \<Rightarrow> None | Some es \<Rightarrow> es n)"

text \<open>Inode numbers from \<open>next_ino\<close> on are free, and no directory names them.\<close>

definition fs_wf :: "fs \<Rightarrow> bool" where
  "fs_wf fs \<longleftrightarrow> (\<forall>i \<ge> next_ino fs. inodes fs i = None)
     \<and> (\<forall>d n i. entry fs d n = Some i \<longrightarrow> i < next_ino fs)"

definition put_inode :: "ino \<Rightarrow> inode \<Rightarrow> fs \<Rightarrow> fs" where
  "put_inode i nd fs = fs\<lparr>inodes := (inodes fs)(i := Some nd)\<rparr>"

text \<open>Changing one entry of a directory.\<close>

definition put_entry :: "ino \<Rightarrow> string \<Rightarrow> ino option \<Rightarrow> fs \<Rightarrow> fs" where
  "put_entry d n target fs =
     (case inodes fs d of None \<Rightarrow> fs
      | Some nd \<Rightarrow> (case i_node nd of
            Dir es \<Rightarrow> put_inode d (nd\<lparr>i_node := Dir (es(n := target))\<rparr>) fs
          | _ \<Rightarrow> fs))"

section \<open>The world\<close>

record event =
  ev_fault :: "errno option"
  ev_count :: "nat option"
  ev_env :: "fs \<Rightarrow> fs"

record passwd =
  pw_uid :: u32
  pw_name :: string

text \<open>
  One transfer of libcurl: whether a handle could be made, the reads it asks the upload
  callback for (\<open>size\<close> and \<open>nitems\<close>), the \<open>CURLcode\<close> it ends with, and the status, header lines
  and pieces of the body it received. \<open>hr_perform_first\<close> is no choice of libcurl but of the
  compiler: the transfer and a move of the response are arguments of one call, and C++ does
  not say which of them is evaluated first.
\<close>

record http_reply =
  hr_init :: bool
  hr_perform_first :: bool
  hr_reads :: "(64 word \<times> 64 word) list"
  hr_code :: int
  hr_status :: int
  hr_headers :: "string list"
  hr_body :: "string list"

text \<open>What one spawned process does.\<close>

record proc_reply =
  pr_spawn_rc :: errno
  pr_pipe :: "errno option"
  pr_reads :: "(errno + string) list"
  pr_waits :: "errno list"
  pr_status :: int

text \<open>What the program did, as far as the order of its effects is of interest.\<close>

datatype log_entry =
    Log_lock ino
  | Log_unlock ino
  | Log_fsync ino
  | Log_rename ino string string
  | Log_http path string http_request
  | Log_upload path string ino string
  | Log_spawn "string list"
  | Log_wait

record world =
  w_fs :: fs
  w_root :: ino
  w_cwd :: ino
  w_euid :: u32
  w_egid :: u32
  w_umask :: u32
  w_pid :: nat
  w_sched :: "event list"
  w_strerror :: "errno \<Rightarrow> string"
  w_getpwuid :: "u32 \<Rightarrow> errno \<times> passwd option"
  w_getpwnam :: "string \<Rightarrow> errno \<times> passwd option"
  w_http :: "http_reply list"
  w_curl_strerror :: "int \<Rightarrow> string"
  w_procs :: "proc_reply list"
  w_log :: "log_entry list"

section \<open>Effects\<close>

text \<open>
  A piece of code with effects is a function from the world before to its result and the
  world after; \<open>'e\<close> is the type of its errors (an error number for a system call, an
  \<open>error\<close> for the code of the repository).
\<close>

type_synonym ('e, 'a) io = "world \<Rightarrow> ('e + 'a) \<times> world"

definition return_io :: "'a \<Rightarrow> ('e, 'a) io" where
  "return_io x = (\<lambda>w. (Inr x, w))"

definition fail_io :: "'e \<Rightarrow> ('e, 'a) io" where
  "fail_io e = (\<lambda>w. (Inl e, w))"

definition bind_io :: "('e, 'a) io \<Rightarrow> ('a \<Rightarrow> ('e, 'b) io) \<Rightarrow> ('e, 'b) io" where
  "bind_io m f = (\<lambda>w. case m w of (Inl e, w') \<Rightarrow> (Inl e, w') | (Inr x, w') \<Rightarrow> f x w')"

text \<open>Going on after an error, with another kind of error.\<close>

definition catch_io :: "('e, 'a) io \<Rightarrow> ('e \<Rightarrow> ('f, 'a) io) \<Rightarrow> ('f, 'a) io" where
  "catch_io m h = (\<lambda>w. case m w of (Inl e, w') \<Rightarrow> h e w' | (Inr x, w') \<Rightarrow> (Inr x, w'))"

text \<open>Going on either way.\<close>

definition either_io :: "('e, 'a) io \<Rightarrow> ('e \<Rightarrow> ('f, 'b) io) \<Rightarrow> ('a \<Rightarrow> ('f, 'b) io) \<Rightarrow> ('f, 'b) io" where
  "either_io m h f = (\<lambda>w. case m w of (Inl e, w') \<Rightarrow> h e w' | (Inr x, w') \<Rightarrow> f x w')"

definition lift_io :: "'e + 'a \<Rightarrow> ('e, 'a) io" where
  "lift_io r = (\<lambda>w. (r, w))"

definition get_io :: "(world \<Rightarrow> 'a) \<Rightarrow> ('e, 'a) io" where
  "get_io f = (\<lambda>w. (Inr (f w), w))"

definition log_io :: "log_entry \<Rightarrow> ('e, unit) io" where
  "log_io l = (\<lambda>w. (Inr (), w\<lparr>w_log := w_log w @ [l]\<rparr>))"

text \<open>\<open>make_error(kind, message + strerror(errno), 0, errno)\<close>, the usual report of a failed call.\<close>

definition os_error :: "error_kind \<Rightarrow> string \<Rightarrow> errno \<Rightarrow> (error, 'a) io" where
  "os_error k msg e = (\<lambda>w. (Inl (make_error k (msg @ w_strerror w e) 0 e 0), w))"

text \<open>\<open>m\<close> with its error number turned into an error that starts with \<open>msg\<close>.\<close>

definition or_os_error :: "(errno, 'a) io \<Rightarrow> error_kind \<Rightarrow> string \<Rightarrow> (error, 'a) io" where
  "or_os_error m k msg = catch_io m (os_error k msg)"

section \<open>System calls\<close>

definition quiet_event :: event where
  "quiet_event = \<lparr>ev_fault = None, ev_count = None, ev_env = (\<lambda>fs. fs)\<rparr>"

definition next_event :: "world \<Rightarrow> event \<times> world" where
  "next_event w =
     (case w_sched w of
        [] \<Rightarrow> (quiet_event, w)
      | e # es \<Rightarrow> (e, w\<lparr>w_sched := es, w_fs := ev_env e (w_fs w)\<rparr>))"

definition fault_of :: "event \<Rightarrow> errno option" where
  "fault_of e =
     (case ev_fault e of
        None \<Rightarrow> None
      | Some n \<Rightarrow> if n = ENOENT \<or> n = EEXIST then None else Some n)"

definition syscall :: "(event \<Rightarrow> (errno, 'a) io) \<Rightarrow> (errno, 'a) io" where
  "syscall body = (\<lambda>w. let (e, w') = next_event w in
     case fault_of e of Some n \<Rightarrow> (Inl n, w') | None \<Rightarrow> body e w')"

subsection \<open>Path resolution\<close>

definition c_str :: "string \<Rightarrow> string" where
  "c_str s = takeWhile (\<lambda>c. c \<noteq> CHR 0x00) s"

text \<open>
  Walking names from a directory: symbolic links are followed in the middle of a path, and at
  its end if \<open>follow\<close> says so; \<open>links\<close> bounds their number. The entries of a directory include
  \<open>.\<close> and \<open>..\<close>.
\<close>

fun walk :: "nat \<Rightarrow> fs \<Rightarrow> ino \<Rightarrow> ino \<Rightarrow> string list \<Rightarrow> bool \<Rightarrow> errno + ino" where
  "walk links fs root cur [] follow = Inr cur"
| "walk links fs root cur (n # ns) follow =
     (case dir_entries fs cur of
        None \<Rightarrow> Inl (if inodes fs cur = None then ENOENT else ENOTDIR)
      | Some es \<Rightarrow>
          if length n > 255 then Inl ENAMETOOLONG
          else (case es n of
             None \<Rightarrow> Inl ENOENT
           | Some i \<Rightarrow>
               (case inodes fs i of
                  None \<Rightarrow> Inl ENOENT
                | Some nd \<Rightarrow>
                    (case i_node nd of
                       Lnk target \<Rightarrow>
                         if ns = [] \<and> \<not> follow then Inr i
                         else (case links of
                                 0 \<Rightarrow> Inl ELOOP
                               | Suc k \<Rightarrow> walk k fs root (if is_absolute target then root else cur)
                                           (path_names target @ ns) follow)
                     | _ \<Rightarrow> walk links fs root i ns follow))))"

definition resolve :: "world \<Rightarrow> ino \<Rightarrow> path \<Rightarrow> bool \<Rightarrow> errno + ino" where
  "resolve w base path follow =
     (let p = c_str path in
      if p = [] then Inl ENOENT
      else walk 40 (w_fs w) (w_root w) (if is_absolute p then w_root w else base) (path_names p)
             (follow \<or> last p = CHR ''/''))"

subsection \<open>Opening files\<close>

record open_flags =
  o_directory :: bool
  o_creat :: bool
  o_excl :: bool
  o_nofollow :: bool

definition open_existing :: "open_flags \<Rightarrow> fs \<Rightarrow> ino \<Rightarrow> errno + ino" where
  "open_existing flags fs i =
     (case inodes fs i of
        None \<Rightarrow> Inl ENOENT
      | Some nd \<Rightarrow>
          (case i_node nd of
             Lnk _ \<Rightarrow> Inl (if o_directory flags then ENOTDIR else ELOOP)
           | Sock \<Rightarrow> Inl (if o_directory flags then ENOTDIR else ENXIO)
           | Dir _ \<Rightarrow> if o_creat flags then Inl EISDIR else Inr i
           | _ \<Rightarrow> if o_directory flags then Inl ENOTDIR else Inr i))"

definition create_file :: "ino \<Rightarrow> string \<Rightarrow> node \<Rightarrow> u32 \<Rightarrow> (errno, ino) io" where
  "create_file d n nd mode = (\<lambda>w.
     let i = next_ino (w_fs w);
         new = \<lparr>i_node = nd, i_mode = mode AND NOT (w_umask w), i_uid = w_euid w, i_gid = w_egid w\<rparr>;
         fs = put_entry d n (Some i) (put_inode i new (w_fs w))
     in (Inr i, w\<lparr>w_fs := fs\<lparr>next_ino := Suc i\<rparr>\<rparr>))"

definition sys_openat :: "open_flags \<Rightarrow> ino \<Rightarrow> path \<Rightarrow> u32 \<Rightarrow> (errno, ino) io" where
  "sys_openat flags base path mode = syscall (\<lambda>e w.
     let fs = w_fs w; p = c_str path; ns = path_names p in
     if \<not> o_creat flags then
       (case resolve w base path (\<not> o_nofollow flags) of
          Inl n \<Rightarrow> (Inl n, w)
        | Inr i \<Rightarrow> (open_existing flags fs i, w))
     else if ns = [] then (Inl EISDIR, w)
     else
       (case walk 40 fs (w_root w) (if is_absolute p then w_root w else base) (butlast ns) True of
          Inl n \<Rightarrow> (Inl n, w)
        | Inr d \<Rightarrow>
            (case dir_entries fs d of
               None \<Rightarrow> (Inl ENOTDIR, w)
             | Some es \<Rightarrow>
                 if length (last ns) > 255 then (Inl ENAMETOOLONG, w)
                 else (case es (last ns) of
                    Some i \<Rightarrow> if o_excl flags then (Inl EEXIST, w) else (open_existing flags fs i, w)
                  | None \<Rightarrow> create_file d (last ns) (Reg []) mode w))))"

subsection \<open>Status\<close>

datatype file_type = S_IFREG | S_IFDIR | S_IFLNK | S_IFSOCK | S_IFIFO

record stat =
  st_type :: file_type
  st_perm :: u32
  st_uid :: u32
  st_gid :: u32
  st_size :: int

definition stat_of :: "inode \<Rightarrow> stat" where
  "stat_of nd =
     \<lparr>st_type = (case i_node nd of Reg _ \<Rightarrow> S_IFREG | Dir _ \<Rightarrow> S_IFDIR | Lnk _ \<Rightarrow> S_IFLNK
                  | Sock \<Rightarrow> S_IFSOCK | Fifo \<Rightarrow> S_IFIFO),
      st_perm = i_mode nd, st_uid = i_uid nd, st_gid = i_gid nd,
      st_size = (case i_node nd of Reg s \<Rightarrow> int (length s) | _ \<Rightarrow> 0)\<rparr>"

definition stat_inode :: "fs \<Rightarrow> ino \<Rightarrow> errno + stat" where
  "stat_inode fs i = (case inodes fs i of None \<Rightarrow> Inl ENOENT | Some nd \<Rightarrow> Inr (stat_of nd))"

definition sys_stat :: "ino \<Rightarrow> path \<Rightarrow> bool \<Rightarrow> (errno, stat) io" where
  "sys_stat base path follow = syscall (\<lambda>e w.
     (case resolve w base path follow of Inl n \<Rightarrow> Inl n | Inr i \<Rightarrow> stat_inode (w_fs w) i, w))"

definition sys_fstat :: "ino \<Rightarrow> (errno, stat) io" where
  "sys_fstat i = syscall (\<lambda>e w. (stat_inode (w_fs w) i, w))"

subsection \<open>Transfers\<close>

definition transfer :: "event \<Rightarrow> nat \<Rightarrow> nat" where
  "transfer e n = (case ev_count e of None \<Rightarrow> n | Some k \<Rightarrow> min k n)"

definition overwrite :: "nat \<Rightarrow> string \<Rightarrow> string \<Rightarrow> string" where
  "overwrite off bytes s =
     take off (s @ replicate (off - length s) (CHR 0x00)) @ bytes @ drop (off + length bytes) s"

definition sys_write :: "ino \<Rightarrow> nat \<Rightarrow> string \<Rightarrow> (errno, nat) io" where
  "sys_write i off bytes = syscall (\<lambda>e w.
     case inodes (w_fs w) i of
       None \<Rightarrow> (Inl ENOENT, w)
     | Some nd \<Rightarrow>
         (case i_node nd of
            Reg s \<Rightarrow>
              (let n = transfer e (length bytes)
               in (Inr n, w\<lparr>w_fs := put_inode i (nd\<lparr>i_node := Reg (overwrite off (take n bytes) s)\<rparr>) (w_fs w)\<rparr>))
          | _ \<Rightarrow> (Inl EINVAL, w)))"

text \<open>A read transfers at least one byte unless it is at the end of the file.\<close>

definition sys_read :: "ino \<Rightarrow> nat \<Rightarrow> nat \<Rightarrow> (errno, string) io" where
  "sys_read i off count = syscall (\<lambda>e w.
     case inodes (w_fs w) i of
       None \<Rightarrow> (Inl ENOENT, w)
     | Some nd \<Rightarrow>
         (case i_node nd of
            Reg s \<Rightarrow> (Inr (take (max 1 (transfer e count)) (take count (drop off s))), w)
          | Dir _ \<Rightarrow> (Inl EISDIR, w)
          | _ \<Rightarrow> (Inl EINVAL, w)))"

definition sys_fsync :: "ino \<Rightarrow> (errno, unit) io" where
  "sys_fsync i = syscall (\<lambda>e. log_io (Log_fsync i))"

subsection \<open>Directories and names\<close>

definition sys_renameat :: "ino \<Rightarrow> string \<Rightarrow> string \<Rightarrow> (errno, unit) io" where
  "sys_renameat d old new = syscall (\<lambda>e w.
     if length new > 255 then (Inl ENAMETOOLONG, w)
     else case entry (w_fs w) d old of
       None \<Rightarrow> (Inl ENOENT, w)
     | Some i \<Rightarrow>
         if (case entry (w_fs w) d new of None \<Rightarrow> False | Some j \<Rightarrow> is_dir (w_fs w) j)
            \<and> \<not> is_dir (w_fs w) i then (Inl EISDIR, w)
         else (Inr (), w\<lparr>w_fs := put_entry d new (Some i) (put_entry d old None (w_fs w)),
                         w_log := w_log w @ [Log_rename d old new]\<rparr>))"

definition sys_unlinkat :: "ino \<Rightarrow> string \<Rightarrow> (errno, unit) io" where
  "sys_unlinkat d n = syscall (\<lambda>e w.
     case entry (w_fs w) d n of
       None \<Rightarrow> (Inl ENOENT, w)
     | Some i \<Rightarrow>
         if is_dir (w_fs w) i then (Inl EISDIR, w)
         else (Inr (), w\<lparr>w_fs := put_entry d n None (w_fs w)\<rparr>))"

definition sys_mkdirat :: "ino \<Rightarrow> path \<Rightarrow> u32 \<Rightarrow> (errno, unit) io" where
  "sys_mkdirat base path mode = syscall (\<lambda>e w.
     let fs = w_fs w; p = c_str path; ns = path_names p in
     if ns = [] then (Inl EEXIST, w)
     else
       (case walk 40 fs (w_root w) (if is_absolute p then w_root w else base) (butlast ns) True of
          Inl n \<Rightarrow> (Inl n, w)
        | Inr d \<Rightarrow>
            (case dir_entries fs d of
               None \<Rightarrow> (Inl ENOTDIR, w)
             | Some es \<Rightarrow>
                 if length (last ns) > 255 then (Inl ENAMETOOLONG, w)
                 else if es (last ns) \<noteq> None then (Inl EEXIST, w)
                 else
                   (case create_file d (last ns)
                           (Dir [''.'' \<mapsto> next_ino fs, ''..'' \<mapsto> d]) mode w of
                      (Inl n, w') \<Rightarrow> (Inl n, w') | (Inr i, w') \<Rightarrow> (Inr (), w')))))"

definition chmod_inode :: "ino \<Rightarrow> u32 \<Rightarrow> fs \<Rightarrow> fs" where
  "chmod_inode i mode fs =
     (case inodes fs i of None \<Rightarrow> fs | Some nd \<Rightarrow> put_inode i (nd\<lparr>i_mode := mode\<rparr>) fs)"

definition sys_chmodat :: "ino \<Rightarrow> path \<Rightarrow> u32 \<Rightarrow> (errno, unit) io" where
  "sys_chmodat base path mode = syscall (\<lambda>e w.
     case resolve w base path True of
       Inl n \<Rightarrow> (Inl n, w)
     | Inr i \<Rightarrow> (Inr (), w\<lparr>w_fs := chmod_inode i mode (w_fs w)\<rparr>))"

definition sys_fchmod :: "ino \<Rightarrow> u32 \<Rightarrow> (errno, unit) io" where
  "sys_fchmod i mode = syscall (\<lambda>e w. (Inr (), w\<lparr>w_fs := chmod_inode i mode (w_fs w)\<rparr>))"

text \<open>\<open>flock(fd, LOCK_EX)\<close> returns when the lock is held; closing the descriptor releases it.\<close>

definition sys_flock :: "ino \<Rightarrow> (errno, unit) io" where
  "sys_flock i = syscall (\<lambda>e. log_io (Log_lock i))"

definition release_lock :: "ino \<Rightarrow> ('e, unit) io" where
  "release_lock i = log_io (Log_unlock i)"

subsection \<open>Calls relative to the working directory\<close>

definition sys_open :: "open_flags \<Rightarrow> path \<Rightarrow> u32 \<Rightarrow> (errno, ino) io" where
  "sys_open flags p mode = bind_io (get_io w_cwd) (\<lambda>cwd. sys_openat flags cwd p mode)"

definition sys_lstat :: "path \<Rightarrow> (errno, stat) io" where
  "sys_lstat p = bind_io (get_io w_cwd) (\<lambda>cwd. sys_stat cwd p False)"

definition sys_chmod :: "path \<Rightarrow> u32 \<Rightarrow> (errno, unit) io" where
  "sys_chmod p mode = bind_io (get_io w_cwd) (\<lambda>cwd. sys_chmodat cwd p mode)"

subsection \<open>Progress of transfers\<close>

text \<open>Each call uses up an event, or there was none left and it ran undisturbed.\<close>

lemma syscall_sched:
  assumes "syscall body w = (r, w')" "\<And>e v. w_sched (snd (body e v)) = w_sched v"
  shows "length (w_sched w') < length (w_sched w)
    \<or> w_sched w = [] \<and> w_sched w' = [] \<and> (r, w') = body quiet_event w"
proof (cases "w_sched w")
  case Nil
  with assms(1) have "(r, w') = body quiet_event w"
    by (simp add: syscall_def next_event_def fault_of_def quiet_event_def)
  with Nil show ?thesis using assms(2) [of quiet_event w] by (cases "body quiet_event w") simp
next
  case (Cons e es)
  let ?w = "w\<lparr>w_sched := es, w_fs := ev_env e (w_fs w)\<rparr>"
  have "w_sched w' = es"
    using assms(1) assms(2) [of e ?w] Cons
    by (cases "body e ?w") (auto simp: syscall_def next_event_def split: option.splits)
  with Cons show ?thesis by simp
qed

lemma sys_write_progress:
  assumes "sys_write i off bytes w = (r, w')"
  shows "length (w_sched w') < length (w_sched w)
    \<or> w_sched w = [] \<and> w_sched w' = [] \<and> r \<in> {Inr (length bytes), Inl ENOENT, Inl EINVAL}"
  using syscall_sched [OF assms [unfolded sys_write_def]]
  by (fastforce simp: Let_def transfer_def quiet_event_def split: option.splits node.splits)

lemma sys_read_progress:
  assumes "sys_read i off count w = (r, w')"
  shows "length (w_sched w') < length (w_sched w)
    \<or> w_sched w = [] \<and> w_sched w' = [] \<and> (r \<in> {Inl ENOENT, Inl EISDIR, Inl EINVAL} \<or> (\<exists>s. r = Inr s))"
  using syscall_sched [OF assms [unfolded sys_read_def]]
  by (fastforce simp: split: option.splits node.splits)

subsection \<open>\<open>std::filesystem::create_directories\<close>\<close>

text \<open>Every prefix of the path is a directory already or is made, from the root down.\<close>

fun create_prefixes :: "ino \<Rightarrow> path list \<Rightarrow> (errno, unit) io" where
  "create_prefixes base [] = return_io ()"
| "create_prefixes base (p # ps) =
     bind_io
       (catch_io
          (bind_io (sys_stat base p True) (\<lambda>st.
             if st_type st = S_IFDIR then return_io () else fail_io ENOTDIR))
          (\<lambda>e. if e = ENOENT then sys_mkdirat base p mode_0777 else fail_io e))
       (\<lambda>_. create_prefixes base ps)"

definition path_prefixes :: "path \<Rightarrow> path list" where
  "path_prefixes p =
     map (\<lambda>k. (if is_absolute p then ''/'' else []) @ join_names (take k (path_names p)))
       [1..<Suc (length (path_names p))]"

definition create_directories :: "path \<Rightarrow> (errno, unit) io" where
  "create_directories p =
     bind_io (get_io w_cwd) (\<lambda>cwd.
       if p = [] then fail_io EINVAL else create_prefixes cwd (path_prefixes p))"

end
