(* ===== verification/Quadlet_Install.thy ===== *)
theory Quadlet_Install
  imports Quadlet_Policy Posix
begin

text \<open>
  The installing half of \<open>src/quadlet.cpp\<close> and \<open>include/pod_installer/quadlet.hpp\<close>: the layout
  of the directories, their safety checks, writing a file atomically, reading and removing
  one, and the operations of \<open>QuadletInstaller\<close>. The layout and the policy an installer holds
  are arguments.
\<close>

section \<open>Data\<close>

record quadlet_install_layout =
  admin_user_root :: path
  required_owner_uid :: "u32 option"
  required_owner_gid :: "u32 option"
  max_quadlet_bytes :: nat

definition default_layout :: quadlet_install_layout where
  "default_layout =
     \<lparr>admin_user_root = ''/etc/containers/systemd/users'', required_owner_uid = Some 0,
      required_owner_gid = None, max_quadlet_bytes = 1024 * 1024\<rparr>"

record installed_quadlet =
  iq_path :: path
  iq_systemd_unit :: string

record quadlet_snapshot =
  qs_path :: path
  qs_file_name :: string
  qs_existed :: bool
  qs_contents :: string

definition user_directory :: "quadlet_install_layout \<Rightarrow> u32 \<Rightarrow> path" where
  "user_directory layout uid = path_append (admin_user_root layout) (show_nat (unat uid))"

definition quadlet_path :: "quadlet_install_layout \<Rightarrow> u32 \<Rightarrow> string \<Rightarrow> path" where
  "quadlet_path layout uid file_name = path_append (user_directory layout uid) file_name"

section \<open>Directories\<close>

text \<open>The checks on the owner, after the first \<open>lstat\<close>.\<close>

definition check_owner :: "quadlet_install_layout \<Rightarrow> stat \<Rightarrow> unit Result" where
  "check_owner layout st =
     bind_result
       (case required_owner_uid layout of
          None \<Rightarrow> Inr ()
        | Some uid \<Rightarrow> guard (st_uid st = uid) (err Filesystem
            (''Quadlet directory owner uid '' @ show_nat (unat (st_uid st)) @
             '' does not match required uid '' @ show_nat (unat uid))))
       (\<lambda>_. case required_owner_gid layout of
          None \<Rightarrow> Inr ()
        | Some gid \<Rightarrow> guard (st_gid st = gid) (err Filesystem
            (''Quadlet directory owner gid '' @ show_nat (unat (st_gid st)) @
             '' does not match required gid '' @ show_nat (unat gid))))"

text \<open>The part after \<open>create_directories\<close>.\<close>

definition secure_directory :: "path \<Rightarrow> quadlet_install_layout \<Rightarrow> (error, unit) io" where
  "secure_directory dir layout =
     bind_io
       (or_os_error (sys_lstat dir) Filesystem
          (''failed to stat Quadlet directory '' @ quote dir @ '': ''))
     (\<lambda>st. bind_io
       (lift_io (guard (st_type st = S_IFDIR)
          (err Filesystem (''Quadlet directory is not a real directory: '' @ dir))))
     (\<lambda>_. bind_io (lift_io (check_owner layout st))
     (\<lambda>_. bind_io
       (or_os_error (sys_chmod dir mode_0755) Filesystem
          (''failed to chmod Quadlet directory '' @ quote dir @ '': ''))
     (\<lambda>_. bind_io
       (or_os_error (sys_lstat dir) Filesystem
          (''failed to restat Quadlet directory '' @ quote dir @ '': ''))
     (\<lambda>st. lift_io (guard (st_perm st AND mode_0022 = 0)
          (err Filesystem (''Quadlet directory must not be group/other writable: '' @ dir))))))))"

definition ensure_directory_safe :: "path \<Rightarrow> quadlet_install_layout \<Rightarrow> (error, unit) io" where
  "ensure_directory_safe dir layout =
     bind_io
       (catch_io (create_directories dir)
          (\<lambda>e. bind_io (get_io w_strerror) (\<lambda>strerror. fail_io (err Filesystem
             (''failed to create Quadlet directory '' @ quote dir @ '': '' @ strerror e)))))
     (\<lambda>_. secure_directory dir layout)"

definition ensure_admin_tree :: "u32 \<Rightarrow> quadlet_install_layout \<Rightarrow> (error, unit) io" where
  "ensure_admin_tree uid layout =
     bind_io (ensure_directory_safe (admin_user_root layout) layout) (\<lambda>_.
       ensure_directory_safe (user_directory layout uid) layout)"

section \<open>Writing\<close>

text \<open>The loop ends since each interrupted or short call uses up an event of the schedule.\<close>

function write_all :: "ino \<Rightarrow> nat \<Rightarrow> string \<Rightarrow> (error, unit) io" where
  "write_all fd off contents w =
     (if contents = [] then (Inr (), w)
      else case sys_write fd off contents w of
             (Inl e, w') \<Rightarrow>
               if e = EINTR then write_all fd off contents w'
               else os_error Filesystem ''failed to write Quadlet file: '' e w'
           | (Inr written, w') \<Rightarrow> write_all fd (off + written) (drop written contents) w')"
  by pat_completeness auto
termination
  by (relation "measures [\<lambda>(fd, off, contents, w). length (w_sched w),
        \<lambda>(fd, off, contents, w). length contents]")
    (force simp: errno_defs dest!: sys_write_progress [OF sym])+

declare write_all.simps [simp del]

definition fsync_directory :: "ino \<Rightarrow> (error, unit) io" where
  "fsync_directory dir_fd =
     or_os_error (sys_fsync dir_fd) Filesystem ''failed to fsync Quadlet directory: ''"

text \<open>
  \<open>if (call(...) != 0) { unlinkat(dir_fd, tmp_name, 0); return ... errno ...; }\<close>: the error
  number reported is the one of \<open>unlinkat\<close> when that fails too.
\<close>

definition unlink_on_error :: "ino \<Rightarrow> string \<Rightarrow> (errno, 'a) io \<Rightarrow> (errno, 'a) io" where
  "unlink_on_error dir_fd tmp_name m =
     catch_io m (\<lambda>e. bind_io (sys_unlinkat dir_fd tmp_name) (\<lambda>_. fail_io e))"

text \<open>The same around \<open>write_all\<close>, whose error is complete already.\<close>

definition unlink_on_failure :: "ino \<Rightarrow> string \<Rightarrow> (error, 'a) io \<Rightarrow> (error, 'a) io" where
  "unlink_on_failure dir_fd tmp_name m =
     catch_io m (\<lambda>err.
       bind_io (catch_io (sys_unlinkat dir_fd tmp_name) (\<lambda>_. return_io ())) (\<lambda>_. fail_io err))"

definition temp_name :: "string \<Rightarrow> nat \<Rightarrow> nat \<Rightarrow> string" where
  "temp_name final_name pid attempt =
     ''.'' @ final_name @ ''.tmp.'' @ show_nat pid @ ''.'' @ show_nat attempt"

definition directory_flags :: open_flags where
  "directory_flags = \<lparr>o_directory = True, o_creat = False, o_excl = False, o_nofollow = True\<rparr>"

definition create_flags :: open_flags where
  "create_flags = \<lparr>o_directory = False, o_creat = True, o_excl = True, o_nofollow = True\<rparr>"

definition read_flags :: open_flags where
  "read_flags = \<lparr>o_directory = False, o_creat = False, o_excl = False, o_nofollow = True\<rparr>"

text \<open>The attempts at a temporary file: the first candidate that does not exist yet.\<close>

fun open_temp :: "path \<Rightarrow> ino \<Rightarrow> u32 \<Rightarrow> string list \<Rightarrow> (error, string \<times> ino) io" where
  "open_temp dir dir_fd mode [] =
     fail_io (err Filesystem ''failed to allocate unique temporary Quadlet file name'')"
| "open_temp dir dir_fd mode (candidate # cs) =
     either_io (sys_openat create_flags dir_fd candidate mode)
       (\<lambda>e. if e \<noteq> EEXIST
            then os_error Filesystem
                   (''failed to open temporary Quadlet file in '' @ quote dir @ '': '') e
            else open_temp dir dir_fd mode cs)
       (\<lambda>fd. return_io (candidate, fd))"

definition atomic_write_file :: "path \<Rightarrow> string \<Rightarrow> u32 \<Rightarrow> (error, unit) io" where
  "atomic_write_file final_path contents mode =
     (let dir = parent_path final_path; final_name = filename final_path in
      bind_io
        (or_os_error (sys_open directory_flags dir 0) Filesystem
           (''failed to open Quadlet directory '' @ quote dir @ '': ''))
      (\<lambda>dir_fd. bind_io (get_io w_pid)
      (\<lambda>pid. bind_io
        (open_temp dir dir_fd mode (map (temp_name final_name pid) [0..<100]))
      (\<lambda>(tmp_name, fd). bind_io
        (unlink_on_failure dir_fd tmp_name (write_all fd 0 contents))
      (\<lambda>_. bind_io
        (or_os_error (unlink_on_error dir_fd tmp_name (sys_fsync fd)) Filesystem
           ''failed to fsync temporary Quadlet file: '')
      (\<lambda>_. bind_io
        (or_os_error (unlink_on_error dir_fd tmp_name (sys_renameat dir_fd tmp_name final_name))
           Filesystem (''failed to install Quadlet file '' @ quote final_path @ '': ''))
      (\<lambda>_. fsync_directory dir_fd)))))))"

section \<open>Reading and removing\<close>

function read_loop :: "path \<Rightarrow> ino \<Rightarrow> nat \<Rightarrow> string \<Rightarrow> (error, string) io" where
  "read_loop path fd bytes out w =
     (if \<not> length out < bytes then (Inr out, w)
      else case sys_read fd (length out) (bytes - length out) w of
             (Inl e, w') \<Rightarrow>
               if e = EINTR then read_loop path fd bytes out w'
               else os_error Filesystem (''failed to read Quadlet file '' @ quote path @ '': '') e w'
           | (Inr s, w') \<Rightarrow>
               if s = [] then fail_io (err Filesystem (''Quadlet file changed while reading: '' @ path)) w'
               else read_loop path fd bytes (out @ s) w')"
  by pat_completeness auto
termination
  by (relation "measures [\<lambda>(path, fd, bytes, out, w). length (w_sched w),
        \<lambda>(path, fd, bytes, out, w). bytes - length out]")
    (force simp: errno_defs neq_Nil_conv dest!: sys_read_progress [OF sym])+

declare read_loop.simps [simp del]

definition read_regular_file_no_symlink :: "path \<Rightarrow> nat \<Rightarrow> (error, string) io" where
  "read_regular_file_no_symlink path max_size =
     bind_io
       (or_os_error (sys_open read_flags path 0) Filesystem
          (''failed to open Quadlet file '' @ quote path @ '': ''))
     (\<lambda>fd. bind_io
       (or_os_error (sys_fstat fd) Filesystem
          (''failed to stat Quadlet file '' @ quote path @ '': ''))
     (\<lambda>st. bind_io
       (lift_io (guard (st_type st = S_IFREG)
          (err Filesystem (''Quadlet path is not a regular file: '' @ path))))
     (\<lambda>_. bind_io
       (lift_io (guard (\<not> (st_size st < 0 \<or> st_size st > int max_size))
          (err Filesystem (''Quadlet file is too large: '' @ path))))
     (\<lambda>_. read_loop path fd (nat (st_size st)) []))))"

definition unlink_quadlet_file :: "path \<Rightarrow> (error, unit) io" where
  "unlink_quadlet_file path =
     (let dir = parent_path path; file_name = filename path in
      bind_io
        (or_os_error (sys_open directory_flags dir 0) Filesystem
           ''failed to open Quadlet directory for remove: '')
      (\<lambda>dir_fd. bind_io
        (either_io (sys_unlinkat dir_fd file_name)
           (\<lambda>e. if e \<noteq> ENOENT
                then os_error Filesystem (''failed to remove Quadlet file '' @ quote path @ '': '') e
                else return_io ())
           return_io)
      (\<lambda>_. fsync_directory dir_fd)))"

section \<open>\<open>QuadletInstaller\<close>\<close>

definition expected_install ::
    "quadlet_install_layout \<Rightarrow> quadlet_policy \<Rightarrow> u32 \<Rightarrow> quadlet_file \<Rightarrow> installed_quadlet Result" where
  "expected_install layout policy uid quadlet =
     bind_result
       (guard (\<not> length (qf_contents quadlet) > max_quadlet_bytes layout)
          (err Policy ''Quadlet contents exceed max_quadlet_bytes''))
     (\<lambda>_. bind_result (validate_quadlet_policy quadlet policy)
     (\<lambda>_. bind_result (service_unit_name_from_quadlet (qf_file_name quadlet))
     (\<lambda>unit. Inr \<lparr>iq_path = quadlet_path layout uid (qf_file_name quadlet),
                   iq_systemd_unit = unit\<rparr>)))"

definition snapshot_for_user ::
    "quadlet_install_layout \<Rightarrow> u32 \<Rightarrow> string \<Rightarrow> (error, quadlet_snapshot) io" where
  "snapshot_for_user layout uid file_name =
     bind_io (lift_io (validate_quadlet_file_name file_name))
     (\<lambda>_. bind_io (ensure_admin_tree uid layout)
     (\<lambda>_. let path = quadlet_path layout uid file_name in
       either_io (sys_lstat path)
         (\<lambda>e. if e = ENOENT
              then return_io \<lparr>qs_path = path, qs_file_name = file_name, qs_existed = False, qs_contents = []\<rparr>
              else os_error Filesystem (''failed to stat Quadlet snapshot path '' @ quote path @ '': '') e)
         (\<lambda>st. bind_io (read_regular_file_no_symlink path (max_quadlet_bytes layout))
           (\<lambda>contents. return_io
             \<lparr>qs_path = path, qs_file_name = file_name, qs_existed = True, qs_contents = contents\<rparr>))))"

definition restore_for_user ::
    "quadlet_install_layout \<Rightarrow> u32 \<Rightarrow> quadlet_snapshot \<Rightarrow> (error, unit) io" where
  "restore_for_user layout uid snapshot =
     bind_io (lift_io (validate_quadlet_file_name (qs_file_name snapshot)))
     (\<lambda>_. bind_io (ensure_admin_tree uid layout)
     (\<lambda>_. let path = quadlet_path layout uid (qs_file_name snapshot) in
       bind_io
         (lift_io (guard (path_eq path (qs_path snapshot))
            (err Filesystem ''Quadlet snapshot path does not match installer layout'')))
       (\<lambda>_. if \<not> qs_existed snapshot then unlink_quadlet_file path
            else atomic_write_file path (qs_contents snapshot) mode_0644)))"

definition remove_for_user :: "quadlet_install_layout \<Rightarrow> u32 \<Rightarrow> string \<Rightarrow> (error, unit) io" where
  "remove_for_user layout uid file_name =
     bind_io (lift_io (validate_quadlet_file_name file_name))
     (\<lambda>_. bind_io (ensure_admin_tree uid layout)
     (\<lambda>_. unlink_quadlet_file (quadlet_path layout uid file_name)))"

definition install_for_user ::
    "quadlet_install_layout \<Rightarrow> quadlet_policy \<Rightarrow> u32 \<Rightarrow> quadlet_file \<Rightarrow> (error, installed_quadlet) io" where
  "install_for_user layout policy uid quadlet =
     bind_io (lift_io (expected_install layout policy uid quadlet))
     (\<lambda>expected. bind_io (ensure_admin_tree uid layout)
     (\<lambda>_. bind_io (atomic_write_file (iq_path expected) (qf_contents quadlet) mode_0644)
     (\<lambda>_. return_io expected)))"

end
