(* ===== verification/Posix_Facts.thy ===== *)
theory Posix_Facts
  imports Posix
begin

text \<open>
  Reasoning about effects: the weakest precondition \<open>wp\<close> with its equations for the ways of
  composing effects (collection \<open>wp_simps\<close>), the part of the world no effect changes (\<open>ctx\<close>),
  undisturbed schedules (\<open>calm\<close>), one \<open>wp\<close> rule per system call (collection \<open>wp_rules\<close>), and
  facts about path resolution.
\<close>

named_theorems wp_simps \<open>weakest preconditions of composed effects\<close>
named_theorems wp_rules \<open>introduction rules for weakest preconditions of system calls\<close>

section \<open>Weakest preconditions\<close>

definition wp :: "('e, 'a) io \<Rightarrow> ('a \<Rightarrow> world \<Rightarrow> bool) \<Rightarrow> ('e \<Rightarrow> world \<Rightarrow> bool) \<Rightarrow> world \<Rightarrow> bool" where
  "wp m Q E w = (case m w of (Inl e, w') \<Rightarrow> E e w' | (Inr x, w') \<Rightarrow> Q x w')"

lemma wp_return [wp_simps]: "wp (return_io x) Q E w = Q x w"
  by (simp add: wp_def return_io_def)

lemma wp_fail [wp_simps]: "wp (fail_io e) Q E w = E e w"
  by (simp add: wp_def fail_io_def)

lemma wp_bind [wp_simps]: "wp (bind_io m f) Q E w = wp m (\<lambda>x. wp (f x) Q E) E w"
  by (simp add: wp_def bind_io_def split: prod.splits sum.splits)

lemma wp_catch [wp_simps]: "wp (catch_io m h) Q E w = wp m Q (\<lambda>e. wp (h e) Q E) w"
  by (simp add: wp_def catch_io_def split: prod.splits sum.splits)

lemma wp_either [wp_simps]:
  "wp (either_io m h f) Q E w = wp m (\<lambda>x. wp (f x) Q E) (\<lambda>e. wp (h e) Q E) w"
  by (simp add: wp_def either_io_def split: prod.splits sum.splits)

lemma wp_lift: "wp (lift_io r) Q E w = (case r of Inl e \<Rightarrow> E e w | Inr x \<Rightarrow> Q x w)"
  by (simp add: wp_def lift_io_def split: sum.splits)

lemma wp_get [wp_simps]: "wp (get_io f) Q E w = Q (f w) w"
  by (simp add: wp_def get_io_def)

lemma wp_log [wp_simps]: "wp (log_io l) Q E w = Q () (w\<lparr>w_log := w_log w @ [l]\<rparr>)"
  by (simp add: wp_def log_io_def)

text \<open>The error a failed call is reported as.\<close>

definition call_error :: "error_kind \<Rightarrow> string \<Rightarrow> errno \<Rightarrow> world \<Rightarrow> error" where
  "call_error k msg e w = make_error k (msg @ w_strerror w e) 0 e 0"

lemma kind_call_error [simp]: "kind (call_error k msg e w) = k" "os_errno (call_error k msg e w) = e"
  by (simp_all add: call_error_def)

lemma wp_os_error [wp_simps]: "wp (os_error k msg e) Q E w = E (call_error k msg e w) w"
  by (simp add: wp_def os_error_def call_error_def)

lemma wp_or_os_error [wp_simps]:
  "wp (or_os_error m k msg) Q E w = wp m Q (\<lambda>e w. E (call_error k msg e w) w) w"
  by (simp add: wp_def or_os_error_def catch_io_def os_error_def call_error_def split: prod.splits sum.splits)

lemma wp_guard [wp_simps]: "wp (lift_io (guard c e)) Q E w = (if c then Q () w else E e w)"
  by (simp add: wp_def lift_io_def guard_def)

lemma wp_if [wp_simps]: "wp (if c then m else m') Q E w = (if c then wp m Q E w else wp m' Q E w)"
  by simp

lemma wp_cong_mono:
  assumes "wp m Q E w" "\<And>x w'. Q x w' \<Longrightarrow> Q' x w'" "\<And>e w'. E e w' \<Longrightarrow> E' e w'"
  shows "wp m Q' E' w"
  using assms by (auto simp: wp_def split: prod.splits sum.splits)

lemma wp_conj:
  "wp m Q E w \<Longrightarrow> wp m Q' E' w \<Longrightarrow> wp m (\<lambda>x w'. Q x w' \<and> Q' x w') (\<lambda>e w'. E e w' \<and> E' e w') w"
  by (auto simp: wp_def split: prod.splits sum.splits)

lemma wp_Inr: "wp m Q E w \<Longrightarrow> m w = (Inr x, w') \<Longrightarrow> Q x w'"
  by (simp add: wp_def)

lemma wp_Inl: "wp m Q E w \<Longrightarrow> m w = (Inl e, w') \<Longrightarrow> E e w'"
  by (simp add: wp_def)

lemma wpI: "(\<And>x w'. m w = (Inr x, w') \<Longrightarrow> Q x w') \<Longrightarrow> (\<And>e w'. m w = (Inl e, w') \<Longrightarrow> E e w') \<Longrightarrow> wp m Q E w"
  by (auto simp: wp_def split: prod.splits sum.splits)

section \<open>Undisturbed schedules\<close>

text \<open>No other process touches the file system; calls may still fail and transfers fall short.\<close>

definition calm_sched :: "event list \<Rightarrow> bool" where
  "calm_sched s \<longleftrightarrow> (\<forall>e \<in> set s. ev_env e = (\<lambda>fs. fs))"

definition calm :: "world \<Rightarrow> bool" where
  "calm w \<longleftrightarrow> calm_sched (w_sched w)"

lemma calm_update [simp]:
  "calm (w\<lparr>w_fs := a\<rparr>) = calm w" "calm (w\<lparr>w_log := l\<rparr>) = calm w"
  "calm (w\<lparr>w_http := h\<rparr>) = calm w" "calm (w\<lparr>w_procs := p\<rparr>) = calm w"
  "calm (w\<lparr>w_sched := s\<rparr>) = calm_sched s"
  by (simp_all add: calm_def)

text \<open>No call of the schedule is made to fail.\<close>

definition faultless :: "world \<Rightarrow> bool" where
  "faultless w \<longleftrightarrow> (\<forall>e \<in> set (w_sched w). fault_of e = None)"

lemma faultless_update [simp]:
  "faultless (w\<lparr>w_fs := a\<rparr>) = faultless w" "faultless (w\<lparr>w_log := l\<rparr>) = faultless w"
  "faultless (w\<lparr>w_http := h\<rparr>) = faultless w" "faultless (w\<lparr>w_procs := p\<rparr>) = faultless w"
  by (simp_all add: faultless_def)

text \<open>\<open>evolves w w'\<close>: file-system calls lead from \<open>w\<close> to \<open>w'\<close>, undisturbed.\<close>

definition ctx :: "world \<Rightarrow> _" where
  "ctx w = (w_root w, w_cwd w, w_euid w, w_egid w, w_umask w, w_pid w, w_strerror w, w_getpwuid w,
     w_getpwnam w, w_curl_strerror w)"

definition evolves :: "world \<Rightarrow> world \<Rightarrow> bool" where
  "evolves w w' \<longleftrightarrow> calm w' \<and> (faultless w \<longrightarrow> faultless w') \<and> ctx w' = ctx w"

lemma evolves_refl [simp]: "evolves w w \<longleftrightarrow> calm w"
  by (simp add: evolves_def)

lemma evolves_trans [trans]: "evolves w w' \<Longrightarrow> evolves w' w'' \<Longrightarrow> evolves w w''"
  by (simp add: evolves_def)

lemma evolves_calm: "evolves w w' \<Longrightarrow> calm w'"
  by (simp add: evolves_def)

lemma evolves_update [simp]:
  "evolves w (w'\<lparr>w_fs := a\<rparr>) = evolves w w'" "evolves w (w'\<lparr>w_log := l\<rparr>) = evolves w w'"
  "evolves w (w'\<lparr>w_http := h\<rparr>) = evolves w w'" "evolves w (w'\<lparr>w_procs := p\<rparr>) = evolves w w'"
  by (simp_all add: evolves_def ctx_def)

lemma evolvesD:
  assumes "evolves w w'"
  shows "w_root w' = w_root w" "w_cwd w' = w_cwd w" "w_euid w' = w_euid w" "w_egid w' = w_egid w"
    "w_umask w' = w_umask w" "w_pid w' = w_pid w" "w_strerror w' = w_strerror w"
    "w_getpwuid w' = w_getpwuid w" "w_getpwnam w' = w_getpwnam w" "calm w'"
    "w_curl_strerror w' = w_curl_strerror w" "ctx w' = ctx w" "faultless w \<Longrightarrow> faultless w'"
  using assms by (simp_all add: evolves_def ctx_def)

text \<open>\<open>idle w w'\<close>: only events were used up.\<close>

definition idle :: "world \<Rightarrow> world \<Rightarrow> bool" where
  "idle w w' \<longleftrightarrow> evolves w w' \<and> w_fs w' = w_fs w \<and> w_log w' = w_log w"

lemma idle_refl: "calm w \<Longrightarrow> idle w w"
  by (simp add: idle_def)

lemma idle_trans [trans]: "idle w w' \<Longrightarrow> idle w' w'' \<Longrightarrow> idle w w''"
  by (auto simp: idle_def intro: evolves_trans)

lemma idle_calm: "idle w w' \<Longrightarrow> calm w'"
  by (auto simp: idle_def evolves_def)

lemma idleD:
  assumes "idle w w'"
  shows "w_fs w' = w_fs w" "evolves w w'" "w_log w' = w_log w" "w_root w' = w_root w" "w_cwd w' = w_cwd w"
  using assms evolvesD by (auto simp: idle_def)

text \<open>
  The rule all others come from. An injected failure leaves the file system and the log as
  they are; otherwise the body runs on the same file system and log.
\<close>

lemma wp_syscall:
  assumes "calm w"
    and fault: "\<And>n w'. idle w w' \<Longrightarrow> \<not> faultless w \<Longrightarrow> n \<noteq> ENOENT \<Longrightarrow> n \<noteq> EEXIST \<Longrightarrow> E n w'"
    and body: "\<And>e w'. idle w w' \<Longrightarrow> wp (body e) Q E w'"
  shows "wp (syscall body) Q E w"
proof -
  obtain e w' where ne: "next_event w = (e, w')" by fastforce
  have w': "idle w w'"
    using ne assms(1) by (cases "w_sched w")
      (auto simp: next_event_def calm_def calm_sched_def idle_def evolves_def ctx_def faultless_def)
  show ?thesis
  proof (cases "fault_of e")
    case None
    with body [OF w', of e] ne show ?thesis by (simp add: wp_def syscall_def)
  next
    case (Some n)
    then have "n \<noteq> ENOENT" "n \<noteq> EEXIST" by (auto simp: fault_of_def split: option.splits if_splits)
    moreover have "\<not> faultless w"
      using ne Some by (cases "w_sched w")
        (auto simp: next_event_def faultless_def fault_of_def quiet_event_def)
    ultimately show ?thesis using fault [OF w'] ne Some by (simp add: wp_def syscall_def)
  qed
qed

section \<open>File systems\<close>

definition node_at :: "fs \<Rightarrow> ino \<Rightarrow> node option" where
  "node_at fs i = map_option i_node (inodes fs i)"

lemma dir_entries_node: "dir_entries fs d = (case node_at fs d of Some (Dir es) \<Rightarrow> Some es | _ \<Rightarrow> None)"
  by (auto simp: dir_entries_def node_at_def split: option.splits node.splits)

lemma inodes_put_inode [simp]: "inodes (put_inode i nd fs) j = (if j = i then Some nd else inodes fs j)"
  by (simp add: put_inode_def)

lemma next_ino_put [simp]:
  "next_ino (put_inode i nd fs) = next_ino fs" "next_ino (put_entry d n t fs) = next_ino fs"
  by (simp_all add: put_inode_def put_entry_def split: option.splits node.splits)

lemma next_ino_update [simp]:
  "dir_entries (fs\<lparr>next_ino := k\<rparr>) d = dir_entries fs d" "entry (fs\<lparr>next_ino := k\<rparr>) d n = entry fs d n"
  "is_dir (fs\<lparr>next_ino := k\<rparr>) d = is_dir fs d" "node_at (fs\<lparr>next_ino := k\<rparr>) d = node_at fs d"
  by (simp_all add: dir_entries_def entry_def is_dir_def node_at_def)

lemma dir_entries_SomeE:
  assumes "dir_entries fs d = Some es"
  obtains nd where "inodes fs d = Some nd" "i_node nd = Dir es"
  using assms by (auto simp: dir_entries_def split: option.splits node.splits)

lemma inodes_put_entry_other [simp]: "j \<noteq> d \<Longrightarrow> inodes (put_entry d n t fs) j = inodes fs j"
  by (simp add: put_entry_def split: option.splits node.splits)

lemma inodes_put_entry_same:
  "inodes fs d = Some nd \<Longrightarrow> i_node nd = Dir es \<Longrightarrow>
     inodes (put_entry d n t fs) d = Some (nd\<lparr>i_node := Dir (es(n := t))\<rparr>)"
  by (simp add: put_entry_def)

lemma dir_entries_put_entry [simp]:
  "dir_entries (put_entry d n t fs) d' =
     (if d' = d then map_option (\<lambda>es. es(n := t)) (dir_entries fs d) else dir_entries fs d')"
  by (auto simp: dir_entries_def put_entry_def split: option.splits node.splits)

lemma is_dir_put_entry [simp]: "is_dir (put_entry d n t fs) d' = is_dir fs d'"
  by (simp add: is_dir_def)

lemma entry_put_entry [simp]:
  "is_dir fs d \<Longrightarrow> entry (put_entry d n t fs) d' n' = (if d' = d \<and> n' = n then t else entry fs d' n')"
  by (auto simp: entry_def is_dir_def split: option.splits)

lemma dir_entries_put_inode [simp]:
  "dir_entries (put_inode i nd fs) d = (if d = i then (case i_node nd of Dir es \<Rightarrow> Some es | _ \<Rightarrow> None)
     else dir_entries fs d)"
  by (simp add: dir_entries_def)


lemma inodes_chmod: "inodes (chmod_inode i m fs) j =
    (if j = i then map_option (\<lambda>nd. nd\<lparr>i_mode := m\<rparr>) (inodes fs i) else inodes fs j)"
  by (auto simp: chmod_inode_def split: option.splits)

lemma node_at_chmod [simp]: "node_at (chmod_inode i m fs) j = node_at fs j"
  by (auto simp: node_at_def inodes_chmod option.map_comp comp_def)

lemma dir_entries_chmod [simp]: "dir_entries (chmod_inode i m fs) d = dir_entries fs d"
  by (simp add: dir_entries_node)

lemma entry_chmod [simp]: "entry (chmod_inode i m fs) d n = entry fs d n" "is_dir (chmod_inode i m fs) d = is_dir fs d"
  by (simp_all add: entry_def is_dir_def)

section \<open>Path resolution\<close>

text \<open>The walks that succeed, as an inductive relation, for proofs by rule induction.\<close>

inductive walks :: "fs \<Rightarrow> ino \<Rightarrow> nat \<Rightarrow> ino \<Rightarrow> string list \<Rightarrow> bool \<Rightarrow> ino \<Rightarrow> bool"
  for fs root where
  here: "walks fs root k cur [] follow cur"
| last_link: "node_at fs cur = Some (Dir es) \<Longrightarrow> length n \<le> 255 \<Longrightarrow> es n = Some i \<Longrightarrow>
    node_at fs i = Some (Lnk t) \<Longrightarrow> walks fs root k cur [n] False i"
| through_link: "node_at fs cur = Some (Dir es) \<Longrightarrow> length n \<le> 255 \<Longrightarrow> es n = Some i \<Longrightarrow>
    node_at fs i = Some (Lnk t) \<Longrightarrow> ns \<noteq> [] \<or> follow \<Longrightarrow>
    walks fs root k (if is_absolute t then root else cur) (path_names t @ ns) follow r \<Longrightarrow>
    walks fs root (Suc k) cur (n # ns) follow r"
| down: "node_at fs cur = Some (Dir es) \<Longrightarrow> length n \<le> 255 \<Longrightarrow> es n = Some i \<Longrightarrow>
    node_at fs i = Some nd \<Longrightarrow> \<forall>t. nd \<noteq> Lnk t \<Longrightarrow> walks fs root k i ns follow r \<Longrightarrow>
    walks fs root k cur (n # ns) follow r"

lemma walk_Cons:
  "walk links fs root cur (n # ns) follow =
     (case node_at fs cur of
        None \<Rightarrow> Inl ENOENT
      | Some (Dir es) \<Rightarrow>
          if length n > 255 then Inl ENAMETOOLONG
          else (case es n of
             None \<Rightarrow> Inl ENOENT
           | Some i \<Rightarrow>
               (case node_at fs i of
                  None \<Rightarrow> Inl ENOENT
                | Some (Lnk target) \<Rightarrow>
                         if ns = [] \<and> \<not> follow then Inr i
                         else (case links of
                                 0 \<Rightarrow> Inl ELOOP
                               | Suc k \<Rightarrow> walk k fs root (if is_absolute target then root else cur)
                                           (path_names target @ ns) follow)
                | Some _ \<Rightarrow> walk links fs root i ns follow))
      | Some _ \<Rightarrow> Inl ENOTDIR)"
  by (auto simp: dir_entries_def node_at_def split: option.splits node.splits)

declare walk.simps(2) [simp del]

lemma walks_walk: "walks fs root k cur ns follow r \<Longrightarrow> walk k fs root cur ns follow = Inr r"
proof (induction rule: walks.induct)
  case (down cur es n i nd k ns follow r)
  then show ?case by (cases nd) (auto simp: walk_Cons)
qed (auto simp: walk_Cons)

lemma walk_walks: "walk k fs root cur ns follow = Inr r \<Longrightarrow> walks fs root k cur ns follow r"
proof (induction k fs root cur ns follow arbitrary: r rule: walk.induct)
  case (1 links fs root cur follow)
  then show ?case by (auto intro: walks.here)
next
  case (2 links fs root cur n ns follow)
  from "2.prems" obtain es i nd where *: "node_at fs cur = Some (Dir es)" "length n \<le> 255"
      "es n = Some i" "node_at fs i = Some nd"
    by (auto simp: walk_Cons split: option.splits node.splits if_splits)
  then obtain ind where ind: "inodes fs i = Some ind" "i_node ind = nd"
    by (auto simp: node_at_def)
  have de: "dir_entries fs cur = Some es" using * by (simp add: dir_entries_node)
  show ?case
  proof (cases "\<exists>t. nd = Lnk t")
    case True
    then obtain t where t: "nd = Lnk t" ..
    show ?thesis
    proof (cases "ns = [] \<and> \<not> follow")
      case True
      with "2.prems" * t show ?thesis by (auto simp: walk_Cons intro: walks.last_link)
    next
      case False
      with "2.prems" * t obtain k where k: "links = Suc k"
          "walk k fs root (if is_absolute t then root else cur) (path_names t @ ns) follow = Inr r"
        by (auto simp: walk_Cons split: nat.splits if_splits)
      have "walks fs root k (if is_absolute t then root else cur) (path_names t @ ns) follow r"
        using "2.IH"(3) [OF de _ \<open>es n = Some i\<close> ind(1) ind(2) [unfolded t] False k] * by simp
      with walks.through_link [OF * [unfolded t]] False k show ?thesis by blast
    qed
  next
    case False
    then have "walk links fs root i ns follow = Inr r"
      using "2.prems" * by (cases nd) (simp_all add: walk_Cons)
    then have "walks fs root links i ns follow r"
      using "2.IH"(1,2,4,5) [OF de _ \<open>es n = Some i\<close> ind(1)] ind(2) False * by (cases nd) simp_all
    with walks.down [OF *] False show ?thesis by blast
  qed
qed

lemma walk_iff: "walk k fs root cur ns follow = Inr r \<longleftrightarrow> walks fs root k cur ns follow r"
  using walk_walks walks_walk by blast

text \<open>
  \<open>hollow d fs\<close> is \<open>fs\<close> with the directory \<open>d\<close> emptied. A walk that succeeds there does not look
  into \<open>d\<close>, so it ends at the same inode whatever is in \<open>d\<close>.
\<close>

definition hollow :: "ino \<Rightarrow> fs \<Rightarrow> fs" where
  "hollow d fs = (case inodes fs d of None \<Rightarrow> fs | Some nd \<Rightarrow> put_inode d (nd\<lparr>i_node := Dir (\<lambda>n. None)\<rparr>) fs)"

definition agree_but :: "ino \<Rightarrow> fs \<Rightarrow> fs \<Rightarrow> bool" where
  "agree_but d fs fs' \<longleftrightarrow> is_dir fs d \<and> is_dir fs' d
     \<and> (\<forall>j. j \<noteq> d \<longrightarrow> node_at fs j \<noteq> None \<longrightarrow> node_at fs' j = node_at fs j)"

lemma is_dir_node: "is_dir fs d \<longleftrightarrow> (\<exists>es. node_at fs d = Some (Dir es))"
  by (auto simp: is_dir_def dir_entries_node split: option.splits node.splits)

lemma node_at_hollow: "is_dir fs d \<Longrightarrow>
    node_at (hollow d fs) j = (if j = d then Some (Dir (\<lambda>n. None)) else node_at fs j)"
  by (auto simp: node_at_def hollow_def is_dir_def dir_entries_def split: option.splits node.splits)

lemma walks_hollow:
  assumes "walks (hollow d fs) root k cur ns follow i" "agree_but d fs fs'"
  shows "walks fs' root k cur ns follow i"
  using assms
proof (induction rule: walks.induct)
  case (here k cur follow)
  then show ?case by (blast intro: walks.here)
next
  case (last_link cur es n i t k)
  then show ?case
    by (auto simp: node_at_hollow agree_but_def split: if_splits intro!: walks.last_link)
next
  case (through_link cur es n i t ns follow k r)
  then show ?case
    by (auto simp: node_at_hollow agree_but_def split: if_splits intro!: walks.through_link)
next
  case (down cur es n i nd k ns follow r)
  then have "walks fs' root k i ns follow r" by blast
  moreover obtain nd' where "node_at fs' i = Some nd'" "\<forall>t. nd' \<noteq> Lnk t"
    using down.hyps(4,5) down.prems by (cases "i = d") (auto simp: node_at_hollow agree_but_def is_dir_node)
  moreover have "node_at fs' cur = Some (Dir es)"
    using down.hyps(1,3) down.prems by (auto simp: node_at_hollow agree_but_def split: if_splits)
  ultimately show ?case using down.hyps(2,3) by (blast intro: walks.down)
qed

text \<open>A walk that ends at a directory ends there whether links are followed or not.\<close>

lemma walks_follow:
  assumes "walks fs root k cur ns follow d" "is_dir fs d"
  shows "walks fs root k cur ns True d"
  using assms
proof (induction rule: walks.induct)
  case (last_link cur es n i t k)
  then show ?case by (simp add: is_dir_node)
qed (auto intro: walks.intros)

text \<open>A walk to a directory passes through directories.\<close>

lemma walks_start_dir: "walks fs root k cur ns follow d \<Longrightarrow> is_dir fs d \<Longrightarrow> is_dir fs cur"
  by (erule walks.cases) (auto simp: is_dir_node)

lemma walks_prefix:
  assumes "walks fs root k cur (ns @ ms) follow d" "is_dir fs d"
  shows "\<exists>p. walks fs root k cur ns True p \<and> is_dir fs p"
  using assms
proof (induction k cur "ns @ ms" follow d arbitrary: ns rule: walks.induct)
  case (here k cur follow)
  then show ?case by (auto intro: walks.here)
next
  case (last_link cur es n i t k)
  then show ?case by (simp add: is_dir_node)
next
  case (through_link cur es n i t ns' follow k r)
  show ?case
  proof (cases ns)
    case Nil
    have "walks fs root (Suc k) cur (n # ns') follow r" using through_link.hyps by (blast intro: walks.through_link)
    with Nil through_link.prems show ?thesis by (blast intro: walks.here dest: walks_start_dir)
  next
    case (Cons a as)
    with through_link.hyps have "path_names t @ ns' = (path_names t @ as) @ ms" by auto
    from through_link.hyps(7) [OF this] through_link.prems obtain p where
      p: "walks fs root k (if is_absolute t then root else cur) (path_names t @ as) True p" "is_dir fs p"
      by blast
    have "walks fs root (Suc k) cur (n # as) True p"
      by (rule walks.through_link [OF through_link.hyps(1-4) _ p(1)]) simp
    with p Cons through_link.hyps(8) show ?thesis by auto
  qed
next
  case (down cur es n i nd k ns' follow r)
  show ?case
  proof (cases ns)
    case Nil
    have "walks fs root k cur (n # ns') follow r" using down.hyps by (blast intro: walks.down)
    with Nil down.prems show ?thesis by (blast intro: walks.here dest: walks_start_dir)
  next
    case (Cons a as)
    with down obtain p where p: "walks fs root k i as True p" "is_dir fs p" by fastforce
    have "walks fs root k cur (n # as) True p"
      by (rule walks.down [OF down.hyps(1-5) p(1)])
    with p Cons down.hyps(8) show ?thesis by auto
  qed
qed


lemma walks_snoc:
  assumes "walks fs root k cur ns True d" "entry fs d n = Some i" "length n \<le> 255" "inodes fs i \<noteq> None"
    "follow \<Longrightarrow> \<forall>t. node_at fs i \<noteq> Some (Lnk t)"
  shows "walks fs root k cur (ns @ [n]) follow i"
  using assms
proof (induction k cur ns "True" d rule: walks.induct)
  case (here k cur)
  then obtain es nd where "node_at fs cur = Some (Dir es)" "es n = Some i" "node_at fs i = Some nd"
    by (auto simp: entry_def dir_entries_node node_at_def split: option.splits node.splits)
  with here show ?case
    by (cases "\<exists>t. nd = Lnk t"; cases follow) (auto intro: walks.intros)
qed (auto intro: walks.intros)

lemma walk_snoc_missing:
  assumes "walks fs root k cur ns True d" "is_dir fs d" "\<And>i. entry fs d n = Some i \<Longrightarrow> inodes fs i = None"
    "length n \<le> 255"
  shows "walk k fs root cur (ns @ [n]) follow = Inl ENOENT"
  using assms
proof (induction k cur ns "True" d rule: walks.induct)
  case (here k cur)
  then obtain es where es: "node_at fs cur = Some (Dir es)" by (auto simp: is_dir_node)
  show ?case
  proof (cases "es n")
    case None
    with es here show ?thesis by (simp add: walk_Cons)
  next
    case (Some i)
    then have "entry fs cur n = Some i" using es by (simp add: entry_def dir_entries_node)
    then have "node_at fs i = None" using here(2) by (simp add: node_at_def)
    with es Some here(3) show ?thesis by (simp add: walk_Cons)
  qed
next
  case (down cur es n i nd k ns r)
  then show ?case by (cases nd) (auto simp: walk_Cons)
qed (auto simp: walk_Cons)

text \<open>A path without NUL that resolves to a directory.\<close>

definition leads_to :: "world \<Rightarrow> path \<Rightarrow> ino \<Rightarrow> bool" where
  "leads_to w p d \<longleftrightarrow> CHR 0x00 \<notin> set p \<and> p \<noteq> [] \<and> last p \<noteq> CHR ''/''
     \<and> resolve w (w_cwd w) p False = Inr d \<and> is_dir (w_fs w) d"

lemma c_str_id [simp]: "CHR 0x00 \<notin> set p \<Longrightarrow> c_str p = p"
  by (auto simp: c_str_def takeWhile_eq_all_conv)

definition start_of :: "world \<Rightarrow> path \<Rightarrow> ino" where
  "start_of w p = (if is_absolute p then w_root w else w_cwd w)"

lemma resolve_walks:
  "CHR 0x00 \<notin> set p \<Longrightarrow> p \<noteq> [] \<Longrightarrow> resolve w (w_cwd w) p follow = Inr i \<longleftrightarrow>
     walks (w_fs w) (w_root w) 40 (start_of w p) (path_names p) (follow \<or> last p = CHR ''/'') i"
  by (simp add: resolve_def walk_iff start_of_def)

lemma leads_to_walks: "leads_to w p d \<Longrightarrow>
    walks (w_fs w) (w_root w) 40 (start_of w p) (path_names p) follow d"
  unfolding leads_to_def using resolve_walks [of p w False d] walks_follow
  by (cases follow) auto


lemma resolve_cong:
  "w_fs w' = w_fs w \<Longrightarrow> w_root w' = w_root w \<Longrightarrow> resolve w' = resolve w"
  by (intro ext) (simp add: resolve_def Let_def)

lemma start_of_cong: "w_root w' = w_root w \<Longrightarrow> w_cwd w' = w_cwd w \<Longrightarrow> start_of w' p = start_of w p"
  by (simp add: start_of_def)

lemma resolve_idle: "idle w w' \<Longrightarrow> resolve w' = resolve w"
  by (rule resolve_cong) (rule idleD, assumption)+

lemma leads_to_idle: "idle w w' \<Longrightarrow> leads_to w' p d = leads_to w p d"
  using resolve_idle [of w w'] idleD [of w w'] by (simp add: leads_to_def)

section \<open>Calls that change nothing\<close>

lemma wp_stat:
  assumes "calm w"
    "\<And>n w'. idle w w' \<Longrightarrow> \<not> faultless w \<Longrightarrow> n \<noteq> ENOENT \<Longrightarrow> E n w'"
    "\<And>n w'. idle w w' \<Longrightarrow> resolve w base p follow = Inl n \<Longrightarrow> E n w'"
    "\<And>i w'. idle w w' \<Longrightarrow> resolve w base p follow = Inr i \<Longrightarrow> inodes (w_fs w) i = None \<Longrightarrow> E ENOENT w'"
    "\<And>i nd w'. idle w w' \<Longrightarrow> resolve w base p follow = Inr i \<Longrightarrow> inodes (w_fs w) i = Some nd \<Longrightarrow>
       Q (stat_of nd) w'"
  shows "wp (sys_stat base p follow) Q E w"
  unfolding sys_stat_def
proof (rule wp_syscall [OF assms(1)])
  fix e w' assume i: "idle w w'"
  then have r: "resolve w' = resolve w" by (rule resolve_idle)
  show "wp (\<lambda>w. (case resolve w base p follow of Inl n \<Rightarrow> Inl n | Inr i \<Rightarrow> stat_inode (w_fs w) i, w)) Q E w'"
    using assms(3-5) [OF i]
    by (auto simp: wp_def r stat_inode_def idleD [OF i] split: sum.splits option.splits)
qed (use assms(2) in blast)

lemma wp_stat_dir:
  assumes "calm w" "CHR 0x00 \<notin> set p" "p \<noteq> []"
    "walks (w_fs w) (w_root w) 40 (start_of w p) (path_names p) follow d" "is_dir (w_fs w) d"
    "\<And>n w'. idle w w' \<Longrightarrow> \<not> faultless w \<Longrightarrow> n \<noteq> ENOENT \<Longrightarrow> E n w'"
    "\<And>w' nd. idle w w' \<Longrightarrow> inodes (w_fs w) d = Some nd \<Longrightarrow> st_type (stat_of nd) = S_IFDIR \<Longrightarrow> Q (stat_of nd) w'"
  shows "wp (sys_stat (w_cwd w) p follow) Q E w"
proof -
  obtain nd where nd: "inodes (w_fs w) d = Some nd" "st_type (stat_of nd) = S_IFDIR"
    using assms(5) by (auto simp: is_dir_def stat_of_def elim: dir_entries_SomeE)
  have "resolve w (w_cwd w) p follow = Inr d"
    using assms(2-5) walks_follow [OF assms(4,5)]
    by (cases "last p = CHR ''/''") (simp_all add: resolve_walks)
  with nd show ?thesis
    by (intro wp_stat [OF assms(1)]) (auto intro: assms(6,7))
qed

lemma path_prefixes_lead:
  assumes d: "leads_to w p d" and q: "q \<in> set (path_prefixes p)"
  shows "CHR 0x00 \<notin> set q \<and> q \<noteq> [] \<and>
    (\<exists>e. walks (w_fs w) (w_root w) 40 (start_of w q) (path_names q) True e \<and> is_dir (w_fs w) e)"
proof -
  obtain k where k: "0 < k" "k \<le> length (path_names p)"
      "q = (if is_absolute p then ''/'' else []) @ join_names (take k (path_names p))"
    using q unfolding path_prefixes_def set_map by (elim imageE) (rule that, auto)
  let ?ns = "take k (path_names p)"
  have plain: "\<forall>n \<in> set ?ns. plain_name n"
    using path_names_plain by (auto dest: in_set_takeD)
  have ne: "?ns \<noteq> []" using k by auto
  have names: "path_names q = ?ns" by (cases "is_absolute p") (simp_all add: k(3) path_names_join [OF plain])
  have start: "start_of w q = start_of w p"
    using join_names_relative [OF plain]
    by (cases "is_absolute p") (simp_all add: k(3) start_of_def is_absolute_def [of "CHR ''/'' # _"])
  have "CHR 0x00 \<notin> set q"
  proof
    assume "CHR 0x00 \<in> set q"
    then have "CHR 0x00 \<in> set (join_names ?ns)" using k(3) by (auto split: if_splits)
    with set_join_names [of ?ns] obtain n where "n \<in> set ?ns" "CHR 0x00 \<in> set n" by auto
    with set_path_names [of n p] have "CHR 0x00 \<in> set p" by (auto dest: in_set_takeD)
    with d show False by (simp add: leads_to_def)
  qed
  moreover have "q \<noteq> []" using ne join_names_Nil_iff [OF plain] by (simp add: k(3))
  moreover have "walks (w_fs w) (w_root w) 40 (start_of w p) (?ns @ drop k (path_names p)) False d"
    using leads_to_walks [OF d] by simp
  ultimately show ?thesis
    using walks_prefix d unfolding names start leads_to_def by blast
qed

lemma wp_create_prefixes:
  assumes "calm w"
    "\<forall>q \<in> set ps. CHR 0x00 \<notin> set q \<and> q \<noteq> [] \<and>
      (\<exists>e. walks (w_fs w) (w_root w) 40 (start_of w q) (path_names q) True e \<and> is_dir (w_fs w) e)"
    "\<And>w'. idle w w' \<Longrightarrow> Q () w'" "\<And>n w'. idle w w' \<Longrightarrow> \<not> faultless w \<Longrightarrow> E n w'"
  shows "wp (create_prefixes (w_cwd w) ps) Q E w"
  using assms
proof (induction ps arbitrary: w)
  case Nil
  then show ?case by (simp add: wp_simps idle_refl)
next
  case (Cons q ps)
  from Cons.prems(2) obtain e where e: "CHR 0x00 \<notin> set q" "q \<noteq> []"
      "walks (w_fs w) (w_root w) 40 (start_of w q) (path_names q) True e" "is_dir (w_fs w) e" by auto
  have rest: "wp (create_prefixes (w_cwd w) ps) Q E w'" if i: "idle w w'" for w'
  proof -
    have "wp (create_prefixes (w_cwd w') ps) Q E w'"
    proof (rule Cons.IH)
      show "\<forall>q \<in> set ps. CHR 0x00 \<notin> set q \<and> q \<noteq> [] \<and> (\<exists>e. walks (w_fs w') (w_root w') 40
          (start_of w' q) (path_names q) True e \<and> is_dir (w_fs w') e)"
        using Cons.prems(2) by (simp add: idleD [OF i] start_of_cong [of w' w])
      show "calm w'" using i by (rule idle_calm)
      fix n w'' assume "idle w' w''"
      then have "idle w w''" using i idle_trans by blast
      then show "Q () w''" "\<not> faultless w' \<Longrightarrow> E n w''"
        using Cons.prems(3,4) i by (auto simp: idle_def evolves_def)
    qed
    then show ?thesis by (simp add: idleD [OF i])
  qed
  show ?case
    by (simp add: wp_simps, rule wp_stat_dir [OF Cons.prems(1) e])
      (auto simp: wp_simps rest intro: Cons.prems)
qed

lemma wp_create_directories:
  assumes "calm w" "leads_to w p d" "\<And>w'. idle w w' \<Longrightarrow> Q () w'"
    "\<And>n w'. idle w w' \<Longrightarrow> \<not> faultless w \<Longrightarrow> E n w'"
  shows "wp (create_directories p) Q E w"
  using assms path_prefixes_lead [OF assms(2)]
  by (auto simp: create_directories_def wp_simps leads_to_def intro!: wp_create_prefixes)

end
