(* ===== verification/Posix_Calls.thy ===== *)
theory Posix_Calls
  imports Posix_Facts
begin

text \<open>
  One weakest-precondition rule per system call, under a schedule without interference, and
  the relation \<open>frame\<close> between file systems that differ in some entries of one directory only.
\<close>

section \<open>Rules for system calls\<close>

lemma wp_fsync:
  assumes "calm w" "\<And>n w'. idle w w' \<Longrightarrow> \<not> faultless w \<Longrightarrow> E n w'"
    "\<And>w'. idle w w' \<Longrightarrow> Q () (w'\<lparr>w_log := w_log w @ [Log_fsync i]\<rparr>)"
  shows "wp (sys_fsync i) Q E w"
  unfolding sys_fsync_def
  by (rule wp_syscall [OF assms(1)]) (use assms(2,3) idleD in \<open>auto simp: wp_simps\<close>)

lemma wp_lstat:
  assumes "calm w"
    "\<And>n w'. idle w w' \<Longrightarrow> \<not> faultless w \<Longrightarrow> n \<noteq> ENOENT \<Longrightarrow> E n w'"
    "\<And>n w'. idle w w' \<Longrightarrow> resolve w (w_cwd w) p False = Inl n \<Longrightarrow> E n w'"
    "\<And>i w'. idle w w' \<Longrightarrow> resolve w (w_cwd w) p False = Inr i \<Longrightarrow> inodes (w_fs w) i = None \<Longrightarrow> E ENOENT w'"
    "\<And>i nd w'. idle w w' \<Longrightarrow> resolve w (w_cwd w) p False = Inr i \<Longrightarrow> inodes (w_fs w) i = Some nd \<Longrightarrow>
       Q (stat_of nd) w'"
  shows "wp (sys_lstat p) Q E w"
  unfolding sys_lstat_def wp_bind wp_get by (rule wp_stat) (use assms in blast)+

lemma wp_fstat:
  assumes "calm w" "\<And>n w'. idle w w' \<Longrightarrow> \<not> faultless w \<Longrightarrow> E n w'"
    "\<And>w'. idle w w' \<Longrightarrow> inodes (w_fs w) i = None \<Longrightarrow> E ENOENT w'"
    "\<And>nd w'. idle w w' \<Longrightarrow> inodes (w_fs w) i = Some nd \<Longrightarrow> Q (stat_of nd) w'"
  shows "wp (sys_fstat i) Q E w"
  unfolding sys_fstat_def
  by (rule wp_syscall [OF assms(1)])
    (use assms(2-4) idleD in \<open>auto simp: wp_def stat_inode_def split: option.splits\<close>)

lemma wp_open:
  assumes "calm w" "\<not> o_creat flags"
    "\<And>n w'. idle w w' \<Longrightarrow> \<not> faultless w \<Longrightarrow> n \<noteq> ENOENT \<Longrightarrow> E n w'"
    "\<And>n w'. idle w w' \<Longrightarrow> resolve w (w_cwd w) p (\<not> o_nofollow flags) = Inl n \<Longrightarrow> E n w'"
    "\<And>i n w'. idle w w' \<Longrightarrow> resolve w (w_cwd w) p (\<not> o_nofollow flags) = Inr i \<Longrightarrow>
       open_existing flags (w_fs w) i = Inl n \<Longrightarrow> E n w'"
    "\<And>i w'. idle w w' \<Longrightarrow> resolve w (w_cwd w) p (\<not> o_nofollow flags) = Inr i \<Longrightarrow>
       open_existing flags (w_fs w) i = Inr i \<Longrightarrow> Q i w'"
  shows "wp (sys_open flags p mode) Q E w"
  unfolding sys_open_def wp_bind wp_get sys_openat_def
proof (rule wp_syscall [OF assms(1)], goal_cases)
  case (2 e w')
  have "open_existing flags (w_fs w) j = Inr k \<Longrightarrow> k = j" for j k
    by (auto simp: open_existing_def split: option.splits node.splits if_splits)
  then show ?case
    using assms(2) assms(4-6) [OF 2] resolve_idle [OF 2] idleD [OF 2]
    by (cases "resolve w (w_cwd w) p (\<not> o_nofollow flags)"; cases "open_existing flags (w_fs w)
          (projr (resolve w (w_cwd w) p (\<not> o_nofollow flags)))")
      (auto simp: wp_def Let_def)
qed (use assms(3) in blast)

lemma wp_open_directory:
  assumes "calm w" "leads_to w p d" "\<not> o_creat flags"
    "\<And>n w'. idle w w' \<Longrightarrow> \<not> faultless w \<Longrightarrow> E n w'" "\<And>w'. idle w w' \<Longrightarrow> Q d w'"
  shows "wp (sys_open flags p mode) Q E w"
proof -
  have r: "resolve w (w_cwd w) p f = Inr d" for f
    using assms(2) leads_to_walks [OF assms(2), of True] leads_to_walks [OF assms(2), of False]
    by (cases f) (auto simp: leads_to_def resolve_walks)
  have "open_existing flags (w_fs w) d = Inr d"
    using assms(2,3) by (auto simp: leads_to_def open_existing_def is_dir_def elim!: dir_entries_SomeE)
  with r show ?thesis
    by (intro wp_open [OF assms(1,3)]) (auto intro: assms(4,5))
qed

lemma wp_write:
  assumes "calm w" "inodes (w_fs w) i = Some nd" "i_node nd = Reg s"
    "\<And>e w'. idle w w' \<Longrightarrow> \<not> faultless w \<Longrightarrow> E e w'"
    "\<And>n w'. idle w w' \<Longrightarrow> n \<le> length b \<Longrightarrow>
       Q n (w'\<lparr>w_fs := put_inode i (nd\<lparr>i_node := Reg (overwrite off (take n b) s)\<rparr>) (w_fs w)\<rparr>)"
  shows "wp (sys_write i off b) Q E w"
  unfolding sys_write_def
  by (rule wp_syscall [OF assms(1)])
    (use assms(2-5) idleD in \<open>auto simp: wp_def transfer_def Let_def split: option.split\<close>)

lemma wp_read:
  assumes "calm w" "inodes (w_fs w) i = Some nd" "i_node nd = Reg s"
    "\<And>e w'. idle w w' \<Longrightarrow> \<not> faultless w \<Longrightarrow> E e w'"
    "\<And>k w'. idle w w' \<Longrightarrow> 0 < k \<Longrightarrow> Q (take k (take count (drop off s))) w'"
  shows "wp (sys_read i off count) Q E w"
  unfolding sys_read_def
  by (rule wp_syscall [OF assms(1)])
    (use assms(2-5) idleD in \<open>auto simp: wp_def\<close>)

text \<open>Making a file under a new name.\<close>

definition add_file :: "ino \<Rightarrow> string \<Rightarrow> inode \<Rightarrow> fs \<Rightarrow> fs" where
  "add_file d n nd fs =
     (put_entry d n (Some (next_ino fs)) (put_inode (next_ino fs) nd fs))\<lparr>next_ino := Suc (next_ino fs)\<rparr>"

definition new_file :: "world \<Rightarrow> u32 \<Rightarrow> string \<Rightarrow> inode" where
  "new_file w mode s =
     \<lparr>i_node = Reg s, i_mode = mode AND NOT (w_umask w), i_uid = w_euid w, i_gid = w_egid w\<rparr>"

lemma new_file_update [simp]: "(new_file w mode s)\<lparr>i_node := Reg t\<rparr> = new_file w mode t"
  by (simp add: new_file_def)

lemma i_node_new_file [simp]: "i_node (new_file w mode s) = Reg s"
  by (simp add: new_file_def)

lemma new_file_evolves: "evolves w w' \<Longrightarrow> new_file w' mode s = new_file w mode s"
  by (simp add: new_file_def evolves_def ctx_def)

lemma wp_create:
  assumes "calm w" "o_creat flags" "o_excl flags" "is_dir (w_fs w) d" "plain_name n" "CHR 0x00 \<notin> set n"
    "\<And>e w'. idle w w' \<Longrightarrow> \<not> faultless w \<Longrightarrow> e \<noteq> EEXIST \<Longrightarrow> E e w'"
    "\<And>w'. idle w w' \<Longrightarrow> length n > 255 \<Longrightarrow> E ENAMETOOLONG w'"
    "\<And>w'. idle w w' \<Longrightarrow> length n \<le> 255 \<Longrightarrow> entry (w_fs w) d n \<noteq> None \<Longrightarrow> E EEXIST w'"
    "\<And>w'. idle w w' \<Longrightarrow> length n \<le> 255 \<Longrightarrow> entry (w_fs w) d n = None \<Longrightarrow>
       Q (next_ino (w_fs w)) (w'\<lparr>w_fs := add_file d n (new_file w mode []) (w_fs w)\<rparr>)"
  shows "wp (sys_openat flags d n mode) Q E w"
  unfolding sys_openat_def
proof (rule wp_syscall [OF assms(1)], goal_cases)
  case (2 e w')
  obtain es where es: "dir_entries (w_fs w) d = Some es" using assms(4) by (auto simp: is_dir_def)
  have nf: "new_file w' mode [] = new_file w mode []" using 2 by (intro new_file_evolves) (rule idleD)
  have "create_file d n (Reg []) mode w' =
      (Inr (next_ino (w_fs w)), w'\<lparr>w_fs := add_file d n (new_file w mode []) (w_fs w)\<rparr>)"
    using nf by (simp add: idleD [OF 2] create_file_def add_file_def new_file_def Let_def)
  then show ?case
    using assms(2,3,5,6) assms(8-10) [OF 2] es
    by (cases "es n") (auto simp: wp_def entry_def idleD [OF 2] Let_def)
qed (use assms(7) in blast)

lemma wp_unlinkat:
  assumes "calm w" "\<And>e w'. idle w w' \<Longrightarrow> \<not> faultless w \<Longrightarrow> e \<noteq> ENOENT \<Longrightarrow> E e w'"
    "\<And>w'. idle w w' \<Longrightarrow> entry (w_fs w) d n = None \<Longrightarrow> E ENOENT w'"
    "\<And>i w'. idle w w' \<Longrightarrow> entry (w_fs w) d n = Some i \<Longrightarrow> is_dir (w_fs w) i \<Longrightarrow> E EISDIR w'"
    "\<And>i w'. idle w w' \<Longrightarrow> entry (w_fs w) d n = Some i \<Longrightarrow> \<not> is_dir (w_fs w) i \<Longrightarrow>
       Q () (w'\<lparr>w_fs := put_entry d n None (w_fs w)\<rparr>)"
  shows "wp (sys_unlinkat d n) Q E w"
  unfolding sys_unlinkat_def
  by (rule wp_syscall [OF assms(1)])
    (use assms(2-5) idleD in \<open>auto simp: wp_def split: option.splits\<close>)

lemma wp_renameat:
  assumes "calm w" "entry (w_fs w) d old = Some i" "\<not> is_dir (w_fs w) i"
    "\<And>e w'. idle w w' \<Longrightarrow> \<not> faultless w \<Longrightarrow> E e w'"
    "\<And>w'. idle w w' \<Longrightarrow> length new > 255 \<Longrightarrow> E ENAMETOOLONG w'"
    "\<And>j w'. idle w w' \<Longrightarrow> entry (w_fs w) d new = Some j \<Longrightarrow> is_dir (w_fs w) j \<Longrightarrow> E EISDIR w'"
    "\<And>w'. idle w w' \<Longrightarrow> length new \<le> 255 \<Longrightarrow>
       (\<And>j. entry (w_fs w) d new = Some j \<Longrightarrow> \<not> is_dir (w_fs w) j) \<Longrightarrow>
       Q () (w'\<lparr>w_fs := put_entry d new (Some i) (put_entry d old None (w_fs w)),
                w_log := w_log w @ [Log_rename d old new]\<rparr>)"
  shows "wp (sys_renameat d old new) Q E w"
  unfolding sys_renameat_def
proof (rule wp_syscall [OF assms(1)], goal_cases)
  case (2 e w')
  then show ?case
    using assms(2,3) assms(5-7) [OF 2]
    by (cases "entry (w_fs w) d new") (auto simp: wp_def idleD [OF 2])
qed (use assms(4) in blast)

lemma wp_chmod:
  assumes "calm w" "resolve w (w_cwd w) p True = Inr d" "\<And>e w'. idle w w' \<Longrightarrow> \<not> faultless w \<Longrightarrow> E e w'"
    "\<And>w'. idle w w' \<Longrightarrow> Q () (w'\<lparr>w_fs := chmod_inode d mode (w_fs w)\<rparr>)"
  shows "wp (sys_chmod p mode) Q E w"
  unfolding sys_chmod_def wp_bind wp_get sys_chmodat_def
proof (rule wp_syscall [OF assms(1)], goal_cases)
  case (2 e w')
  then show ?case
    using assms(2) assms(4) [OF 2] by (simp add: wp_def resolve_idle [OF 2] idleD [OF 2])
qed (use assms(3) in blast)

section \<open>Resolution and attributes\<close>

text \<open>Resolution looks at what the inodes are, not at their attributes.\<close>

lemma walks_nodes:
  assumes "walks fs root k cur ns follow i" "\<And>j. node_at fs' j = node_at fs j"
  shows "walks fs' root k cur ns follow i"
  using assms by (induction rule: walks.induct) (auto intro: walks.intros)

lemma resolve_walks_c_str:
  "resolve w base p follow = Inr i \<longleftrightarrow> c_str p \<noteq> [] \<and>
     walks (w_fs w) (w_root w) 40 (if is_absolute (c_str p) then w_root w else base)
       (path_names (c_str p)) (follow \<or> last (c_str p) = CHR ''/'') i"
  by (simp add: resolve_def Let_def walk_iff)

text \<open>A name, which ends at its first NUL byte, leads to its entry.\<close>

lemma resolve_entry:
  assumes "plain_name (c_str n)" "length (c_str n) \<le> 255" "entry (w_fs w) d (c_str n) = Some i"
    "node_at (w_fs w) i = Some nd" "\<forall>t. nd \<noteq> Lnk t"
  shows "resolve w d n False = Inr i"
proof -
  obtain es where es: "node_at (w_fs w) d = Some (Dir es)" "es (c_str n) = Some i"
    using assms(3) by (auto simp: entry_def dir_entries_node split: option.splits node.splits)
  have "walks (w_fs w) (w_root w) 40 d [c_str n] False i"
    by (rule walks.down [OF es(1) assms(2) es(2) assms(4,5)]) (rule walks.here)
  then show ?thesis
    using assms(1) plain_last [OF assms(1)] by (simp add: resolve_walks_c_str)
qed

lemma wp_openat_found:
  assumes "calm w" "\<not> o_creat flags" "o_nofollow flags" "resolve w d n False = Inr i"
    "open_existing flags (w_fs w) i = Inr i"
    and E: "\<And>e w'. idle w w' \<Longrightarrow> \<not> faultless w \<Longrightarrow> E e w'"
    and Q: "\<And>w'. idle w w' \<Longrightarrow> Q i w'"
  shows "wp (sys_openat flags d n mode) Q E w"
  unfolding sys_openat_def
  by (rule wp_syscall [OF assms(1)])
    (use assms(2-5) E Q resolve_idle in \<open>auto simp: wp_def Let_def idleD(1)\<close>)

lemma resolve_nodes:
  assumes "resolve w base p follow = Inr i" "\<And>j. node_at (w_fs w') j = node_at (w_fs w) j"
    "w_root w' = w_root w"
  shows "resolve w' base p follow = Inr i"
  unfolding resolve_walks_c_str assms(3)
  using assms(1) [unfolded resolve_walks_c_str] by (blast intro: walks_nodes [OF _ assms(2)])

lemma resolve_follow:
  "resolve w base p False = Inr i \<Longrightarrow> is_dir (w_fs w) i \<Longrightarrow> resolve w base p follow = Inr i"
  using walks_follow by (cases follow) (auto simp: resolve_walks_c_str)

end
