(* ===== verification/Quadlet_Install_Facts.thy ===== *)
theory Quadlet_Install_Facts
  imports Quadlet_Install Posix_Calls
begin

text \<open>
  What the operations of \<open>Quadlet_Install\<close> do to the file system, for every schedule of
  failures and short transfers without interference: \<open>frame\<close> says what stays as it was, and
  each operation has a weakest-precondition rule.
\<close>

section \<open>Frames\<close>

text \<open>
  \<open>frame u N fs fs'\<close>: in \<open>fs'\<close>, the directory \<open>u\<close> differs from \<open>fs\<close> at most in the names \<open>N\<close>,
  every other file is the same file with the same contents and attributes, every other
  directory has the same entries, and nothing changes its owner.
\<close>

definition owners :: "fs \<Rightarrow> ino \<Rightarrow> (u32 \<times> u32) option" where
  "owners fs i = map_option (\<lambda>nd. (i_uid nd, i_gid nd)) (inodes fs i)"

definition frame :: "ino \<Rightarrow> string set \<Rightarrow> fs \<Rightarrow> fs \<Rightarrow> bool" where
  "frame u N fs fs' \<longleftrightarrow> fs_wf fs \<and> fs_wf fs' \<and> is_dir fs u \<and> is_dir fs' u \<and> next_ino fs \<le> next_ino fs'
     \<and> (\<forall>n. n \<notin> N \<longrightarrow> entry fs' u n = entry fs u n)
     \<and> (\<forall>j < next_ino fs. j \<noteq> u \<longrightarrow> node_at fs' j = node_at fs j)
     \<and> (\<forall>j < next_ino fs. \<not> is_dir fs j \<longrightarrow> inodes fs' j = inodes fs j)
     \<and> (\<forall>j < next_ino fs. owners fs' j = owners fs j)"

lemma owners_put [simp]:
  "owners (put_entry d n t fs) j = owners fs j" "owners (chmod_inode i m fs) j = owners fs j"
  "owners (fs\<lparr>next_ino := k\<rparr>) j = owners fs j" "j \<noteq> i \<Longrightarrow> owners (put_inode i nd fs) j = owners fs j"
  by (auto simp: owners_def put_entry_def put_inode_def chmod_inode_def split: option.split node.split)

lemma is_dir_less: "fs_wf fs \<Longrightarrow> is_dir fs u \<Longrightarrow> u < next_ino fs"
  unfolding fs_wf_def is_dir_def dir_entries_def by (metis not_less option.case(1))

lemma is_dir_frame: "frame u N fs fs' \<Longrightarrow> j < next_ino fs \<Longrightarrow> is_dir fs' j = is_dir fs j"
  by (cases "j = u") (simp_all add: frame_def is_dir_node [of _ j])

lemma frame_refl: "fs_wf fs \<Longrightarrow> is_dir fs u \<Longrightarrow> frame u N fs fs"
  by (simp add: frame_def)

lemma frame_trans: "frame u N fs fs' \<Longrightarrow> frame u N fs' fs'' \<Longrightarrow> frame u N fs fs''"
  using is_dir_frame [of u N fs fs'] by (auto simp: frame_def)

lemma frame_mono: "frame u N fs fs' \<Longrightarrow> N \<subseteq> N' \<Longrightarrow> frame u N' fs fs'"
  by (auto simp: frame_def)

lemma frame_restored:
  "frame u (insert n N) fs fs' \<Longrightarrow> entry fs' u n = entry fs u n \<Longrightarrow> frame u N fs fs'"
  by (auto simp: frame_def)

lemma node_at_put_entry_other [simp]: "j \<noteq> d \<Longrightarrow> node_at (put_entry d n t fs) j = node_at fs j"
  by (simp add: node_at_def)

lemma fs_wf_put_entry:
  assumes "fs_wf fs" "\<And>i. t = Some i \<Longrightarrow> i < next_ino fs"
  shows "fs_wf (put_entry d n t fs)"
proof (cases "is_dir fs d")
  case True
  then have "d < next_ino fs" using assms(1) by (simp add: is_dir_less)
  with assms True show ?thesis by (auto simp: fs_wf_def split: if_splits)
next
  case False
  then have "put_entry d n t fs = fs"
    by (auto simp: put_entry_def is_dir_def dir_entries_def split: option.splits node.splits)
  with assms(1) show ?thesis by simp
qed

lemma frame_put_entry:
  assumes "frame u N fs fs'" "n \<in> N" "\<And>i. t = Some i \<Longrightarrow> i < next_ino fs'"
  shows "frame u N fs (put_entry u n t fs')"
proof -
  have "inodes (put_entry u n t fs') j = inodes fs j" if "j < next_ino fs" "\<not> is_dir fs j" for j
    using assms(1) that by (cases "j = u") (auto simp: frame_def)
  with assms show ?thesis by (auto simp: frame_def intro!: fs_wf_put_entry)
qed

lemma frame_put_inode:
  assumes "frame u N fs fs'" "next_ino fs \<le> i" "i < next_ino fs'" "i_node nd = Reg s"
  shows "frame u N fs (put_inode i nd fs')"
proof -
  have iu: "i \<noteq> u" using assms(1,2) is_dir_less [of fs u] by (auto simp: frame_def)
  then have e: "entry (put_inode i nd fs') d n = (if d = i then None else entry fs' d n)"
      and d: "is_dir (put_inode i nd fs') u = is_dir fs' u" for d n
    by (simp_all add: entry_def is_dir_def assms(4))
  have "fs_wf (put_inode i nd fs')"
    using assms(1,3) by (auto simp: frame_def fs_wf_def e)
  moreover have "node_at (put_inode i nd fs') j = node_at fs' j" if "j \<noteq> i" for j
    using that by (simp add: node_at_def)
  ultimately show ?thesis using assms(1,2) iu d by (auto simp: frame_def e)
qed

lemma frame_add_file:
  assumes "frame u N fs fs'" "n \<in> N" "i_node nd = Reg s"
  shows "frame u N fs (add_file u n nd fs')"
proof -
  let ?i = "next_ino fs'" and ?fs = "fs'\<lparr>next_ino := Suc (next_ino fs')\<rparr>"
  have "frame u N fs ?fs"
    using assms(1) by (auto simp: frame_def fs_wf_def entry_def is_dir_def dir_entries_def node_at_def less_SucI)
  then have "frame u N fs (put_entry u n (Some ?i) (put_inode ?i nd ?fs))"
    using assms by (intro frame_put_entry frame_put_inode) (auto simp: frame_def)
  moreover have "put_entry u n (Some ?i) (put_inode ?i nd ?fs) = add_file u n nd fs'"
    by (simp add: add_file_def put_entry_def put_inode_def split: option.splits node.splits)
  ultimately show ?thesis by simp
qed

lemma next_ino_chmod [simp]: "next_ino (chmod_inode i m fs) = next_ino fs"
  by (simp add: chmod_inode_def split: option.split)

lemma fs_wf_chmod [simp]: "fs_wf fs \<Longrightarrow> fs_wf (chmod_inode i m fs)"
  by (auto simp: fs_wf_def inodes_chmod)

lemma frame_chmod:
  assumes "frame u N fs fs'" "is_dir fs d"
  shows "frame u N fs (chmod_inode d m fs')"
  using assms by (auto simp: frame_def inodes_chmod)

lemma agree_but_frame: "frame u N fs fs' \<Longrightarrow> agree_but u fs fs'"
proof -
  assume f: "frame u N fs fs'"
  have "j < next_ino fs" if "node_at fs j \<noteq> None" for j
    using f that by (auto simp: frame_def fs_wf_def node_at_def not_less [symmetric])
  with f show ?thesis by (auto simp: frame_def agree_but_def)
qed

section \<open>Writing and reading\<close>

lemma put_inode_twice [simp]: "put_inode i a (put_inode i b fs) = put_inode i a fs"
  by (simp add: put_inode_def)

lemma overwrite_append: "overwrite (length s) b s = s @ b"
  by (simp add: overwrite_def)

text \<open>
  \<open>write_all\<close> appends everything, or fails part of the way after an injected failure.
\<close>

lemma wp_write_all:
  assumes "calm w" "inodes (w_fs w) i = Some nd" "i_node nd = Reg s" "off = length s"
    "\<And>w'. evolves w w' \<Longrightarrow> w_fs w' = put_inode i (nd\<lparr>i_node := Reg (s @ c)\<rparr>) (w_fs w) \<Longrightarrow> Q () w'"
    "\<And>e w' t. evolves w w' \<Longrightarrow> \<not> faultless w \<Longrightarrow> kind e = Filesystem \<Longrightarrow>
       w_fs w' = put_inode i (nd\<lparr>i_node := Reg (s @ t)\<rparr>) (w_fs w) \<Longrightarrow> E e w'"
  shows "wp (write_all i off c) Q E w"
  using assms
proof (induction i off c w arbitrary: s nd rule: write_all.induct)
  case (1 i off c w)
  have same: "put_inode i (nd\<lparr>i_node := Reg s\<rparr>) (w_fs w) = w_fs w"
    using "1.prems"(2,3) by (simp add: put_inode_def fun_upd_idem)
  show ?case
  proof (cases "c = []")
    case True
    then have "write_all i off c w = (Inr (), w)" by (simp add: write_all.simps [of i off "[]" w])
    then show ?thesis using "1.prems" same True by (simp add: wp_def)
  next
    case False
    obtain r w1 where r: "sys_write i off c w = (r, w1)" by fastforce
    show ?thesis
    proof (cases r)
      case (Inl e)
      have e: "idle w w1 \<and> \<not> faultless w"
        by (rule wp_Inl [OF wp_write [OF "1.prems"(1-3)] r [unfolded Inl], where Q = "\<lambda>_ _. True"]) auto
      show ?thesis
      proof (cases "e = EINTR")
        case True
        have "wp (write_all i off c) Q E w1"
        proof (rule "1.IH"(1) [OF False r [symmetric] Inl True])
          show "calm w1" using e by (auto intro: idle_calm)
          show "inodes (w_fs w1) i = Some nd" using e "1.prems"(2) idleD(1) [of w w1] by simp
          show "i_node nd = Reg s" "off = length s" by fact+
        qed (use e idleD(1,2) [of w w1] in \<open>auto intro: evolves_trans [of w w1] "1.prems"(5,6)\<close>)
        with r False Inl True show ?thesis by (simp add: wp_def write_all.simps [of i off c w])
      next
        case False
        then show ?thesis using \<open>c \<noteq> []\<close> r Inl "1.prems"(6) [of w1 _ "[]"] e idleD(1,2) [of w w1] same
          by (simp add: wp_def write_all.simps [of i off c w] os_error_def)
      qed
    next
      case (Inr n)
      let ?nd = "nd\<lparr>i_node := Reg (s @ take n c)\<rparr>"
      have n: "n \<le> length c \<and> evolves w w1 \<and> w_fs w1 = put_inode i ?nd (w_fs w)"
        by (rule wp_Inr [OF wp_write [OF "1.prems"(1-3)] r [unfolded Inr], where E = "\<lambda>_ _. True"])
          (auto simp: overwrite_append "1.prems"(4) idleD)
      have "wp (write_all i (off + n) (drop n c)) Q E w1"
      proof (rule "1.IH"(2) [OF False r [symmetric] Inr])
        show "calm w1" using n by (auto intro: evolves_calm)
        show "inodes (w_fs w1) i = Some ?nd" using n by simp
        show "i_node ?nd = Reg (s @ take n c)" by simp
        show "off + n = length (s @ take n c)" using n "1.prems"(4) by simp
      qed (use n evolvesD(13) [of w w1] in \<open>auto intro: evolves_trans [of w w1] "1.prems"(5,6)\<close>)
      with r False Inr show ?thesis by (simp add: wp_def write_all.simps [of i off c w])
    qed
  qed
qed


lemma take_prefix_length: "t = take k s \<Longrightarrow> t = take (length t) s"
  by (auto simp: min_def)

text \<open>\<open>read_loop\<close> returns the whole file.\<close>

lemma wp_read_loop:
  assumes "calm w" "inodes (w_fs w) i = Some nd" "i_node nd = Reg s" "out = take (length out) s"
    "\<And>w'. idle w w' \<Longrightarrow> Q s w'"
    "\<And>e w'. idle w w' \<Longrightarrow> \<not> faultless w \<Longrightarrow> kind e = Filesystem \<Longrightarrow> E e w'"
  shows "wp (read_loop path i (length s) out) Q E w"
  using assms
proof (induction path i "length s" out w rule: read_loop.induct)
  case (1 path i out w)
  note step = read_loop.simps [of path i "length s" out w]
  show ?case
  proof (cases "length out < length s")
    case False
    then have "out = s" using "1.prems"(4) by (metis linorder_not_less take_all)
    moreover have "read_loop path i (length s) s w = (Inr s, w)"
      by (simp add: read_loop.simps [of path i "length s" s w])
    ultimately show ?thesis using "1.prems"(1,5) by (simp add: wp_def idle_refl)
  next
    case True
    then have nn: "\<not> \<not> length out < length s" by simp
    obtain r w1 where r: "sys_read i (length out) (length s - length out) w = (r, w1)" by fastforce
    show ?thesis
    proof (cases r)
      case (Inl e)
      have e: "idle w w1 \<and> \<not> faultless w"
        by (rule wp_Inl [OF wp_read [OF "1.prems"(1-3)] r [unfolded Inl], where Q = "\<lambda>_ _. True"]) auto
      show ?thesis
      proof (cases "e = EINTR")
        case e': True
        have "wp (read_loop path i (length s) out) Q E w1"
          by (rule "1.hyps"(1) [OF nn r [symmetric] Inl e'])
            (use e "1.prems" idleD(1) [of w w1] in \<open>auto intro: idle_calm idle_trans [of w w1]\<close>)
        with r True Inl e' show ?thesis by (simp add: wp_def step)
      next
        case False
        with r Inl True e "1.prems"(6) show ?thesis by (simp add: wp_def step os_error_def)
      qed
    next
      case (Inr t)
      have t: "idle w w1 \<and> (\<exists>k > 0. t = take k (take (length s - length out) (drop (length out) s)))"
        by (rule wp_Inr [OF wp_read [OF "1.prems"(1-3)] r [unfolded Inr], where E = "\<lambda>_ _. True"]) auto
      then obtain k where k: "k > 0" "t = take k (drop (length out) s)" by auto
      have ne: "t \<noteq> []" using k True by simp
      have app: "out @ t = take (length (out @ t)) s"
      proof -
        have "out @ t = take (length out + k) s"
          unfolding take_add k(2) by (rule arg_cong2 [where f = "(@)", OF "1.prems"(4) refl])
        then show ?thesis by (rule take_prefix_length)
      qed
      have "wp (read_loop path i (length s) (out @ t)) Q E w1"
      proof (rule "1.hyps"(2) [OF nn r [symmetric] Inr ne])
        show "out @ t = take (length (out @ t)) s" by (rule app)
      qed (use t "1.prems" idleD(1,2) [of w w1] evolvesD(13) [of w w1]
            in \<open>auto intro: idle_calm idle_trans [of w w1]\<close>)
      with r True Inr ne show ?thesis by (simp add: wp_def step)
    qed
  qed
qed

section \<open>Directories\<close>

lemma stat_of_dir: "st_type (stat_of nd) = S_IFDIR \<longleftrightarrow> (\<exists>es. i_node nd = Dir es)"
  by (simp add: stat_of_def split: node.split)

definition safe_dir :: "world \<Rightarrow> quadlet_install_layout \<Rightarrow> path \<Rightarrow> ino \<Rightarrow> bool" where
  "safe_dir w layout dir d \<longleftrightarrow> resolve w (w_cwd w) dir False = Inr d \<and> is_dir (w_fs w) d \<and>
     (\<exists>nd. inodes (w_fs w) d = Some nd \<and> check_owner layout (stat_of nd) = Inr ())"

lemma check_owner_kind: "check_owner layout st = Inl e \<Longrightarrow> kind e = Filesystem"
  by (auto simp: check_owner_def bind_result_Inl guard_Inl split: option.splits)

lemma check_owner_mode: "check_owner layout (stat_of (nd\<lparr>i_mode := m\<rparr>)) = check_owner layout (stat_of nd)"
  by (simp add: check_owner_def stat_of_def split: option.split)

lemma wp_secure_directory:
  assumes "calm w"
    "\<And>d w'. evolves w w' \<Longrightarrow> safe_dir w layout dir d \<Longrightarrow>
       w_fs w' = chmod_inode d mode_0755 (w_fs w) \<Longrightarrow> Q () w'"
    "\<And>e w'. evolves w w' \<Longrightarrow> kind e = Filesystem \<Longrightarrow> \<not> faultless w \<or> (\<nexists>d. safe_dir w layout dir d) \<Longrightarrow>
       w_fs w' = w_fs w \<or> (\<exists>d. safe_dir w layout dir d \<and> w_fs w' = chmod_inode d mode_0755 (w_fs w)) \<Longrightarrow>
       E e w'"
  shows "wp (secure_directory dir layout) Q E w"
proof -
  have unsafe: "E e w'" if "idle w w'" "kind e = Filesystem" "\<not> faultless w \<or> (\<nexists>d. safe_dir w layout dir d)" for e w'
    using assms(3) [of w' e] that idleD(1,2) [of w w'] by simp
  have restat: "wp (sys_lstat dir)
      (\<lambda>st w. if st_perm st AND mode_0022 = 0 then Q () w else E e w)
      (\<lambda>n w. E (call_error Filesystem msg n w) w) (w1\<lparr>w_fs := chmod_inode d mode_0755 (w_fs w)\<rparr>)"
    if d: "safe_dir w layout dir d" and w1: "evolves w w1" for d w1 e msg
  proof -
    let ?w = "w1\<lparr>w_fs := chmod_inode d mode_0755 (w_fs w)\<rparr>"
    obtain nd where nd: "inodes (w_fs w) d = Some nd" using d by (auto simp: safe_dir_def)
    have ev: "evolves w ?w" using w1 by simp
    have r: "resolve ?w (w_cwd ?w) dir False = Inr d"
      using d evolvesD(1,2) [OF ev] by (auto simp: safe_dir_def intro!: resolve_nodes [of w])
    have "calm ?w" using ev by (rule evolves_calm)
    then show ?thesis
    proof (rule wp_lstat, goal_cases)
      case (1 n w')
      show ?case
        by (rule assms(3))
          (use 1 d evolves_trans [OF ev idleD(2) [OF 1(1)]] idleD(1) [OF 1(1)] evolvesD(13) [OF ev] in auto)
    next
      case (4 i nd' w')
      then have "i = d" "nd' = nd\<lparr>i_mode := mode_0755\<rparr>" using r nd by (auto simp: inodes_chmod)
      then show ?case
        using assms(2) [of w' d] d evolves_trans [OF ev idleD(2) [OF 4(1)]] idleD(1) [OF 4(1)]
        by (simp add: stat_of_def)
    qed (use r nd in \<open>auto simp: inodes_chmod\<close>)
  qed
  show ?thesis
    unfolding secure_directory_def wp_bind wp_or_os_error wp_guard
  proof (rule wp_lstat [OF assms(1)], goal_cases)
    case (4 i nd w1)
    note ev = idleD(2) [OF 4(1)]
    show ?case
    proof (cases "safe_dir w layout dir i")
      case True
      then have ok: "st_type (stat_of nd) = S_IFDIR" "check_owner layout (stat_of nd) = Inr ()"
        using 4 by (auto simp: safe_dir_def stat_of_dir is_dir_node node_at_def)
      have r: "resolve w1 (w_cwd w1) dir True = Inr i"
        using True resolve_follow [of w "w_cwd w" dir i True] resolve_idle [OF 4(1)] idleD [OF 4(1)]
        by (simp add: safe_dir_def)
      show ?thesis
        unfolding ok wp_lift if_True simp_thms sum.case
      proof (rule wp_chmod [OF idle_calm [OF 4(1)] r], goal_cases)
        case (1 e w')
        then show ?case using idle_trans [OF 4(1) 1(1)] evolvesD(13) [OF ev] by (auto intro: unsafe)
      next
        case (2 w')
        then show ?case using restat [OF True evolves_trans [OF ev idleD(2) [OF 2]]] idleD(1) [OF 4(1)] by simp
      qed
    next
      case False
      then have no: "\<nexists>d. safe_dir w layout dir d" using 4(2) by (auto simp: safe_dir_def)
      show ?thesis
      proof (cases "st_type (stat_of nd) = S_IFDIR")
        case True
        then have "is_dir (w_fs w) i" using 4(3) by (auto simp: stat_of_dir is_dir_node node_at_def)
        then obtain e where "check_owner layout (stat_of nd) = Inl e"
          using False 4 by (cases "check_owner layout (stat_of nd)") (auto simp: safe_dir_def)
        with True unsafe [OF 4(1) check_owner_kind disjI2 [OF no]] show ?thesis by (simp add: wp_lift)
      next
        case False
        with unsafe [OF 4(1) _ disjI2 [OF no]] show ?thesis by simp
      qed
    qed
  qed (auto intro!: unsafe simp: safe_dir_def is_dir_def dir_entries_def split: option.splits)
qed

end
