(* ===== verification/Quadlet_Atomic.thy ===== *)
theory Quadlet_Atomic
  imports Quadlet_Install_Facts
begin

text \<open>
  Rules for the composed operations of \<open>QuadletInstaller\<close> on an installation tree that exists
  (\<open>ready\<close>): writing a file is atomic, removing and reading one do what they say.
\<close>

section \<open>An installation tree\<close>

text \<open>
  \<open>anchored w p u d\<close>: the path \<open>p\<close> leads to the directory \<open>d\<close>, and does so without looking into
  the directory \<open>u\<close>. In a tree that is ready, \<open>a\<close> is the administrator's root of the layout and
  \<open>u\<close> the directory of the user.
\<close>

definition anchored :: "world \<Rightarrow> path \<Rightarrow> ino \<Rightarrow> ino \<Rightarrow> bool" where
  "anchored w p u d \<longleftrightarrow> p \<noteq> [] \<and> CHR 0x00 \<notin> set p \<and> last p \<noteq> CHR ''/''
     \<and> resolve (w\<lparr>w_fs := hollow u (w_fs w)\<rparr>) (w_cwd w) p False = Inr d"

definition ready :: "world \<Rightarrow> quadlet_install_layout \<Rightarrow> u32 \<Rightarrow> ino \<Rightarrow> ino \<Rightarrow> bool" where
  "ready w layout uid a u \<longleftrightarrow> fs_wf (w_fs w) \<and> is_dir (w_fs w) a \<and> is_dir (w_fs w) u
     \<and> anchored w (admin_user_root layout) u a \<and> anchored w (user_directory layout uid) u u"

lemma anchored_walks:
  "anchored w p u d \<longleftrightarrow> p \<noteq> [] \<and> CHR 0x00 \<notin> set p \<and> last p \<noteq> CHR ''/''
     \<and> walks (hollow u (w_fs w)) (w_root w) 40 (start_of w p) (path_names p) False d"
  by (auto simp: anchored_def resolve_walks_c_str start_of_def)

lemma anchored_sched [simp]: "anchored (w\<lparr>w_sched := s\<rparr>) p u d = anchored w p u d"
  by (simp add: anchored_walks start_of_def)

lemma agree_but_refl: "is_dir fs u \<Longrightarrow> agree_but u fs fs"
  by (simp add: agree_but_def)

lemma agree_but_hollow: "agree_but u fs fs' \<Longrightarrow> agree_but u fs (hollow u fs')"
  by (auto simp: agree_but_def node_at_hollow is_dir_node)

lemma anchored_leads:
  "anchored w p u d \<Longrightarrow> is_dir (w_fs w) u \<Longrightarrow> is_dir (w_fs w) d \<Longrightarrow> leads_to w p d"
  using walks_hollow [OF _ agree_but_refl, of u "w_fs w"]
  by (auto simp: anchored_walks leads_to_def resolve_walks)

lemma anchored_frame:
  assumes "anchored w p u d" "evolves w w'" "frame u N (w_fs w) (w_fs w')"
  shows "anchored w' p u d"
  using assms(1) walks_hollow [OF _ agree_but_hollow [OF agree_but_frame [OF assms(3)]]]
    evolvesD(1,2) [OF assms(2)]
  by (auto simp: anchored_walks start_of_def)

lemma ready_frame:
  assumes "ready w layout uid a u" "evolves w w'" "frame u N (w_fs w) (w_fs w')"
  shows "ready w' layout uid a u"
  using assms anchored_frame [OF _ assms(2,3)] is_dir_less [of "w_fs w" a] is_dir_frame [OF assms(3), of a]
  by (auto simp: ready_def frame_def)

lemma ready_leads:
  assumes "ready w layout uid a u"
  shows "leads_to w (admin_user_root layout) a" "leads_to w (user_directory layout uid) u"
  using assms by (auto simp: ready_def intro: anchored_leads)

definition owner_ok :: "fs \<Rightarrow> quadlet_install_layout \<Rightarrow> ino \<Rightarrow> bool" where
  "owner_ok fs layout d \<longleftrightarrow> (\<exists>nd. inodes fs d = Some nd \<and> check_owner layout (stat_of nd) = Inr ())"

lemma owner_ok_chmod [simp]: "owner_ok (chmod_inode i m fs) layout d = owner_ok fs layout d"
  by (auto simp: owner_ok_def inodes_chmod check_owner_mode)

lemma leads_to_nodes:
  assumes "leads_to w p d" "evolves w w'" "\<And>j. node_at (w_fs w') j = node_at (w_fs w) j"
  shows "leads_to w' p d"
  using assms resolve_nodes [OF _ assms(3)] evolvesD(1,2) [OF assms(2)]
  by (auto simp: leads_to_def is_dir_node)

lemma wp_ensure_directory_safe:
  assumes "calm w" "leads_to w p d"
    "\<And>w'. evolves w w' \<Longrightarrow> owner_ok (w_fs w) layout d \<Longrightarrow> w_fs w' = chmod_inode d mode_0755 (w_fs w) \<Longrightarrow> Q () w'"
    "\<And>e w'. evolves w w' \<Longrightarrow> kind e = Filesystem \<Longrightarrow> \<not> faultless w \<or> \<not> owner_ok (w_fs w) layout d \<Longrightarrow>
       w_fs w' = w_fs w \<or> w_fs w' = chmod_inode d mode_0755 (w_fs w) \<Longrightarrow> E e w'"
  shows "wp (ensure_directory_safe p layout) Q E w"
  unfolding ensure_directory_safe_def wp_bind wp_catch wp_get wp_fail
proof (rule wp_create_directories [OF assms(1,2)], goal_cases)
  case (1 w1)
  have safe: "safe_dir w1 layout p i \<longleftrightarrow> i = d \<and> owner_ok (w_fs w) layout d" for i
    using assms(2) resolve_idle [OF 1] idleD [OF 1] by (auto simp: safe_dir_def leads_to_def owner_ok_def)
  show ?case
  proof (rule wp_secure_directory [OF idle_calm [OF 1]], goal_cases)
    case (1 d' w')
    then show ?case using assms(3) [of w'] safe idleD(1,2) [OF \<open>idle w w1\<close>] evolves_trans by auto
  next
    case (2 e w')
    then show ?case
      using assms(4) [of w' e] safe idleD(1,2) [OF \<open>idle w w1\<close>] evolves_trans [of w w1 w'] evolvesD(13) [of w w1] by auto
  qed
next
  case (2 n w')
  then show ?case using assms(4) [of w'] idleD(1,2) [of w w'] by simp
qed

lemma wp_ensure_admin_tree:
  assumes "calm w" "ready w layout uid a u"
    "\<And>w'. evolves w w' \<Longrightarrow> owner_ok (w_fs w) layout a \<Longrightarrow> owner_ok (w_fs w) layout u \<Longrightarrow>
       frame u {} (w_fs w) (w_fs w') \<Longrightarrow> Q () w'"
    "\<And>e w'. evolves w w' \<Longrightarrow> kind e = Filesystem \<Longrightarrow>
       \<not> faultless w \<or> \<not> (owner_ok (w_fs w) layout a \<and> owner_ok (w_fs w) layout u) \<Longrightarrow>
       frame u {} (w_fs w) (w_fs w') \<Longrightarrow> E e w'"
  shows "wp (ensure_admin_tree uid layout) Q E w"
proof -
  have f0: "frame u {} (w_fs w) (w_fs w)" and da: "is_dir (w_fs w) a" and du: "is_dir (w_fs w) u"
    using assms(2) by (auto simp: ready_def intro: frame_refl)
  note f1 = frame_chmod [OF f0 da, of mode_0755]
  show ?thesis
    unfolding ensure_admin_tree_def wp_bind
  proof (rule wp_ensure_directory_safe [OF assms(1) ready_leads(1) [OF assms(2)]], goal_cases)
    case (1 w1)
    note first = 1
    then have lead: "leads_to w1 (user_directory layout uid) u"
      by (intro leads_to_nodes [OF ready_leads(2) [OF assms(2)]]) auto
    show ?case
    proof (rule wp_ensure_directory_safe [OF evolves_calm [OF first(1)] lead], goal_cases)
      case (1 w')
      then show ?case
        using assms(3) [OF evolves_trans [OF first(1) 1(1)]] first frame_chmod [OF f1 du, of mode_0755] by simp
    next
      case (2 e w')
      then show ?case
        using assms(4) [OF evolves_trans [OF first(1) 2(1)] 2(2)] first f1 frame_chmod [OF f1 du, of mode_0755]
          evolvesD(13) [OF first(1)] by auto
    qed
  next
    case (2 e w')
    then show ?case using assms(4) [OF 2(1,2)] f0 f1 by auto
  qed
qed

section \<open>Names in the directory of the user\<close>

definition lookup :: "fs \<Rightarrow> ino \<Rightarrow> string \<Rightarrow> inode option" where
  "lookup fs d n = (case entry fs d n of None \<Rightarrow> None | Some i \<Rightarrow> inodes fs i)"

text \<open>The contents of the regular file under a name, if there is one.\<close>

definition file_text :: "fs \<Rightarrow> ino \<Rightarrow> string \<Rightarrow> string option" where
  "file_text fs d n = (case lookup fs d n of None \<Rightarrow> None
     | Some nd \<Rightarrow> (case i_node nd of Reg s \<Rightarrow> Some s | _ \<Rightarrow> None))"

lemma file_text_frame:
  assumes "frame u N fs fs'" "entry fs' u n = entry fs u n"
  shows "file_text fs' u n = file_text fs u n"
proof (cases "entry fs u n")
  case (Some i)
  then have i: "i < next_ino fs" using assms(1) by (auto simp: frame_def fs_wf_def)
  show ?thesis
  proof (cases "is_dir fs i")
    case False
    with assms i Some show ?thesis by (simp add: file_text_def lookup_def frame_def)
  next
    case True
    with is_dir_frame [OF assms(1) i] obtain es es' where
      "node_at fs i = Some (Dir es)" "node_at fs' i = Some (Dir es')" by (auto simp: is_dir_node)
    with assms Some show ?thesis by (auto simp: file_text_def lookup_def node_at_def)
  qed
qed (use assms in \<open>simp add: file_text_def lookup_def\<close>)

lemma resolve_in_dir:
  assumes "leads_to w p u" "plain_name n" "CHR 0x00 \<notin> set n" "length n \<le> 255"
  shows "resolve w (w_cwd w) (path_append p n) False =
    (case entry (w_fs w) u n of None \<Rightarrow> Inl ENOENT
     | Some i \<Rightarrow> if inodes (w_fs w) i = None then Inl ENOENT else Inr i)"
proof -
  have p: "p \<noteq> []" "CHR 0x00 \<notin> set p" "last p \<noteq> CHR ''/''" "is_dir (w_fs w) u"
    using assms(1) by (auto simp: leads_to_def)
  have app: "path_append p n = p @ CHR ''/'' # n" using p assms(2) by (simp add: path_append_plain)
  have last: "last (path_append p n) \<noteq> CHR ''/''" using assms(2) last_in_set [of n] by (auto simp: app plain_name_def simp del: last_in_set)
  have r: "resolve w (w_cwd w) (path_append p n) False =
      walk 40 (w_fs w) (w_root w) (start_of w p) (path_names p @ [n]) False"
    using p(1,2) assms(3) last is_absolute_append [OF assms(2), of p] path_names_append [OF assms(2), of p]
    by (simp add: resolve_def Let_def start_of_def app)
  have w: "walks (w_fs w) (w_root w) 40 (start_of w p) (path_names p) True u"
    by (rule leads_to_walks [OF assms(1)])
  show ?thesis
  proof (cases "lookup (w_fs w) u n")
    case None
    then have "walk 40 (w_fs w) (w_root w) (start_of w p) (path_names p @ [n]) False = Inl ENOENT"
      by (intro walk_snoc_missing [OF w p(4) _ assms(4)]) (simp add: lookup_def)
    with None show ?thesis by (auto simp: r lookup_def split: option.splits)
  next
    case (Some nd)
    then show ?thesis using walks_snoc [OF w _ assms(4), of _ False]
      by (auto simp: r walk_iff lookup_def split: option.splits)
  qed
qed

section \<open>Writing a file\<close>

definition temp_names :: "world \<Rightarrow> string \<Rightarrow> string set" where
  "temp_names w name = temp_name name (w_pid w) ` {..<100}"

text \<open>The file under \<open>name\<close> is a new one with the contents \<open>c\<close>.\<close>

definition installed :: "world \<Rightarrow> ino \<Rightarrow> string \<Rightarrow> string \<Rightarrow> fs \<Rightarrow> bool" where
  "installed w u name c fs \<longleftrightarrow>
     (\<exists>i \<ge> next_ino (w_fs w). entry fs u name = Some i \<and> inodes fs i = Some (new_file w mode_0644 c))"

lemma installed_text: "installed w u name c fs \<Longrightarrow> file_text fs u name = Some c"
  by (auto simp: installed_def file_text_def lookup_def)

lemma temp_name_neq: "name \<noteq> temp_name name pid k" "temp_name name pid k \<noteq> name"
proof -
  have "length name < length (temp_name name pid k)" by (simp add: temp_name_def)
  then show "name \<noteq> temp_name name pid k" "temp_name name pid k \<noteq> name" by auto
qed

text \<open>The names tried, in order; \<open>usable\<close> says that trying them ends with a new file.\<close>

definition candidates :: "world \<Rightarrow> string \<Rightarrow> string list" where
  "candidates w name = map (temp_name name (w_pid w)) [0..<100]"

fun usable :: "fs \<Rightarrow> ino \<Rightarrow> string list \<Rightarrow> bool" where
  "usable fs u [] = False"
| "usable fs u (c # cs) = (length c \<le> 255 \<and> (entry fs u c = None \<or> usable fs u cs))"

lemma set_candidates: "set (candidates w name) = temp_names w name"
  by (auto simp: candidates_def temp_names_def)

lemma usable_short: "usable fs u cs \<Longrightarrow> \<exists>c \<in> set cs. length c \<le> 255"
  by (induction cs) auto

lemma usableI: "\<forall>c \<in> set cs. length c \<le> 255 \<Longrightarrow> \<exists>c \<in> set cs. entry fs u c = None \<Longrightarrow> usable fs u cs"
  by (induction cs) auto

lemma usable_cong: "\<forall>c \<in> set cs. entry fs' u c = entry fs u c \<Longrightarrow> usable fs' u cs = usable fs u cs"
  by (induction cs) auto

lemma temp_names_self [simp]: "name \<notin> temp_names w name"
  by (auto simp: temp_names_def temp_name_neq)

lemma frame_temps_text: "frame u (temp_names w name) fs fs' \<Longrightarrow> file_text fs' u name = file_text fs u name"
  by (rule file_text_frame, assumption) (simp add: frame_def)

text \<open>When the names of the temporary files fit a file system, and when they do not.\<close>

lemma length_temp_name:
  "length (temp_name name pid k) = 7 + length name + length (show_nat pid) + length (show_nat k)"
  by (simp add: temp_name_def)

lemma long_names:
  assumes "247 \<le> length name" "t \<in> temp_names w name"
  shows "length t > 255"
proof -
  obtain k where k: "t = temp_name name (w_pid w) k" using assms(2) by (auto simp: temp_names_def)
  with length_show_nat(1) [of "w_pid w"] length_show_nat(1) [of k] assms(1) show ?thesis
    by (simp add: length_temp_name)
qed

lemma short_names:
  assumes "length name + length (show_nat (w_pid w)) \<le> 246" "t \<in> temp_names w name"
  shows "length t \<le> 255"
proof -
  obtain k where k: "k < 100" "t = temp_name name (w_pid w) k" using assms(2) by (auto simp: temp_names_def)
  with length_show_nat(2) [OF k(1)] assms(1) show ?thesis by (simp add: length_temp_name)
qed

lemma show_nat_plain: "CHR ''/'' \<notin> set (show_nat n)" "CHR 0x00 \<notin> set (show_nat n)"
  using show_nat_digits by (force simp: isdigit_def)+

lemma temp_name_plain:
  assumes "plain_name name" "CHR 0x00 \<notin> set name"
  shows "plain_name (temp_name name pid k) \<and> CHR 0x00 \<notin> set (temp_name name pid k)"
  using assms show_nat_plain by (simp add: temp_name_def plain_name_def)

text \<open>The first free candidate is made; all others are left alone.\<close>

lemma wp_open_temp:
  assumes "calm w" "is_dir (w_fs w) u" "\<forall>n \<in> set cs. plain_name n \<and> CHR 0x00 \<notin> set n"
    "\<And>e w'. idle w w' \<Longrightarrow> kind e = Filesystem \<Longrightarrow>
       \<not> faultless w \<or> \<not> usable (w_fs w) u cs \<Longrightarrow> E e w'"
    "\<And>n w'. idle w w' \<Longrightarrow> n \<in> set cs \<Longrightarrow> usable (w_fs w) u cs \<Longrightarrow> length n \<le> 255 \<Longrightarrow> entry (w_fs w) u n = None \<Longrightarrow>
       Q (n, next_ino (w_fs w)) (w'\<lparr>w_fs := add_file u n (new_file w mode []) (w_fs w)\<rparr>)"
  shows "wp (open_temp dir u mode cs) Q E w"
  using assms
proof (induction cs arbitrary: w)
  case Nil
  then show ?case by (simp add: wp_fail idle_refl)
next
  case (Cons c cs)
  show ?case
    unfolding open_temp.simps wp_either wp_return
  proof (rule wp_create [OF Cons.prems(1) _ _ Cons.prems(2)], goal_cases)
    case (5 e w')
    then show ?case using Cons.prems(4) by (simp add: wp_os_error)
  next
    case (6 w')
    then show ?case using Cons.prems(4) by (simp add: wp_os_error errno_defs)
  next
    case (7 w')
    have "wp (open_temp dir u mode cs) Q E w'"
    proof (rule Cons.IH, goal_cases)
      case (4 w2 e)
      then show ?case using Cons.prems(4) [OF idle_trans [OF 7(1) 4(1)] 4(2)] 7(3) idleD(1,2) [OF 7(1)]
        evolvesD(13) [of w w'] by auto
    next
      case (5 w2 n)
      then show ?case using Cons.prems(5) [OF idle_trans [OF 7(1) 5(1)], of n] 7(2) idleD(1,2) [OF 7(1)]
        new_file_evolves [of w w'] by simp
    qed (use Cons.prems(2,3) idleD(1) [OF 7(1)] idle_calm [OF 7(1)] in auto)
    then show ?case by simp
  next
    case (8 w')
    then show ?case using Cons.prems(5) by simp
  qed (use Cons.prems(3) in \<open>auto simp: create_flags_def\<close>)
qed


text \<open>Removing the temporary file stays within the frame, whether it succeeds or not.\<close>

lemma wp_unlink_frame:
  assumes "calm w" "frame u N fs (w_fs w)" "n \<in> N"
    "\<And>e w'. evolves w w' \<Longrightarrow> frame u N fs (w_fs w') \<Longrightarrow> E e w'"
    "\<And>w'. evolves w w' \<Longrightarrow> frame u N fs (w_fs w') \<Longrightarrow> Q () w'"
  shows "wp (sys_unlinkat u n) Q E w"
  by (rule wp_unlinkat [OF assms(1)])
    (use assms(2,3) idleD(1,2) [of w] in \<open>auto intro!: assms(4,5) intro: frame_put_entry\<close>)

lemma wp_unlink_on_error:
  assumes "wp m Q (\<lambda>e w'. evolves w w' \<and> frame u N fs (w_fs w') \<and> R) w" "n \<in> N"
    "\<And>e w'. evolves w w' \<Longrightarrow> frame u N fs (w_fs w') \<Longrightarrow> R \<Longrightarrow> E e w'"
  shows "wp (unlink_on_error u n m) Q E w"
  unfolding unlink_on_error_def wp_catch wp_bind wp_fail
  by (rule wp_cong_mono [OF assms(1)])
    (auto intro!: wp_unlink_frame [OF _ _ assms(2)] assms(3) intro: evolves_calm evolves_trans)

lemma wp_unlink_on_failure:
  assumes "wp m Q (\<lambda>e w'. evolves w w' \<and> frame u N fs (w_fs w') \<and> R e) w" "n \<in> N"
    "\<And>e w'. evolves w w' \<Longrightarrow> frame u N fs (w_fs w') \<Longrightarrow> R e \<Longrightarrow> E e w'"
  shows "wp (unlink_on_failure u n m) Q E w"
  unfolding unlink_on_failure_def wp_catch wp_bind wp_fail wp_return
  by (rule wp_cong_mono [OF assms(1)])
    (auto intro!: wp_unlink_frame [OF _ _ assms(2)] assms(3) intro: evolves_calm evolves_trans)

text \<open>What can make writing a file fail, apart from injected failures.\<close>

definition cannot_write :: "world \<Rightarrow> ino \<Rightarrow> string \<Rightarrow> bool" where
  "cannot_write w u name \<longleftrightarrow> \<not> faultless w \<or> \<not> usable (w_fs w) u (candidates w name)
     \<or> (\<exists>i. entry (w_fs w) u name = Some i \<and> is_dir (w_fs w) i)"

definition write_done :: "world \<Rightarrow> ino \<Rightarrow> string \<Rightarrow> string \<Rightarrow> world \<Rightarrow> bool" where
  "write_done w u name c w' \<longleftrightarrow> frame u {name} (w_fs w) (w_fs w') \<and> installed w u name c (w_fs w')
     \<and> usable (w_fs w) u (candidates w name)"

lemma wp_replace:
  assumes "calm w" and t: "t \<in> temp_names w name" "entry (w_fs w) u t = None" "length name \<le> 255" "usable (w_fs w) u (candidates w name)"
    and u: "fs_wf (w_fs w)" "is_dir (w_fs w) u" and w1: "evolves w w1"
      "w_fs w1 = add_file u t (new_file w mode_0644 []) (w_fs w)"
    and Q: "\<And>w'. evolves w w' \<Longrightarrow> write_done w u name c w' \<Longrightarrow> Q () w'"
    and E: "\<And>e w'. evolves w w' \<Longrightarrow> kind e = Filesystem \<Longrightarrow> cannot_write w u name \<Longrightarrow>
       frame u (temp_names w name) (w_fs w) (w_fs w') \<or> \<not> faultless w \<and> write_done w u name c w' \<Longrightarrow> E e w'"
  shows "wp (bind_io (unlink_on_failure u t (write_all (next_ino (w_fs w)) 0 c))
      (\<lambda>_. bind_io
        (or_os_error (unlink_on_error u t (sys_fsync (next_ino (w_fs w)))) Filesystem m1)
      (\<lambda>_. bind_io
        (or_os_error (unlink_on_error u t (sys_renameat u t name)) Filesystem m2)
      (\<lambda>_. fsync_directory u)))) Q E w1"
proof -
  let ?T = "temp_names w name" and ?fs = "w_fs w" and ?i = "next_ino (w_fs w)"
  let ?staged = "\<lambda>c. put_inode ?i (new_file w mode_0644 c) (w_fs w1)"
  have iu: "u < ?i" using u by (simp add: is_dir_less)
  have name_t: "name \<noteq> t" "t \<noteq> name" "name \<notin> ?T"
    using t(1) by (auto simp: temp_names_def temp_name_neq)
  have f1: "frame u ?T ?fs (w_fs w1)" "frame u {t} ?fs (w_fs w1)"
    unfolding w1(2) using t(1) u by (auto intro!: frame_add_file frame_refl simp: new_file_def)
  have next1: "next_ino (w_fs w1) = Suc ?i" by (simp add: w1(2) add_file_def)
  have staged: "frame u ?T ?fs (?staged s)" "frame u {t} ?fs (?staged s)" for s
    using f1 next1 by (auto intro!: frame_put_inode)
  have ino1: "inodes (w_fs w1) ?i = Some (new_file w mode_0644 [])"
    using iu by (simp add: w1(2) add_file_def)
  have ent: "entry (?staged s) u t = Some ?i" "entry (?staged s) u name = entry ?fs u name"
      "\<not> is_dir (?staged s) ?i" for s
  proof -
    have "is_dir (put_inode ?i nd ?fs) u" for nd using u iu by (simp add: is_dir_def)
    then have "entry (w_fs w1) u t = Some ?i"
      by (simp add: w1(2) add_file_def)
    then show "entry (?staged s) u t = Some ?i" using iu by (simp add: entry_def)
    show "entry (?staged s) u name = entry ?fs u name"
      using staged(2) [of s] name_t by (simp add: frame_def)
    show "\<not> is_dir (?staged s) ?i" by (simp add: is_dir_def)
  qed
  have old_dir: "is_dir ?fs j" if "entry ?fs u name = Some j" "is_dir (?staged s) j" for j s
    using that staged(1) [of s] is_dir_frame [OF staged(1)] u(1) by (auto simp: fs_wf_def)
  let ?new = "put_entry u name (Some ?i) (put_entry u t None (?staged c))"
  have written: "write_done w u name c w'" if "w_fs w' = ?new" for w'
  proof -
    have "frame u {t} ?fs (put_entry u t None (?staged c))"
      using staged(2) by (rule frame_put_entry) auto
    then have "frame u (insert t {name}) ?fs (put_entry u t None (?staged c))"
      by (rule frame_mono) simp
    then have "frame u (insert t {name}) ?fs ?new"
      by (rule frame_put_entry) (use next1 in auto)
    moreover have "is_dir (?staged c) u" using staged(1) [of c] by (simp add: frame_def)
    ultimately show ?thesis
      using that t(1,2,4) name_t iu by (auto simp: write_done_def installed_def intro: frame_restored)
  qed
  have finish: "wp (unlink_on_error u t (sys_renameat u t name))
      (\<lambda>_. wp (fsync_directory u) Q E) (\<lambda>e w. E (call_error Filesystem m2 e w) w) w3"
    if w3: "evolves w w3" "w_fs w3 = ?staged c" for w3
  proof (rule wp_unlink_on_error [where N = ?T and fs = ?fs and R = "cannot_write w u name", OF _ t(1)], goal_cases)
    case 1
    show ?case
    proof (rule wp_renameat [where i = ?i, OF evolves_calm [OF w3(1)]], goal_cases)
      case (6 w')
      let ?w = "w'\<lparr>w_fs := put_entry u name (Some ?i) (put_entry u t None (w_fs w3)),
          w_log := w_log w3 @ [Log_rename u t name]\<rparr>"
      have ev: "evolves w ?w" using evolves_trans [OF w3(1) idleD(2) [OF 6(1)]] by simp
      show ?case
        unfolding fsync_directory_def wp_or_os_error
      proof (rule wp_fsync [OF evolves_calm [OF ev]], goal_cases)
        case (1 n w4)
        have "write_done w u name c w4" by (rule written) (use idleD(1) [OF 1(1)] w3(2) in simp)
        then show ?case
          using evolves_trans [OF ev idleD(2) [OF 1(1)]] 1(2) evolvesD(13) [OF ev]
          by (intro E) (auto simp: cannot_write_def)
      next
        case (2 w4)
        have "write_done w u name c (w4\<lparr>w_log := w_log ?w @ [Log_fsync u]\<rparr>)"
          by (rule written) (use idleD(1) [OF 2] w3(2) in simp)
        then show ?case using evolves_trans [OF ev idleD(2) [OF 2]] by (intro Q) auto
      qed
    qed (use w3 ent staged(1) t(3) old_dir idleD(1,2) [of w3] evolvesD(13) [OF w3(1)]
         in \<open>auto simp: cannot_write_def\<close>)
  next
    case (2 e w')
    then show ?case using evolves_trans [OF w3(1) 2(1)] by (intro E) auto
  qed
  have sync: "wp (unlink_on_error u t (sys_fsync ?i))
      (\<lambda>_. wp (unlink_on_error u t (sys_renameat u t name))
        (\<lambda>_. wp (fsync_directory u) Q E) (\<lambda>e w. E (call_error Filesystem m2 e w) w))
      (\<lambda>e w. E (call_error Filesystem m1 e w) w) w2"
    if w2: "evolves w w2" "w_fs w2 = ?staged c" for w2
  proof (rule wp_unlink_on_error [where N = ?T and fs = ?fs and R = "\<not> faultless w", OF _ t(1)], goal_cases)
    case 1
    show ?case
      by (rule wp_fsync [OF evolves_calm [OF w2(1)]])
        (use w2 staged(1) idleD(1,2) [of w2] evolvesD(13) [OF w2(1)] evolves_trans [OF w2(1)]
          in \<open>auto intro!: finish\<close>)
  next
    case (2 e w')
    then show ?case using evolves_trans [OF w2(1) 2(1)] by (intro E) (auto simp: cannot_write_def)
  qed
  show ?thesis
    unfolding wp_bind wp_or_os_error
  proof (rule wp_unlink_on_failure [where N = ?T and fs = ?fs and R = "\<lambda>e. kind e = Filesystem \<and> \<not> faultless w",
        OF _ t(1)], goal_cases)
    case 1
    show ?case
      by (rule wp_write_all [OF evolves_calm [OF w1(1)] ino1])
        (use staged(1) evolvesD(13) [OF w1(1)] evolves_trans [OF w1(1)] in \<open>auto intro!: sync\<close>)
  next
    case (2 e w')
    then show ?case using evolves_trans [OF w1(1) 2(1)] by (intro E) (auto simp: cannot_write_def)
  qed
qed

end
