(* ===== verification/Quadlet_Installer.thy ===== *)
theory Quadlet_Installer
  imports Quadlet_Atomic
begin

text \<open>
  Rules for the operations of \<open>QuadletInstaller\<close> on a tree that is \<open>ready\<close>, and the
  properties that follow: safe directories, atomic installation, and restoring a snapshot.
\<close>

section \<open>Files in the directory of the user\<close>

definition file_path_ok :: "world \<Rightarrow> path \<Rightarrow> ino \<Rightarrow> string \<Rightarrow> bool" where
  "file_path_ok w dir u name \<longleftrightarrow> leads_to w dir u \<and> plain_name name \<and> CHR 0x00 \<notin> set name \<and> length name \<le> 255"

lemma file_path_ok_parts:
  assumes "file_path_ok w dir u name"
  shows "parent_path (path_append dir name) = dir" "filename (path_append dir name) = name"
  using assms by (auto simp: file_path_ok_def leads_to_def parent_path_append filename_append)

lemma wp_atomic_write_file:
  assumes "calm w" "file_path_ok w dir u name" "fs_wf (w_fs w)"
    and Q: "\<And>w'. evolves w w' \<Longrightarrow> write_done w u name c w' \<Longrightarrow> Q () w'"
    and E: "\<And>e w'. evolves w w' \<Longrightarrow> kind e = Filesystem \<Longrightarrow> cannot_write w u name \<Longrightarrow>
       frame u (temp_names w name) (w_fs w) (w_fs w') \<or> \<not> faultless w \<and> write_done w u name c w' \<Longrightarrow> E e w'"
  shows "wp (atomic_write_file (path_append dir name) c mode_0644) Q E w"
proof -
  have p: "leads_to w dir u" "plain_name name" "CHR 0x00 \<notin> set name" "length name \<le> 255"
    and d: "is_dir (w_fs w) u"
    using assms(2) by (auto simp: file_path_ok_def leads_to_def)
  have same: "frame u N (w_fs w) (w_fs w')" if "idle w w'" for N w'
    using idleD(1) [OF that] assms(3) d by (simp add: frame_refl)
  show ?thesis
    unfolding atomic_write_file_def Let_def file_path_ok_parts [OF assms(2)] wp_bind [of "or_os_error _ _ _"]
      wp_or_os_error wp_bind [of "get_io _"] wp_get
  proof (rule wp_open_directory [OF assms(1) p(1)], goal_cases)
    case (2 n w')
    with same show ?case by (intro E) (auto simp: cannot_write_def dest: idleD(2))
  next
    case (3 w1)
    note ev = idleD(2) [OF 3]
    have cs: "map (temp_name name (w_pid w1)) [0..<100] = candidates w name"
      using evolvesD(6) [OF ev] by (simp add: candidates_def)
    show ?case
      unfolding wp_bind [of "open_temp _ _ _ _"] cs
    proof (rule wp_open_temp [OF evolves_calm [OF ev]], goal_cases)
      case (3 e w')
      then show ?case
        using same [OF idle_trans [OF \<open>idle w w1\<close> 3(1)]] evolves_trans [OF ev idleD(2) [OF 3(1)]]
          evolvesD(13) [OF ev] idleD(1) [OF \<open>idle w w1\<close>]
        by (intro E) (auto simp: cannot_write_def)
    next
      case (4 t w2)
      have e2: "evolves w w2" using evolves_trans [OF ev idleD(2) [OF 4(1)]] .
      show ?case
        unfolding prod.case idleD(1) [OF \<open>idle w w1\<close>] new_file_evolves [OF ev]
        by (rule wp_replace [where t = t and w = w and name = name and c = c, OF assms(1) _ _ p(4) _ assms(3) d])
          (use 4 e2 idleD(1) [OF \<open>idle w w1\<close>] set_candidates in \<open>auto intro: Q E\<close>)
    qed (use d idleD(1) [OF 3] temp_name_plain [OF p(2,3)] in \<open>auto simp: candidates_def\<close>)
  qed (simp add: directory_flags_def)
qed

lemma wp_unlink_quadlet_file:
  assumes "calm w" "file_path_ok w dir u name" "fs_wf (w_fs w)"
    and Q: "\<And>w'. evolves w w' \<Longrightarrow> frame u {name} (w_fs w) (w_fs w') \<Longrightarrow> entry (w_fs w') u name = None \<Longrightarrow> Q () w'"
    and E: "\<And>e w'. evolves w w' \<Longrightarrow> kind e = Filesystem \<Longrightarrow>
       \<not> faultless w \<or> (\<exists>i. entry (w_fs w) u name = Some i \<and> is_dir (w_fs w) i) \<Longrightarrow>
       frame u {name} (w_fs w) (w_fs w') \<Longrightarrow>
       entry (w_fs w') u name \<in> {entry (w_fs w) u name, None} \<Longrightarrow> E e w'"
  shows "wp (unlink_quadlet_file (path_append dir name)) Q E w"
proof -
  have p: "leads_to w dir u" and d: "is_dir (w_fs w) u"
    using assms(2) by (auto simp: file_path_ok_def leads_to_def)
  have same: "frame u N (w_fs w) (w_fs w')" if "idle w w'" for N w'
    using idleD(1) [OF that] assms(3) d by (simp add: frame_refl)
  have sync: "wp (fsync_directory u) Q E w2"
    if w2: "evolves w w2" "frame u {name} (w_fs w) (w_fs w2)" "entry (w_fs w2) u name = None" for w2
    unfolding fsync_directory_def wp_or_os_error
  proof (rule wp_fsync [OF evolves_calm [OF w2(1)]], goal_cases)
    case (1 n w')
    then show ?case
      using evolves_trans [OF w2(1) idleD(2) [OF 1(1)]] w2 idleD(1) [OF 1(1)] evolvesD(13) [OF w2(1)]
      by (intro E) auto
  next
    case (2 w')
    then show ?case
      using evolves_trans [OF w2(1) idleD(2) [OF 2]] w2 idleD(1) [OF 2] by (intro Q) auto
  qed
  show ?thesis
    unfolding unlink_quadlet_file_def Let_def file_path_ok_parts [OF assms(2)] wp_bind wp_or_os_error
      wp_either
  proof (rule wp_open_directory [OF assms(1) p], goal_cases)
    case (2 n w')
    with same [OF 2(1)] idleD(1) [OF 2(1)] show ?case by (intro E) (auto dest: idleD(2))
  next
    case (3 w1)
    note ev = idleD(2) [OF 3] and fs = idleD(1) [OF 3]
    show ?case
    proof (rule wp_unlinkat [OF evolves_calm [OF ev]], goal_cases)
      case (1 e w')
      then show ?case
        using same [OF idle_trans [OF 3 1(1)]] evolves_trans [OF ev idleD(2) [OF 1(1)]] evolvesD(13) [OF ev]
          idleD(1) [OF 1(1)] fs by (auto simp: wp_simps intro!: E)
    next
      case (2 w')
      have "wp (fsync_directory u) Q E w'"
        by (rule sync) (use same [OF idle_trans [OF 3 2(1)]] evolves_trans [OF ev idleD(2) [OF 2(1)]]
          idleD(1) [OF 2(1)] fs 2 in auto)
      then show ?case by (simp add: wp_simps)
    next
      case (3 i w')
      then show ?case
        using same [OF idle_trans [OF \<open>idle w w1\<close> 3(1)]] evolves_trans [OF ev idleD(2) [OF 3(1)]]
          idleD(1) [OF 3(1)] fs by (auto simp: wp_simps errno_defs intro!: E)
    next
      case (4 i w')
      have "frame u {name} (w_fs w) (put_entry u name None (w_fs w))"
        using assms(3) d by (intro frame_put_entry frame_refl) auto
      with evolves_trans [OF ev idleD(2) [OF 4(1)]] fs d show ?case
        by (auto simp: wp_simps intro!: sync)
    qed
  qed (simp add: directory_flags_def)
qed

lemma wp_read_regular_file:
  assumes "calm w" "file_path_ok w dir u name"
    and Q: "\<And>s w'. idle w w' \<Longrightarrow> file_text (w_fs w) u name = Some s \<Longrightarrow> length s \<le> bound \<Longrightarrow> Q s w'"
    and E: "\<And>e w'. idle w w' \<Longrightarrow> kind e = Filesystem \<Longrightarrow>
       \<not> faultless w \<or> (\<nexists>s. file_text (w_fs w) u name = Some s \<and> length s \<le> bound) \<Longrightarrow> E e w'"
  shows "wp (read_regular_file_no_symlink (path_append dir name) bound) Q E w"
proof -
  have res: "resolve w (w_cwd w) (path_append dir name) False =
    (case entry (w_fs w) u name of None \<Rightarrow> Inl ENOENT
     | Some i \<Rightarrow> if inodes (w_fs w) i = None then Inl ENOENT else Inr i)"
    using assms(2) resolve_in_dir [of w dir u name] by (auto simp: file_path_ok_def)
  have content: "file_text (w_fs w) u name = (case inodes (w_fs w) i of None \<Rightarrow> None
       | Some nd \<Rightarrow> (case i_node nd of Reg s \<Rightarrow> Some s | _ \<Rightarrow> None))"
    if "resolve w (w_cwd w) (path_append dir name) False = Inr i" for i
    using that res by (auto simp: file_text_def lookup_def split: option.splits if_splits)
  show ?thesis
    unfolding read_regular_file_no_symlink_def wp_bind wp_or_os_error wp_guard
  proof (rule wp_open [OF assms(1)], goal_cases)
    case (2 n w')
    then show ?case by (intro E) auto
  next
    case (3 n w')
    then show ?case
      using res by (intro E) (auto simp: read_flags_def file_text_def lookup_def split: option.splits if_splits)
  next
    case (4 i n w')
    then show ?case
      using content [of i]
      by (intro E) (auto simp: read_flags_def open_existing_def split: option.splits node.splits)
  next
    case (5 i w1)
    then have r: "resolve w (w_cwd w) (path_append dir name) False = Inr i" by (simp add: read_flags_def)
    note t = content [OF r] and fs = idleD(1) [OF 5(1)] and ev = idleD(2) [OF 5(1)]
    show ?case
    proof (rule wp_fstat [OF evolves_calm [OF ev]], goal_cases)
      case (1 n w')
      then show ?case using idle_trans [OF 5(1) 1(1)] evolvesD(13) [OF ev] by (intro E) auto
    next
      case (2 w')
      then show ?case using idle_trans [OF 5(1) 2(1)] t fs by (intro E) auto
    next
      case (3 nd w2)
      note i2 = idle_trans [OF 5(1) 3(1)]
      show ?case
      proof (cases "\<exists>s. i_node nd = Reg s \<and> length s \<le> bound")
        case True
        then obtain s where s: "i_node nd = Reg s" "length s \<le> bound" by blast
        have loop: "wp (read_loop (path_append dir name) i (length s) []) Q E w2"
        proof (rule wp_read_loop [OF idle_calm [OF i2] _ s(1)], goal_cases)
          case (3 w')
          then show ?case using idle_trans [OF i2 3] t s \<open>inodes (w_fs w1) i = Some nd\<close> fs by (intro Q) auto
        next
          case (4 e w')
          then show ?case using idle_trans [OF i2 4(1)] idleD(2) [OF i2] evolvesD(13) by (intro E) auto
        qed (use 3 fs idleD(1) [OF i2] in simp_all)
        show ?thesis using loop s by (simp add: stat_of_def)
      next
        case False
        then have bad: "\<nexists>s. file_text (w_fs w) u name = Some s \<and> length s \<le> bound"
          using t 3(2) fs by (auto split: node.splits)
        show ?thesis
        proof (cases "st_type (stat_of nd) = S_IFREG")
          case True
          with False have "st_size (stat_of nd) > int bound"
            by (auto simp: stat_of_def split: node.splits)
          with True bad i2 show ?thesis by (auto intro!: E)
        next
          case False
          with bad i2 show ?thesis by (auto intro!: E)
        qed
      qed
    qed
  qed (simp add: read_flags_def)
qed


section \<open>The operations\<close>

lemma accepted_name_plain:
  assumes "validate_quadlet_file_name f = Inr ()"
  shows "plain_name f" "CHR 0x00 \<notin> set f" "length f \<le> 255"
proof -
  have f: "f \<noteq> []" "length f \<le> 255" "\<not> contains_control_or_slash f"
    using assms by (simp_all add: validate_quadlet_file_name_def split: if_splits)
  have "CHR ''/'' \<notin> set f" "CHR 0x00 \<notin> set f"
    using f(3) unfolding contains_control_or_slash_def list_ex_iff by force+
  with f show "plain_name f" "CHR 0x00 \<notin> set f" "length f \<le> 255"
    by (simp_all add: plain_name_def)
qed

text \<open>After \<open>ensure_admin_tree\<close>, what the later steps do is what is done to the file system before.\<close>

lemma after_ensure:
  assumes "ready w layout uid a u" "evolves w w1" "frame u {} (w_fs w) (w_fs w1)"
  shows "entry (w_fs w1) u n = entry (w_fs w) u n" "file_text (w_fs w1) u n = file_text (w_fs w) u n"
    and "frame u N (w_fs w1) (w_fs w') \<Longrightarrow> frame u N (w_fs w) (w_fs w')"
    and "write_done w1 u name c w' \<Longrightarrow> write_done w u name c w'"
    and "cannot_write w1 u name \<Longrightarrow> cannot_write w u name"
    and "temp_names w1 name = temp_names w name"
    and "lookup (w_fs w1) u n = None \<longleftrightarrow> lookup (w_fs w) u n = None"
proof -
  show e: "entry (w_fs w1) u n = entry (w_fs w) u n" for n using assms(3) by (simp add: frame_def)
  then show "file_text (w_fs w1) u n = file_text (w_fs w) u n" using assms(3) by (simp add: file_text_frame)
  show fr: "frame u N (w_fs w1) (w_fs w') \<Longrightarrow> frame u N (w_fs w) (w_fs w')" for N w'
    using frame_trans [OF frame_mono [OF assms(3)]] by blast
  show t: "temp_names w1 name = temp_names w name" for name
    using evolvesD(6) [OF assms(2)] by (simp add: temp_names_def)
  have us: "usable (w_fs w1) u (candidates w1 name) = usable (w_fs w) u (candidates w name)" for name
    using usable_cong e evolvesD(6) [OF assms(2)] by (simp add: candidates_def)
  have "next_ino (w_fs w) \<le> next_ino (w_fs w1)" using assms(3) by (simp add: frame_def)
  then show "write_done w1 u name c w' \<Longrightarrow> write_done w u name c w'"
    using fr [of "{name}" w'] new_file_evolves [OF assms(2)] us by (auto simp: write_done_def installed_def)
  have less: "i < next_ino (w_fs w)" if "entry (w_fs w) u n = Some i" for n i
    using that assms(1) by (auto simp: ready_def fs_wf_def)
  then show "cannot_write w1 u name \<Longrightarrow> cannot_write w u name"
    unfolding cannot_write_def e us
    using evolvesD(13) [OF assms(2)] is_dir_frame [OF assms(3) less] by blast
  have "inodes (w_fs w1) i = None \<longleftrightarrow> inodes (w_fs w) i = None" if "i < next_ino (w_fs w)" for i
    using assms(3) that is_dir_frame [OF assms(3) that]
    by (cases "is_dir (w_fs w) i") (auto simp: frame_def is_dir_node node_at_def)
  with less e show "lookup (w_fs w1) u n = None \<longleftrightarrow> lookup (w_fs w) u n = None"
    by (auto simp: lookup_def split: option.splits)
qed

lemma ready_file_path:
  assumes "ready w layout uid a u" "validate_quadlet_file_name f = Inr ()"
  shows "file_path_ok w (user_directory layout uid) u f"
  using accepted_name_plain [OF assms(2)] ready_leads(2) [OF assms(1)] by (simp add: file_path_ok_def)

definition owners_ok :: "fs \<Rightarrow> quadlet_install_layout \<Rightarrow> ino \<Rightarrow> ino \<Rightarrow> bool" where
  "owners_ok fs layout a u \<longleftrightarrow> owner_ok fs layout a \<and> owner_ok fs layout u"

lemma expected_install_Inr:
  assumes "expected_install layout policy uid q = Inr inst"
  shows "validate_quadlet_policy q policy = Inr ()" "validate_quadlet_file_name (qf_file_name q) = Inr ()"
    "length (qf_contents q) \<le> max_quadlet_bytes layout"
    "iq_path inst = quadlet_path layout uid (qf_file_name q)"
    "service_unit_name_from_quadlet (qf_file_name q) = Inr (iq_systemd_unit inst)"
proof -
  have e: "length (qf_contents q) \<le> max_quadlet_bytes layout \<and> validate_quadlet_policy q policy = Inr () \<and>
      (\<exists>unit. service_unit_name_from_quadlet (qf_file_name q) = Inr unit \<and>
         inst = \<lparr>iq_path = quadlet_path layout uid (qf_file_name q), iq_systemd_unit = unit\<rparr>)"
    using assms unfolding expected_install_def result_simps not_less sum.inject by (elim exE conjE) auto
  then show "validate_quadlet_policy q policy = Inr ()"
    "length (qf_contents q) \<le> max_quadlet_bytes layout"
    "iq_path inst = quadlet_path layout uid (qf_file_name q)"
    "service_unit_name_from_quadlet (qf_file_name q) = Inr (iq_systemd_unit inst)" by auto
  from e obtain unit where "service_unit_name_from_quadlet (qf_file_name q) = Inr unit" by blast
  then obtain stem where "qf_file_name q = stem @ ''.container''" "quadlet_stem stem"
    by (rule service_unit_name_Inr)
  then show "validate_quadlet_file_name (qf_file_name q) = Inr ()" by (simp only: quadlet_stem_accepted)
qed

lemma wp_install:
  assumes "calm w" "ready w layout uid a u"
    and Q: "\<And>inst w'. evolves w w' \<Longrightarrow> expected_install layout policy uid q = Inr inst \<Longrightarrow>
       owners_ok (w_fs w) layout a u \<Longrightarrow> write_done w u (qf_file_name q) (qf_contents q) w' \<Longrightarrow> Q inst w'"
    and E: "\<And>e w'. evolves w w' \<Longrightarrow>
       expected_install layout policy uid q = Inl e \<or> cannot_write w u (qf_file_name q) \<or>
         \<not> owners_ok (w_fs w) layout a u \<Longrightarrow>
       frame u (temp_names w (qf_file_name q)) (w_fs w) (w_fs w') \<or>
         \<not> faultless w \<and> (\<exists>inst. expected_install layout policy uid q = Inr inst)
           \<and> write_done w u (qf_file_name q) (qf_contents q) w' \<Longrightarrow> E e w'"
  shows "wp (install_for_user layout policy uid q) Q E w"
proof (cases "expected_install layout policy uid q")
  case (Inl e)
  with assms(1,2) show ?thesis
    by (auto simp: install_for_user_def wp_bind wp_lift ready_def intro!: E frame_refl)
next
  case (Inr inst)
  note x = expected_install_Inr [OF Inr]
  show ?thesis
    unfolding install_for_user_def wp_bind wp_lift Inr sum.case
  proof (rule wp_ensure_admin_tree [OF assms(1,2)], goal_cases)
    case (1 w1)
    note after = after_ensure [OF assms(2) 1(1,4)]
    have r1: "ready w1 layout uid a u" using ready_frame [OF assms(2) 1(1,4)] .
    show ?case
      unfolding x(4) quadlet_path_def
    proof (rule wp_atomic_write_file [OF evolves_calm [OF 1(1)] ready_file_path [OF r1 x(2)]], goal_cases)
      case 1
      then show ?case using r1 by (simp add: ready_def)
    next
      case (2 w')
      then show ?case using Q [of w' inst] evolves_trans [OF 1(1) 2(1)] Inr 1(2,3) after(4)
        by (auto simp: wp_return owners_ok_def)
    next
      case (3 e w')
      have "frame u (temp_names w (qf_file_name q)) (w_fs w) (w_fs w') \<or>
          \<not> faultless w \<and> write_done w u (qf_file_name q) (qf_contents q) w'"
        using 3(4) after(3,4,6) evolvesD(13) [OF 1(1)] by auto
      then show ?case using 3 evolves_trans [OF 1(1) 3(1)] Inr after(5) by (intro E) auto
    qed
  next
    case (2 e w')
    have "frame u (temp_names w (qf_file_name q)) (w_fs w) (w_fs w')" using 2(4) by (rule frame_mono) simp
    with 2 Inr show ?case by (intro E) (auto simp: owners_ok_def cannot_write_def)
  qed
qed


text \<open>What can keep a snapshot from being taken.\<close>

definition snapshot_blocked :: "world \<Rightarrow> quadlet_install_layout \<Rightarrow> ino \<Rightarrow> ino \<Rightarrow> string \<Rightarrow> bool" where
  "snapshot_blocked w layout a u name \<longleftrightarrow>
     \<not> faultless w \<or> \<not> owners_ok (w_fs w) layout a u \<or> validate_quadlet_file_name name \<noteq> Inr ()
     \<or> lookup (w_fs w) u name \<noteq> None
       \<and> (\<nexists>s. file_text (w_fs w) u name = Some s \<and> length s \<le> max_quadlet_bytes layout)"

lemma wp_snapshot:
  assumes "calm w" "ready w layout uid a u"
    and Q: "\<And>snap w'. evolves w w' \<Longrightarrow> frame u {} (w_fs w) (w_fs w') \<Longrightarrow>
       validate_quadlet_file_name name = Inr () \<Longrightarrow>
       qs_file_name snap = name \<Longrightarrow> qs_path snap = quadlet_path layout uid name \<Longrightarrow>
       (if qs_existed snap
        then file_text (w_fs w) u name = Some (qs_contents snap) \<and> length (qs_contents snap) \<le> max_quadlet_bytes layout
        else lookup (w_fs w) u name = None) \<Longrightarrow> Q snap w'"
    and E: "\<And>e w'. evolves w w' \<Longrightarrow> frame u {} (w_fs w) (w_fs w') \<Longrightarrow>
       snapshot_blocked w layout a u name \<Longrightarrow> E e w'"
  shows "wp (snapshot_for_user layout uid name) Q E w"
proof (cases "validate_quadlet_file_name name")
  case (Inl e)
  with assms(1,2) show ?thesis
    by (auto simp: snapshot_for_user_def wp_bind wp_lift ready_def snapshot_blocked_def intro!: E frame_refl)
next
  case (Inr un)
  then have valid: "validate_quadlet_file_name name = Inr ()" by simp
  show ?thesis
    unfolding snapshot_for_user_def wp_bind wp_lift valid sum.case Let_def wp_either
  proof (rule wp_ensure_admin_tree [OF assms(1,2)], goal_cases)
    case (1 w1)
    note after = after_ensure [OF assms(2) 1(1,4)] and ev1 = 1(1) and f1 = 1(4)
    have r1: "ready w1 layout uid a u" using ready_frame [OF assms(2) 1(1,4)] .
    note path = ready_file_path [OF r1 valid]
    have quiet: "evolves w w'" "frame u {} (w_fs w) (w_fs w')" if "idle w1 w'" for w'
      using evolves_trans [OF ev1 idleD(2) [OF that]] f1 idleD(1) [OF that] by simp_all
    have res: "resolve w1 (w_cwd w1) (quadlet_path layout uid name) False =
      (case entry (w_fs w1) u name of None \<Rightarrow> Inl ENOENT
       | Some i \<Rightarrow> if inodes (w_fs w1) i = None then Inl ENOENT else Inr i)"
      using resolve_in_dir path by (simp add: quadlet_path_def file_path_ok_def)
    show ?case
    proof (rule wp_lstat [OF evolves_calm [OF ev1]], goal_cases)
      case (1 n w2)
      then show ?case
        using quiet evolvesD(13) [OF ev1] by (auto simp: wp_simps snapshot_blocked_def intro!: E)
    next
      case (2 n w2)
      then have "n = ENOENT" "lookup (w_fs w1) u name = None"
        using res by (auto simp: lookup_def split: option.splits if_splits)
      then show ?case using quiet [OF 2(1)] valid after(7) by (auto simp: wp_simps intro!: Q)
    next
      case (3 i w2)
      then show ?case using res by (auto split: option.splits if_splits)
    next
      case (4 i nd w2)
      have path2: "file_path_ok w2 (user_directory layout uid) u name"
        using path leads_to_idle [OF 4(1)] by (simp add: file_path_ok_def)
      show ?case
        unfolding wp_bind wp_return quadlet_path_def
      proof (rule wp_read_regular_file [OF idle_calm [OF 4(1)] path2], goal_cases)
        case (1 s w')
        then show ?case using quiet [OF idle_trans [OF 4(1) 1(1)]] valid after(2) idleD(1) [OF 4(1)]
          by (intro Q) (auto simp: quadlet_path_def)
      next
        case (2 e w')
        have "lookup (w_fs w1) u name \<noteq> None"
          using 4(2,3) res by (auto simp: lookup_def split: option.splits if_splits)
        with 2(3) have "snapshot_blocked w layout a u name"
          using evolvesD(13) [OF evolves_trans [OF ev1 idleD(2) [OF 4(1)]]] after(2,7) idleD(1) [OF 4(1)]
          by (auto simp: snapshot_blocked_def)
        then show ?case using quiet [OF idle_trans [OF 4(1) 2(1)]] by (intro E) auto
      qed
    qed
  next
    case (2 e w')
    then show ?case by (intro E) (auto simp: snapshot_blocked_def owners_ok_def)
  qed
qed

lemma path_eq_refl [simp]: "path_eq p p"
  by (simp add: path_eq_def)

text \<open>What can keep a restore from succeeding.\<close>

definition restore_blocked :: "world \<Rightarrow> quadlet_install_layout \<Rightarrow> u32 \<Rightarrow> ino \<Rightarrow> ino \<Rightarrow> quadlet_snapshot \<Rightarrow> bool" where
  "restore_blocked w layout uid a u snap \<longleftrightarrow>
     \<not> faultless w \<or> \<not> owners_ok (w_fs w) layout a u
     \<or> validate_quadlet_file_name (qs_file_name snap) \<noteq> Inr ()
     \<or> \<not> path_eq (quadlet_path layout uid (qs_file_name snap)) (qs_path snap)
     \<or> (if qs_existed snap then cannot_write w u (qs_file_name snap)
        else \<exists>i. entry (w_fs w) u (qs_file_name snap) = Some i \<and> is_dir (w_fs w) i)"

lemma wp_restore:
  assumes "calm w" "ready w layout uid a u"
    and Q: "\<And>w'. evolves w w' \<Longrightarrow> validate_quadlet_file_name (qs_file_name snap) = Inr () \<Longrightarrow>
       frame u {qs_file_name snap} (w_fs w) (w_fs w') \<Longrightarrow>
       (if qs_existed snap then file_text (w_fs w') u (qs_file_name snap) = Some (qs_contents snap)
        else entry (w_fs w') u (qs_file_name snap) = None) \<Longrightarrow> Q () w'"
    and E: "\<And>e w'. evolves w w' \<Longrightarrow>
       frame u (insert (qs_file_name snap) (temp_names w (qs_file_name snap))) (w_fs w) (w_fs w') \<Longrightarrow>
       restore_blocked w layout uid a u snap \<Longrightarrow>
       file_text (w_fs w') u (qs_file_name snap) \<in> {file_text (w_fs w) u (qs_file_name snap),
         if qs_existed snap then Some (qs_contents snap) else None} \<Longrightarrow> E e w'"
  shows "wp (restore_for_user layout uid snap) Q E w"
proof (cases "validate_quadlet_file_name (qs_file_name snap)")
  case (Inl e)
  with assms(1,2) show ?thesis
    by (auto simp: restore_for_user_def wp_bind wp_lift ready_def restore_blocked_def intro!: E frame_refl)
next
  case (Inr un)
  let ?n = "qs_file_name snap"
  let ?text = "\<lambda>w'. file_text (w_fs w') u ?n"
  have valid: "validate_quadlet_file_name ?n = Inr ()" using Inr by simp
  show ?thesis
    unfolding restore_for_user_def wp_bind wp_lift [of "Inr ()"] valid sum.case
      Let_def wp_guard wp_if
  proof (rule wp_ensure_admin_tree [OF assms(1,2)], goal_cases)
    case (1 w1)
    note after = after_ensure [OF assms(2) 1(1,4)] and ev1 = 1(1)
    have r1: "ready w1 layout uid a u" using ready_frame [OF assms(2) 1(1,4)] .
    note path = ready_file_path [OF r1 valid]
    have wf1: "fs_wf (w_fs w1)" using r1 by (simp add: ready_def)
    have less: "entry (w_fs w) u n = Some i \<Longrightarrow> i < next_ino (w_fs w)" for n i
      using assms(2) by (auto simp: ready_def fs_wf_def)
    have fail: "E e w'" if "evolves w1 w'" "frame u N (w_fs w1) (w_fs w')" "N \<subseteq> insert ?n (temp_names w ?n)"
        "restore_blocked w layout uid a u snap"
        "?text w' \<in> {?text w1, if qs_existed snap then Some (qs_contents snap) else None}" for e w' N
      by (rule E [OF evolves_trans [OF ev1 that(1)] frame_mono [OF after(3) [OF that(2)] that(3)] that(4)])
        (use that(5) after(2) in simp)
    have gone: "wp (unlink_quadlet_file (path_append (user_directory layout uid) ?n)) Q E w1"
      if ex: "\<not> qs_existed snap"
    proof (rule wp_unlink_quadlet_file [OF evolves_calm [OF ev1] path wf1], goal_cases)
      case (1 w')
      then show ?case using ex valid evolves_trans [OF ev1] after(3) by (intro Q) auto
    next
      case (2 e w')
      have "restore_blocked w layout uid a u snap"
        using 2(3) ex after(1) evolvesD(13) [OF ev1] is_dir_frame [OF \<open>frame u {} (w_fs w) (w_fs w1)\<close> less]
        unfolding restore_blocked_def by auto
      moreover have "?text w' \<in> {?text w1, None}"
        using 2(5) file_text_frame [OF 2(4)] by (auto simp: file_text_def [of "w_fs w'"] lookup_def)
      ultimately show ?case using 2(1,4) ex by (intro fail) auto
    qed
    have put_back: "wp (atomic_write_file (path_append (user_directory layout uid) ?n) (qs_contents snap) mode_0644) Q E w1"
      if ex: "qs_existed snap"
    proof (rule wp_atomic_write_file [OF evolves_calm [OF ev1] path wf1], goal_cases)
      case (1 w')
      then show ?case using ex valid evolves_trans [OF ev1] after(3)
        by (intro Q) (auto simp: write_done_def intro: installed_text)
    next
      case (2 e w')
      have "restore_blocked w layout uid a u snap"
        using after(5) [OF 2(3)] ex by (simp add: restore_blocked_def)
      moreover have "?text w' \<in> {?text w1, Some (qs_contents snap)}"
        using 2(4) frame_temps_text [of u w1 ?n] by (auto simp: write_done_def intro: installed_text)
      moreover have "frame u (insert ?n (temp_names w1 ?n)) (w_fs w1) (w_fs w')"
        using 2(4) by (auto simp: write_done_def intro: frame_mono)
      ultimately show ?case using 2(1) ex after(6) by (intro fail) auto
    qed
    have fr: "frame u {} (w_fs w1) (w_fs w1)" using r1 by (simp add: ready_def frame_refl)
    show ?case
      using gone put_back fail [OF _ fr] evolves_calm [OF ev1]
      by (simp add: quadlet_path_def restore_blocked_def)
  next
    case (2 e w')
    have "frame u (insert ?n (temp_names w ?n)) (w_fs w) (w_fs w')" using 2(4) by (rule frame_mono) simp
    moreover have "?text w' = ?text w" using file_text_frame [OF 2(4)] 2(4) by (simp add: frame_def)
    ultimately show ?case using 2 by (intro E) (auto simp: restore_blocked_def owners_ok_def)
  qed
qed

lemma wp_remove:
  assumes "calm w" "ready w layout uid a u"
    and Q: "\<And>w'. evolves w w' \<Longrightarrow> frame u {name} (w_fs w) (w_fs w') \<Longrightarrow> entry (w_fs w') u name = None \<Longrightarrow> Q () w'"
    and E: "\<And>e w'. evolves w w' \<Longrightarrow> frame u {name} (w_fs w) (w_fs w') \<Longrightarrow>
       entry (w_fs w') u name \<in> {entry (w_fs w) u name, None} \<Longrightarrow> E e w'"
  shows "wp (remove_for_user layout uid name) Q E w"
proof (cases "validate_quadlet_file_name name")
  case (Inl e)
  with assms(1,2) show ?thesis
    by (auto simp: remove_for_user_def wp_bind wp_lift ready_def intro!: E frame_refl)
next
  case (Inr un)
  have valid: "validate_quadlet_file_name name = Inr ()" using Inr by simp
  show ?thesis
    unfolding remove_for_user_def wp_bind wp_lift valid sum.case
  proof (rule wp_ensure_admin_tree [OF assms(1,2)], goal_cases)
    case (1 w1)
    note after = after_ensure [OF assms(2) 1(1,4)] and ev1 = 1(1)
    have r1: "ready w1 layout uid a u" using ready_frame [OF assms(2) 1(1,4)] .
    then have wf1: "fs_wf (w_fs w1)" by (simp add: ready_def)
    show ?case
      unfolding quadlet_path_def
      by (rule wp_unlink_quadlet_file [OF evolves_calm [OF ev1] ready_file_path [OF r1 valid] wf1])
        (use evolves_trans [OF ev1] after(1,3) in \<open>auto intro!: Q E\<close>)
  next
    case (2 e w')
    then show ?case by (intro E) (auto simp: frame_def)
  qed
qed

section \<open>Safe directories\<close>

text \<open>Making directories changes no context.\<close>

lemma wp_mkdirat_evolves: "calm w \<Longrightarrow> wp (sys_mkdirat base p mode) (\<lambda>_. evolves w) (\<lambda>_. evolves w) w"
  unfolding sys_mkdirat_def
proof (rule wp_syscall, assumption, goal_cases)
  case (2 e w')
  then have ev: "evolves w w'" by (auto dest: idleD(2))
  then show ?case
    by (auto simp: wp_def Let_def create_file_def split: sum.splits option.splits)
qed (auto dest: idleD(2))

lemma wp_create_directories_evolves:
  assumes "calm w"
  shows "wp (create_directories p) (\<lambda>_. evolves w) (\<lambda>_. evolves w) w"
proof -
  have step: "wp (create_prefixes cwd ps) (\<lambda>_. evolves w) (\<lambda>_. evolves w) w'"
    if "evolves w w'" for w' cwd ps
    using that
  proof (induction ps arbitrary: w')
    case (Cons q ps)
    have mk: "wp (sys_mkdirat cwd q mode_0777) (\<lambda>_. wp (create_prefixes cwd ps) (\<lambda>_. evolves w) (\<lambda>_. evolves w))
        (\<lambda>_. evolves w) w2" if "evolves w' w2" for w2
      by (rule wp_cong_mono [OF wp_mkdirat_evolves])
        (use that Cons evolves_trans evolves_calm in blast)+
    show ?case
      by (simp add: wp_simps, rule wp_stat [OF evolves_calm [OF Cons.prems]])
        (use mk Cons evolves_trans [OF Cons.prems] in \<open>auto simp: wp_simps dest: idleD(2)\<close>)
  qed (simp add: wp_simps)
  from assms show ?thesis
    by (auto simp: create_directories_def wp_simps intro!: step)
qed

lemma wp_ensure_directory_safe_general:
  assumes "calm w"
    and Q: "\<And>d nd w'. evolves w w' \<Longrightarrow> resolve w' (w_cwd w') dir False = Inr d \<Longrightarrow> is_dir (w_fs w') d \<Longrightarrow>
      inodes (w_fs w') d = Some nd \<Longrightarrow> check_owner layout (stat_of nd) = Inr () \<Longrightarrow> i_mode nd = mode_0755 \<Longrightarrow> Q () w'"
    and E: "\<And>e w'. evolves w w' \<Longrightarrow> E e w'"
  shows "wp (ensure_directory_safe dir layout) Q E w"
  unfolding ensure_directory_safe_def wp_bind wp_catch wp_get wp_fail
proof (rule wp_cong_mono [OF wp_create_directories_evolves [OF assms(1)]], goal_cases)
  case (1 x w1)
  show ?case
  proof (rule wp_secure_directory [OF evolves_calm [OF 1]], goal_cases)
    case (1 d w')
    then obtain nd where nd: "inodes (w_fs w1) d = Some nd" "check_owner layout (stat_of nd) = Inr ()"
        "is_dir (w_fs w1) d" by (auto simp: safe_dir_def)
    have "resolve w' (w_cwd w') dir False = Inr d"
      using 1 evolvesD(1,2) [OF 1(1)] by (auto simp: safe_dir_def intro!: resolve_nodes [of w1])
    then show ?case
      using Q [of w' d "nd\<lparr>i_mode := mode_0755\<rparr>"] evolves_trans [OF \<open>evolves w w1\<close> 1(1)] 1(3) nd
      by (simp add: inodes_chmod check_owner_mode)
  next
    case (2 e w')
    then show ?case using evolves_trans [OF \<open>evolves w w1\<close> 2(1)] by (intro E)
  qed
qed (rule E)

end
