(* ===== verification/Installer_Properties.thy ===== *)
theory Installer_Properties
  imports Quadlet_Installer Quadlet_Properties
begin

text \<open>
  The properties of \<open>QuadletInstaller\<close>. They quantify over every schedule of failing and short
  system calls without interference (\<open>calm\<close>); a crash of the process in the middle of an
  operation is the schedule in which every later call fails.
\<close>

section \<open>A sample tree\<close>

definition mk_inode :: "node \<Rightarrow> inode" where
  "mk_inode nd = \<lparr>i_node = nd, i_mode = mode_0755, i_uid = 0, i_gid = 0\<rparr>"

definition sample_fs :: fs where
  "sample_fs =
     \<lparr>inodes =
        [1 \<mapsto> mk_inode (Dir [''q'' \<mapsto> 2]),
         2 \<mapsto> mk_inode (Dir [''1000'' \<mapsto> 3]),
         3 \<mapsto> mk_inode (Dir [''demo.container'' \<mapsto> 4]),
         4 \<mapsto> mk_inode (Reg ''old'')],
      next_ino = 5\<rparr>"

definition sample_world :: "event list \<Rightarrow> world" where
  "sample_world s =
     \<lparr>w_fs = sample_fs, w_root = 1, w_cwd = 1, w_euid = 0, w_egid = 0, w_umask = 0, w_pid = 7,
      w_sched = s, w_strerror = (\<lambda>e. ''error''), w_getpwuid = (\<lambda>u. (0, None)),
      w_getpwnam = (\<lambda>u. (0, None)), w_http = [], w_curl_strerror = (\<lambda>c. ''curl''), w_procs = [],
      w_log = []\<rparr>"

definition sample_layout :: quadlet_install_layout where
  "sample_layout = \<lparr>admin_user_root = ''/q'', required_owner_uid = Some 0, required_owner_gid = None,
     max_quadlet_bytes = 4096\<rparr>"

text \<open>A short write, then a failure of the fourth call from there.\<close>

definition sample_schedule :: "event list" where
  "sample_schedule = replicate 9 quiet_event @
     [\<lparr>ev_fault = None, ev_count = Some 3, ev_env = (\<lambda>fs. fs)\<rparr>,
      \<lparr>ev_fault = Some EINTR, ev_count = None, ev_env = (\<lambda>fs. fs)\<rparr>,
      quiet_event, \<lparr>ev_fault = Some 28, ev_count = None, ev_env = (\<lambda>fs. fs)\<rparr>]"

definition sample_quadlet :: quadlet_file where
  "sample_quadlet = quadlet_of ''demo.container'' sample_document"

lemma sample_fs_wf: "fs_wf sample_fs"
  by (auto simp: fs_wf_def sample_fs_def mk_inode_def entry_def dir_entries_def split: if_splits)

lemma sample_ready: "ready (sample_world s) sample_layout 1000 2 3"
proof -
  have "is_dir sample_fs 2" "is_dir sample_fs 3"
    by (simp_all add: is_dir_def dir_entries_def sample_fs_def mk_inode_def)
  moreover have "anchored (sample_world []) (admin_user_root sample_layout) 3 2"
    "anchored (sample_world []) (user_directory sample_layout 1000) 3 3" by code_simp+
  moreover have "sample_world s = (sample_world [])\<lparr>w_sched := s\<rparr>" by (simp add: sample_world_def)
  moreover have "w_fs (sample_world s) = sample_fs" by (simp add: sample_world_def)
  ultimately show ?thesis using sample_fs_wf unfolding ready_def by (metis anchored_sched)
qed

lemma sample_calm: "calm (sample_world [])" "calm (sample_world sample_schedule)"
  by (simp_all add: calm_def calm_sched_def sample_world_def sample_schedule_def quiet_event_def)

section \<open>Installing\<close>

text \<open>
  C3: Installing is atomic. Whatever calls fail or fall short, afterwards the installed file has
  either its old contents or exactly the new ones, the new ones only if the Quadlet passed the
  policy and the size limit; no other file and no other name is touched, but for temporary
  files of the known names. When \<open>install_for_user\<close> reports success, the new file is in place,
  owned by the caller with mode 0644 less the umask, and no temporary file is left.
\<close>

theorem install_atomic:
  assumes "calm w" "ready w layout uid a u"
    "install_for_user layout policy uid q w = (r, w')"
  defines "name \<equiv> qf_file_name q"
  shows "frame u (insert name (temp_names w name)) (w_fs w) (w_fs w') \<and>
    (file_text (w_fs w') u name = file_text (w_fs w) u name \<or>
     file_text (w_fs w') u name = Some (qf_contents q) \<and> validate_quadlet_policy q policy = Inr ()
       \<and> length (qf_contents q) \<le> max_quadlet_bytes layout) \<and>
    (\<forall>inst. r = Inr inst \<longrightarrow> expected_install layout policy uid q = Inr inst \<and>
       frame u {name} (w_fs w) (w_fs w') \<and> installed w u name (qf_contents q) (w_fs w'))"
proof -
  have out: "write_done w u name (qf_contents q) w' \<Longrightarrow>
      frame u (insert name (temp_names w name)) (w_fs w) (w_fs w') \<and>
      file_text (w_fs w') u name = Some (qf_contents q) \<and> frame u {name} (w_fs w) (w_fs w') \<and>
      installed w u name (qf_contents q) (w_fs w')" for w'
    by (auto simp: write_done_def intro: frame_mono installed_text)
  have untouched: "frame u (temp_names w name) (w_fs w) (w_fs w') \<Longrightarrow>
      frame u (insert name (temp_names w name)) (w_fs w) (w_fs w') \<and>
      file_text (w_fs w') u name = file_text (w_fs w) u name" for w'
    using frame_temps_text by (auto intro: frame_mono)
  have "wp (install_for_user layout policy uid q)
     (\<lambda>inst w'. frame u (insert name (temp_names w name)) (w_fs w) (w_fs w') \<and>
        file_text (w_fs w') u name = Some (qf_contents q) \<and> validate_quadlet_policy q policy = Inr ()
          \<and> length (qf_contents q) \<le> max_quadlet_bytes layout \<and>
        expected_install layout policy uid q = Inr inst \<and>
        frame u {name} (w_fs w) (w_fs w') \<and> installed w u name (qf_contents q) (w_fs w'))
     (\<lambda>e w'. frame u (insert name (temp_names w name)) (w_fs w) (w_fs w') \<and>
        (file_text (w_fs w') u name = file_text (w_fs w) u name \<or>
         file_text (w_fs w') u name = Some (qf_contents q) \<and> validate_quadlet_policy q policy = Inr ()
           \<and> length (qf_contents q) \<le> max_quadlet_bytes layout)) w"
  proof (rule wp_install [OF assms(1,2)], goal_cases)
    case (1 inst w')
    then show ?case using out [of w'] expected_install_Inr [OF 1(2)] by (simp add: name_def)
  next
    case (2 e w')
    show ?case
    proof (cases "write_done w u name (qf_contents q) w' \<and> (\<exists>inst. expected_install layout policy uid q = Inr inst)")
      case True
      with out [of w'] expected_install_Inr [of layout policy uid q] show ?thesis by auto
    next
      case False
      with untouched 2 show ?thesis by (auto simp: name_def)
    qed
  qed
  note this [THEN wp_Inr] this [THEN wp_Inl]
  with assms(3) show ?thesis by (cases r) auto
qed


theorem install_atomic_witness:
  "let w = sample_world sample_schedule;
       w' = snd (install_for_user sample_layout default_policy 1000 sample_quadlet w)
   in file_text (w_fs w) 3 ''demo.container'' = Some ''old'' \<and>
      file_text (w_fs w') 3 ''demo.container'' \<in> {Some ''old'', Some (qf_contents sample_quadlet)}"
proof -
  let ?w = "sample_world sample_schedule"
  have "file_text (w_fs ?w) 3 ''demo.container'' = Some ''old''" by code_simp
  then show ?thesis
    using install_atomic [OF sample_calm(2) sample_ready prod.collapse [symmetric],
        of sample_quadlet default_policy]
    by (auto simp: Let_def sample_quadlet_def quadlet_of_def)
qed


text \<open>
  C10: Installing succeeds when nothing is in its way: no call fails, the Quadlet is acceptable, the two
  directories have the required owner, the names of the temporary files fit the file system
  and one of them is free, and no directory has the name of the Quadlet.
\<close>

theorem install_succeeds:
  assumes "calm w" "faultless w" "ready w layout uid a u" "owners_ok (w_fs w) layout a u"
    "expected_install layout policy uid q = Inr inst"
  defines "name \<equiv> qf_file_name q"
  assumes "length name + length (show_nat (w_pid w)) \<le> 246" "\<exists>t \<in> temp_names w name. entry (w_fs w) u t = None"
    "\<forall>i. entry (w_fs w) u name = Some i \<longrightarrow> \<not> is_dir (w_fs w) i"
  shows "\<exists>w'. install_for_user layout policy uid q w = (Inr inst, w') \<and>
    file_text (w_fs w') u name = Some (qf_contents q)"
proof -
  have can: "\<not> cannot_write w u name"
    using assms(2,8,9) short_names [OF assms(7)] usableI [of "candidates w name"]
    by (auto simp: cannot_write_def set_candidates)
  have "wp (install_for_user layout policy uid q)
      (\<lambda>i w'. i = inst \<and> file_text (w_fs w') u name = Some (qf_contents q)) (\<lambda>e w'. False) w"
    by (rule wp_install [OF assms(1,3)])
      (use can assms(4,5) in \<open>auto simp: name_def write_done_def intro: installed_text\<close>)
  then show ?thesis by (auto simp: wp_def split: prod.splits sum.splits)
qed

lemma sample_owners: "owners_ok sample_fs sample_layout 2 3"
  by (simp add: owners_ok_def owner_ok_def sample_fs_def mk_inode_def check_owner_def stat_of_def
      sample_layout_def)

definition sample_installed :: installed_quadlet where
  "sample_installed = \<lparr>iq_path = ''/q/1000/demo.container'', iq_systemd_unit = ''demo.service''\<rparr>"

lemma sample_expected:
  "expected_install sample_layout default_policy 1000 sample_quadlet = Inr sample_installed"
  by code_simp

lemma sample_temp_names: "temp_names (sample_world s) ''demo.container'' = temp_names (sample_world []) ''demo.container''"
  by (simp add: temp_names_def sample_world_def)

theorem install_succeeds_witness:
  "\<exists>w'. install_for_user sample_layout default_policy 1000 sample_quadlet (sample_world []) = (Inr sample_installed, w')
     \<and> file_text (w_fs w') 3 ''demo.container'' = Some (qf_contents sample_quadlet)"
proof -
  have n: "qf_file_name sample_quadlet = ''demo.container''" by (simp add: sample_quadlet_def quadlet_of_def)
  have fs: "w_fs (sample_world []) = sample_fs" by (simp add: sample_world_def)
  have len: "length ''demo.container'' + length (show_nat (w_pid (sample_world []))) \<le> 246" by code_simp
  have "temp_name ''demo.container'' 7 0 \<in> temp_names (sample_world []) ''demo.container''"
    by (auto simp: temp_names_def sample_world_def)
  moreover have "entry sample_fs 3 (temp_name ''demo.container'' 7 0) = None" by code_simp
  ultimately have free: "\<exists>t \<in> temp_names (sample_world []) ''demo.container''. entry sample_fs 3 t = None" by blast
  have "entry sample_fs 3 ''demo.container'' = Some 4" "\<not> is_dir sample_fs 4" by code_simp+
  then have "\<forall>i. entry sample_fs 3 ''demo.container'' = Some i \<longrightarrow> \<not> is_dir sample_fs i" by simp
  moreover have "faultless (sample_world [])" by (simp add: faultless_def sample_world_def)
  ultimately show ?thesis
    using install_succeeds [OF sample_calm(1) _ sample_ready _ sample_expected] len free sample_owners
    unfolding n fs by blast
qed

text \<open>
  C40: A file name may be accepted and still be too long to install: from 247 bytes on, the names of the
  temporary files exceed what a file system takes (255 bytes), and \<open>install_for_user\<close> fails
  whatever happens, leaving the old file.
\<close>

theorem install_long_name_fails:
  assumes "calm w" "ready w layout uid a u" "247 \<le> length (qf_file_name q)"
  shows "\<exists>e w'. install_for_user layout policy uid q w = (Inl e, w') \<and>
    file_text (w_fs w') u (qf_file_name q) = file_text (w_fs w) u (qf_file_name q)"
proof -
  have "wp (install_for_user layout policy uid q) (\<lambda>i w'. False)
      (\<lambda>e w'. file_text (w_fs w') u (qf_file_name q) = file_text (w_fs w) u (qf_file_name q)) w"
  proof (rule wp_install [OF assms(1,2)], goal_cases)
    case (1 inst w')
    then show ?case using long_names [OF assms(3)] usable_short
      by (force simp: write_done_def set_candidates not_le [symmetric])
  next
    case (2 e w')
    have "\<not> write_done w u (qf_file_name q) (qf_contents q) w'"
      using long_names [OF assms(3)] usable_short by (force simp: write_done_def set_candidates not_le [symmetric])
    with 2(3) frame_temps_text show ?case by blast
  qed
  then show ?thesis by (auto simp: wp_def split: prod.splits sum.splits)
qed

theorem install_long_name_fails_witness:
  "\<exists>f. validate_quadlet_file_name f = Inr () \<and>
    (\<exists>e w'. install_for_user sample_layout default_policy 1000 (quadlet_of f sample_document) (sample_world [])
       = (Inl e, w'))"
proof -
  let ?f = "replicate 240 (CHR ''a'') @ ''.container''"
  have "validate_quadlet_file_name ?f = Inr ()"
    by (intro quadlet_stem_accepted) (simp add: quadlet_stem_def safe_unit_file_char_def ctype_defs list_all_iff)
  moreover have "247 \<le> length (qf_file_name (quadlet_of ?f sample_document))" by (simp add: quadlet_of_def)
  ultimately show ?thesis
    using install_long_name_fails [OF sample_calm(1) sample_ready] by blast
qed

section \<open>Snapshots\<close>

text \<open>
  A snapshot says how things are: it reports that the file does not exist only if nothing has its
  name, and otherwise holds the exact contents of the regular file of that name (a symbolic
  link or an oversized file is an error); taking it changes no file.
\<close>

theorem snapshot_exact:
  assumes "calm w" "ready w layout uid a u" "snapshot_for_user layout uid name w = (r, w')"
  shows "frame u {} (w_fs w) (w_fs w') \<and>
    (\<forall>snap. r = Inr snap \<longrightarrow>
       (if qs_existed snap
        then file_text (w_fs w) u name = Some (qs_contents snap) \<and> length (qs_contents snap) \<le> max_quadlet_bytes layout
        else lookup (w_fs w) u name = None))"
proof -
  have "wp (snapshot_for_user layout uid name)
      (\<lambda>snap w'. frame u {} (w_fs w) (w_fs w') \<and>
         (if qs_existed snap
          then file_text (w_fs w) u name = Some (qs_contents snap) \<and> length (qs_contents snap) \<le> max_quadlet_bytes layout
          else lookup (w_fs w) u name = None))
      (\<lambda>e w'. frame u {} (w_fs w) (w_fs w')) w"
    by (rule wp_snapshot [OF assms(1,2)]) simp_all
  note this [THEN wp_Inr] this [THEN wp_Inl]
  with assms(3) show ?thesis by (cases r) auto
qed

theorem snapshot_exact_witness:
  "fst (snapshot_for_user sample_layout 1000 ''demo.container'' (sample_world []))
     = Inr \<lparr>qs_path = ''/q/1000/demo.container'', qs_file_name = ''demo.container'', qs_existed = True,
            qs_contents = ''old''\<rparr>
   \<and> file_text sample_fs 3 ''demo.container'' = Some ''old''"
proof -
  let ?s = "snapshot_for_user sample_layout 1000 ''demo.container'' (sample_world [])"
  have "fst ?s = Inr \<lparr>qs_path = ''/q/1000/demo.container'', qs_file_name = ''demo.container'', qs_existed = True,
            qs_contents = ''old''\<rparr>" by code_simp
  with snapshot_exact [OF sample_calm(1) sample_ready prod.collapse [symmetric], of "''demo.container''"]
  show ?thesis by (simp add: sample_world_def)
qed

text \<open>
  C9: The rollback of a deployment undoes it: after a snapshot, an installation that succeeded or failed
  in any way, and a restore that reports success, the file of the Quadlet has the contents it
  had before, or is gone when there was none, and no other file has changed.
\<close>

theorem snapshot_install_restore:
  assumes "calm w" "ready w layout uid a u"
    "snapshot_for_user layout uid (qf_file_name q) w = (Inr snap, w1)"
    "install_for_user layout policy uid q w1 = (r, w2)"
    "restore_for_user layout uid snap w2 = (Inr (), w3)"
  shows "file_text (w_fs w3) u (qf_file_name q) = file_text (w_fs w) u (qf_file_name q) \<and>
    (qs_existed snap \<or> lookup (w_fs w3) u (qf_file_name q) = None \<and> lookup (w_fs w) u (qf_file_name q) = None) \<and>
    frame u (insert (qf_file_name q) (temp_names w (qf_file_name q))) (w_fs w) (w_fs w3)"
proof -
  let ?n = "qf_file_name q"
  let ?N = "insert ?n (temp_names w ?n)"
  have "wp (snapshot_for_user layout uid ?n)
      (\<lambda>snap w'. evolves w w' \<and> frame u {} (w_fs w) (w_fs w') \<and> qs_file_name snap = ?n \<and>
         (if qs_existed snap then file_text (w_fs w) u ?n = Some (qs_contents snap)
          else lookup (w_fs w) u ?n = None)) (\<lambda>e w'. True) w"
    by (rule wp_snapshot [OF assms(1,2)]) auto
  from wp_Inr [OF this assms(3)] have s: "evolves w w1" "frame u {} (w_fs w) (w_fs w1)"
      "qs_file_name snap = ?n"
      "if qs_existed snap then file_text (w_fs w) u ?n = Some (qs_contents snap) else lookup (w_fs w) u ?n = None"
    by auto
  have ready1: "ready w1 layout uid a u" using ready_frame [OF assms(2) s(1,2)] .
  have "wp (install_for_user layout policy uid q)
      (\<lambda>i w2. evolves w1 w2 \<and> frame u ?N (w_fs w1) (w_fs w2))
      (\<lambda>e w2. evolves w1 w2 \<and> frame u ?N (w_fs w1) (w_fs w2)) w1"
    by (rule wp_install [OF evolves_calm [OF s(1)] ready1])
      (auto simp: write_done_def evolvesD(6) [OF s(1)] temp_names_def intro: frame_mono)
  then have i: "evolves w1 w2" "frame u ?N (w_fs w1) (w_fs w2)"
    using assms(4) by (auto simp: wp_def split: sum.splits)
  have ready2: "ready w2 layout uid a u" using ready_frame [OF ready1 i] .
  have "wp (restore_for_user layout uid snap)
      (\<lambda>_ w3. frame u {?n} (w_fs w2) (w_fs w3) \<and>
       (if qs_existed snap then file_text (w_fs w3) u ?n = Some (qs_contents snap)
        else entry (w_fs w3) u ?n = None)) (\<lambda>e w'. True) w2"
    by (rule wp_restore [OF evolves_calm [OF i(1)] ready2]) (auto simp: s(3))
  from wp_Inr [OF this assms(5)] have r: "frame u ?N (w_fs w2) (w_fs w3)"
      "if qs_existed snap then file_text (w_fs w3) u ?n = Some (qs_contents snap) else entry (w_fs w3) u ?n = None"
    by (auto intro: frame_mono)
  have "frame u ?N (w_fs w) (w_fs w3)"
    using frame_trans [OF frame_mono [OF s(2)] frame_trans [OF i(2) r(1)]] by simp
  with s(4) r(2) show ?thesis by (auto simp: file_text_def lookup_def split: if_splits)
qed

lemma eq_of_fst: "fst x = r \<Longrightarrow> x = (r, snd x)"
  by (cases x) simp

theorem snapshot_install_restore_witness:
  "let w1 = snd (snapshot_for_user sample_layout 1000 ''demo.container'' (sample_world []));
       w2 = snd (install_for_user sample_layout default_policy 1000 sample_quadlet w1);
       w3 = snd (restore_for_user sample_layout 1000
              \<lparr>qs_path = ''/q/1000/demo.container'', qs_file_name = ''demo.container'', qs_existed = True,
               qs_contents = ''old''\<rparr> w2)
   in file_text (w_fs w2) 3 ''demo.container'' = Some (qf_contents sample_quadlet) \<and>
      file_text (w_fs w3) 3 ''demo.container'' = Some ''old''"
proof -
  let ?snap = "\<lparr>qs_path = ''/q/1000/demo.container'', qs_file_name = ''demo.container'', qs_existed = True,
               qs_contents = ''old''\<rparr>"
  let ?s = "snapshot_for_user sample_layout 1000 (qf_file_name sample_quadlet) (sample_world [])"
  let ?i = "install_for_user sample_layout default_policy 1000 sample_quadlet (snd ?s)"
  let ?r = "restore_for_user sample_layout 1000 ?snap (snd ?i)"
  have n: "qf_file_name sample_quadlet = ''demo.container''" by (simp add: sample_quadlet_def quadlet_of_def)
  have "fst ?s = Inr ?snap" by code_simp
  note s = eq_of_fst [OF this]
  have "fst ?r = Inr ()" by code_simp
  note r = eq_of_fst [OF this]
  have "file_text (w_fs (snd ?i)) 3 ''demo.container'' = Some (qf_contents sample_quadlet)" by code_simp
  moreover have "file_text (w_fs (sample_world [])) 3 ''demo.container'' = Some ''old''" by code_simp
  ultimately show ?thesis
    using snapshot_install_restore [OF sample_calm(1) sample_ready s prod.collapse [symmetric] r]
    by (simp add: n Let_def)
qed

text \<open>
  Removing takes away the named Quadlet and nothing else; if it fails, the Quadlet is either still the
  old one or gone.
\<close>

theorem remove_exact:
  assumes "calm w" "ready w layout uid a u" "remove_for_user layout uid name w = (r, w')"
  shows "frame u {name} (w_fs w) (w_fs w') \<and>
    (r = Inr () \<longrightarrow> entry (w_fs w') u name = None) \<and>
    entry (w_fs w') u name \<in> {entry (w_fs w) u name, None}"
proof -
  have "wp (remove_for_user layout uid name)
      (\<lambda>_ w'. frame u {name} (w_fs w) (w_fs w') \<and> entry (w_fs w') u name = None)
      (\<lambda>e w'. frame u {name} (w_fs w) (w_fs w') \<and> entry (w_fs w') u name \<in> {entry (w_fs w) u name, None}) w"
    by (rule wp_remove [OF assms(1,2)]) simp_all
  note this [THEN wp_Inr] this [THEN wp_Inl]
  with assms(3) show ?thesis by (cases r) auto
qed

theorem remove_exact_witness:
  "let w' = snd (remove_for_user sample_layout 1000 ''demo.container'' (sample_world []))
   in entry (w_fs w') 3 ''demo.container'' = None"
proof -
  let ?r = "remove_for_user sample_layout 1000 ''demo.container'' (sample_world [])"
  have "fst ?r = Inr ()" by code_simp
  from remove_exact [OF sample_calm(1) sample_ready eq_of_fst [OF this]] show ?thesis by (simp add: Let_def)
qed

section \<open>Directories\<close>

text \<open>
  C31: A directory that \<open>ensure_directory_safe\<close> accepts is safe, whatever was there before and whatever
  calls failed: the path is a directory and not a symbolic link, has the required owner and
  group, and mode 0755, so neither group nor others can write to it.
\<close>

theorem ensured_directory_is_safe:
  assumes "calm w" "ensure_directory_safe dir layout w = (Inr (), w')"
  shows "\<exists>d nd. resolve w' (w_cwd w') dir False = Inr d \<and> is_dir (w_fs w') d \<and>
    inodes (w_fs w') d = Some nd \<and> check_owner layout (stat_of nd) = Inr () \<and>
    i_mode nd = mode_0755 \<and> i_mode nd AND mode_0022 = 0"
proof -
  have "wp (ensure_directory_safe dir layout)
    (\<lambda>_ w'. \<exists>d nd. resolve w' (w_cwd w') dir False = Inr d \<and> is_dir (w_fs w') d \<and>
       inodes (w_fs w') d = Some nd \<and> check_owner layout (stat_of nd) = Inr () \<and> i_mode nd = mode_0755)
    (\<lambda>e w'. True) w"
    by (rule wp_ensure_directory_safe_general [OF assms(1)]) auto
  from wp_Inr [OF this assms(2)] show ?thesis by auto
qed


theorem ensured_directory_is_safe_witness:
  "\<exists>d nd. resolve (snd (ensure_directory_safe ''/q/1001'' sample_layout (sample_world []))) 1 ''/q/1001'' False = Inr d
     \<and> inodes (w_fs (snd (ensure_directory_safe ''/q/1001'' sample_layout (sample_world [])))) d = Some nd
     \<and> i_mode nd = mode_0755"
proof -
  let ?r = "ensure_directory_safe ''/q/1001'' sample_layout (sample_world [])"
  have "fst ?r = Inr ()" "w_cwd (snd ?r) = 1" by code_simp+
  with ensured_directory_is_safe [OF sample_calm(1) eq_of_fst] show ?thesis by metis
qed

end
