(* ===== verification/Target.thy ===== *)
theory Target
  imports Posix
begin

text \<open>
  \<open>src/target.cpp\<close>, \<open>src/socket_validation.cpp\<close> and their headers: the user a Podman service
  belongs to, where its socket is, and the checks on that socket before it is used. The user
  database is a function of the world; the size of the buffer the reentrant calls take has no
  counterpart in the model, a buffer that is too small being one of the errors it may return.
\<close>

section \<open>Targets\<close>

record runtime_directory_layout =
  rd_root :: path

definition default_runtime_layout :: runtime_directory_layout where
  "default_runtime_layout = \<lparr>rd_root = ''/run/user''\<rparr>"

record podman_target =
  pt_uid :: u32
  pt_user_name :: string
  pt_runtime_dir :: path
  pt_socket_path :: path
  pt_api_version :: string

definition runtime_dir_for :: "runtime_directory_layout \<Rightarrow> u32 \<Rightarrow> path" where
  "runtime_dir_for layout uid = path_append (rd_root layout) (show_nat (unat uid))"

definition podman_socket_for :: "runtime_directory_layout \<Rightarrow> u32 \<Rightarrow> path" where
  "podman_socket_for layout uid =
     path_append (path_append (runtime_dir_for layout uid) ''podman'') ''podman.sock''"

definition make_target :: "u32 \<Rightarrow> string \<Rightarrow> runtime_directory_layout \<Rightarrow> string \<Rightarrow> podman_target" where
  "make_target uid user_name layout api_version =
     \<lparr>pt_uid = uid, pt_user_name = user_name, pt_runtime_dir = runtime_dir_for layout uid,
      pt_socket_path = podman_socket_for layout uid, pt_api_version = api_version\<rparr>"

definition resolve_user ::
    "string \<Rightarrow> runtime_directory_layout \<Rightarrow> string \<Rightarrow> (error, podman_target) io" where
  "resolve_user user_name layout api_version w =
     (if user_name = [] then (Inl (err Invalid_argument ''user name is empty''), w)
      else case w_getpwnam w (c_str user_name) of
        (rc, result) \<Rightarrow>
          if rc \<noteq> 0 then
            os_error Filesystem (''getpwnam_r failed for user '' @ quote user_name @ '': '') rc w
          else case result of
            None \<Rightarrow> (Inl (err Invalid_argument (''user '' @ quote user_name @ '' does not exist'')), w)
          | Some pw \<Rightarrow> (Inr (make_target (pw_uid pw) (pw_name pw) layout api_version), w))"

definition resolve_uid ::
    "u32 \<Rightarrow> runtime_directory_layout \<Rightarrow> string \<Rightarrow> (error, podman_target) io" where
  "resolve_uid uid layout api_version w =
     (case w_getpwuid w uid of
        (rc, result) \<Rightarrow>
          if rc \<noteq> 0 then
            os_error Filesystem (''getpwuid_r failed for uid '' @ show_nat (unat uid) @ '': '') rc w
          else case result of
            None \<Rightarrow> (Inl (err Invalid_argument (''uid '' @ show_nat (unat uid) @ '' does not exist'')), w)
          | Some pw \<Rightarrow> (Inr (make_target (pw_uid pw) (pw_name pw) layout api_version), w))"

section \<open>The socket\<close>

record socket_validation_options =
  require_socket :: bool
  require_owner :: bool
  reject_symlink :: bool
  require_default_path :: bool
  sv_layout :: runtime_directory_layout

definition default_socket_options :: socket_validation_options where
  "default_socket_options = \<lparr>require_socket = True, require_owner = True, reject_symlink = True,
     require_default_path = True, sv_layout = default_runtime_layout\<rparr>"

text \<open>The comparison of the normalised paths.\<close>

definition check_socket_path :: "podman_target \<Rightarrow> socket_validation_options \<Rightarrow> unit Result" where
  "check_socket_path target options =
     bind_result
       (guard (pt_socket_path target \<noteq> []) (err Socket_validation ''target socket path is empty''))
     (\<lambda>_. if require_default_path options then
         let expected = lexically_normal (podman_socket_for (sv_layout options) (pt_uid target));
             actual = lexically_normal (pt_socket_path target)
         in guard (path_eq actual expected) (err Socket_validation
              (''target socket path '' @ quote actual @
               '' does not match expected rootless Podman path '' @ quote expected))
       else Inr ())"

text \<open>The checks on what \<open>lstat\<close> reports.\<close>

definition check_socket_stat ::
    "podman_target \<Rightarrow> socket_validation_options \<Rightarrow> stat \<Rightarrow> unit Result" where
  "check_socket_stat target options st =
     bind_result
       (guard (\<not> (reject_symlink options \<and> st_type st = S_IFLNK))
          (err Socket_validation (''target socket path is a symlink: '' @ pt_socket_path target)))
     (\<lambda>_. bind_result
       (guard (\<not> (require_socket options \<and> st_type st \<noteq> S_IFSOCK))
          (err Socket_validation (''target path is not a Unix socket: '' @ pt_socket_path target)))
     (\<lambda>_. guard (\<not> (require_owner options \<and> st_uid st \<noteq> pt_uid target))
          (err Socket_validation
             (''target socket owner uid '' @ show_nat (unat (st_uid st)) @
              '' does not match target uid '' @ show_nat (unat (pt_uid target))))))"

definition validate_podman_socket ::
    "podman_target \<Rightarrow> socket_validation_options \<Rightarrow> (error, unit) io" where
  "validate_podman_socket target options =
     bind_io (lift_io (check_socket_path target options))
     (\<lambda>_. bind_io
       (or_os_error (sys_lstat (pt_socket_path target)) Socket_validation
          (''lstat failed for '' @ quote (pt_socket_path target) @ '': ''))
     (\<lambda>st. lift_io (check_socket_stat target options st)))"

end
