(* ===== verification/Systemd.thy ===== *)
theory Systemd
  imports Target
begin

text \<open>
  \<open>src/systemd.cpp\<close> and \<open>include/pod_installer/systemd.hpp\<close>: names and values that may be passed
  to systemd, running \<open>systemctl\<close>, reading what it prints, and the two controllers built on it.
  The class \<open>UserSystemdController\<close> is a record of its methods. What a spawned process does
  is taken from the world, one reply per process; a process without a reply exits with
  status 0 and prints nothing.
\<close>

section \<open>Data\<close>

record user_slice_policy =
  sp_uid :: u32
  sp_cpu_quota :: "string option"
  sp_cpu_weight :: "64 word option"
  sp_memory_max :: "string option"
  sp_tasks_max :: "64 word option"
  sp_allowed_cpus :: "string option"

record unit_status =
  us_unit :: string
  us_load_state :: string
  us_active_state :: string
  us_sub_state :: string

record unit_operation_result =
  uo_job_path :: "string option"
  uo_final_status :: unit_status

record user_systemd_controller =
  sc_daemon_reload :: "podman_target \<Rightarrow> (error, unit) io"
  sc_start_unit :: "podman_target \<Rightarrow> string \<Rightarrow> (error, unit_operation_result) io"
  sc_restart_unit :: "podman_target \<Rightarrow> string \<Rightarrow> (error, unit_operation_result) io"
  sc_stop_unit :: "podman_target \<Rightarrow> string \<Rightarrow> (error, unit_operation_result) io"
  sc_status :: "podman_target \<Rightarrow> string \<Rightarrow> (error, unit_status) io"

section \<open>Names and values\<close>

definition safe_systemd_value :: "string \<Rightarrow> bool" where
  "safe_systemd_value value \<longleftrightarrow>
     value \<noteq> [] \<and> list_all (\<lambda>c. \<not> (byte_of c < 0x20 \<or> byte_of c = 0x7f)) value"

definition safe_systemd_unit :: "string \<Rightarrow> bool" where
  "safe_systemd_unit unit \<longleftrightarrow>
     \<not> (unit = [] \<or> length unit > 255 \<or> starts_with unit ''-'')
     \<and> list_all (\<lambda>c. isalnum c \<or> c = CHR ''_'' \<or> c = CHR ''-'' \<or> c = CHR ''.'' \<or> c = CHR ''@''
          \<or> c = CHR 0x5C) unit
     \<and> (ends_with unit ''.service'' \<or> ends_with unit ''.socket'' \<or> ends_with unit ''.timer''
        \<or> ends_with unit ''.target'')"

definition validate_systemd_unit_name :: "string \<Rightarrow> unit Result" where
  "validate_systemd_unit_name unit =
     guard (safe_systemd_unit unit) (err Invalid_argument (''unsupported systemd unit name: '' @ unit))"

section \<open>Processes\<close>

definition quiet_proc :: proc_reply where
  "quiet_proc = \<lparr>pr_spawn_rc = 0, pr_pipe = None, pr_reads = [], pr_waits = [], pr_status = 0\<rparr>"

definition next_proc :: "('e, proc_reply) io" where
  "next_proc w = (case w_procs w of [] \<Rightarrow> (Inr quiet_proc, w) | p # ps \<Rightarrow> (Inr p, w\<lparr>w_procs := ps\<rparr>))"

text \<open>The errors \<open>waitpid\<close> returns before the status.\<close>

fun wait_for_child :: "errno list \<Rightarrow> int \<Rightarrow> (error, int) io" where
  "wait_for_child [] status = bind_io (log_io Log_wait) (\<lambda>_. return_io status)"
| "wait_for_child (e # es) status =
     (if e = EINTR then wait_for_child es status
      else os_error Systemd ''waitpid failed for systemctl: '' e)"

text \<open>\<open>WIFEXITED(status) && WEXITSTATUS(status) == 0\<close>\<close>

definition exited_zero :: "int \<Rightarrow> bool" where
  "exited_zero status \<longleftrightarrow> status AND 0x7f = 0 \<and> drop_bit 8 (status AND 0xff00) = 0"

definition posix_spawnp :: "string list \<Rightarrow> proc_reply \<Rightarrow> (error, unit) io" where
  "posix_spawnp args p =
     (if pr_spawn_rc p \<noteq> 0 then
        os_error Systemd (''posix_spawnp failed for '' @ quote (hd args) @ '': '') (pr_spawn_rc p)
      else log_io (Log_spawn (map c_str args)))"

definition run_process :: "string list \<Rightarrow> (error, unit) io" where
  "run_process args =
     (if args = [] then fail_io (err Systemd ''no process arguments supplied'')
      else
        bind_io next_proc (\<lambda>p.
        bind_io (posix_spawnp args p) (\<lambda>_.
        bind_io (wait_for_child (pr_waits p) (pr_status p)) (\<lambda>status.
        lift_io (guard (exited_zero status)
          (err Systemd (''systemctl exited with status '' @ show_int status)))))))"

text \<open>Reading until end of file: a read that returns no bytes, or no more replies.\<close>

fun capture_loop :: "string \<Rightarrow> (errno + string) list \<Rightarrow> (error, string) io" where
  "capture_loop output [] = return_io output"
| "capture_loop output (Inr s # rs) = (if s = [] then return_io output else capture_loop (output @ s) rs)"
| "capture_loop output (Inl e # rs) =
     (if e = EINTR then capture_loop output rs
      else os_error Systemd ''read failed for systemctl output: '' e)"

definition run_process_capture :: "string list \<Rightarrow> (error, string) io" where
  "run_process_capture args =
     (if args = [] then fail_io (err Systemd ''no process arguments supplied'')
      else
        bind_io next_proc (\<lambda>p.
        bind_io (case pr_pipe p of Some e \<Rightarrow> os_error Systemd ''pipe2 failed: '' e | None \<Rightarrow> return_io ()) (\<lambda>_.
        bind_io (posix_spawnp args p) (\<lambda>_.
        bind_io (capture_loop [] (pr_reads p)) (\<lambda>output.
        bind_io (wait_for_child (pr_waits p) (pr_status p)) (\<lambda>status.
        bind_io (lift_io (guard (exited_zero status)
          (err Systemd (''systemctl exited with status '' @ show_int status @ '' output: '' @ output)))) (\<lambda>_.
        return_io output)))))))"

text \<open>One line of \<open>systemctl show\<close>.\<close>

definition show_line :: "string \<Rightarrow> unit_status \<Rightarrow> unit_status" where
  "show_line line status =
     (case str_find (CHR ''='') line of
        None \<Rightarrow> status
      | Some eq \<Rightarrow>
          let key = take eq line; value = drop (eq + 1) line in
          if key = ''LoadState'' then status\<lparr>us_load_state := value\<rparr>
          else if key = ''ActiveState'' then status\<lparr>us_active_state := value\<rparr>
          else if key = ''SubState'' then status\<lparr>us_sub_state := value\<rparr>
          else status)"

definition empty_status :: "string \<Rightarrow> unit_status" where
  "empty_status unit = \<lparr>us_unit = unit, us_load_state = [], us_active_state = [], us_sub_state = []\<rparr>"

definition parse_show_status :: "string \<Rightarrow> string \<Rightarrow> unit_status" where
  "parse_show_status unit output =
     fold show_line (getline_parts (CHR 0x0A) output) (empty_status unit)"

section \<open>Slices\<close>

definition validate_user_slice_policy :: "user_slice_policy \<Rightarrow> unit Result" where
  "validate_user_slice_policy policy =
     bind_result
       (guard (sp_cpu_quota policy \<noteq> None \<or> sp_cpu_weight policy \<noteq> None \<or> sp_memory_max policy \<noteq> None
               \<or> sp_tasks_max policy \<noteq> None \<or> sp_allowed_cpus policy \<noteq> None)
          (err Policy ''user slice policy contains no properties''))
     (\<lambda>_. bind_result
       (guard (case sp_cpu_quota policy of None \<Rightarrow> True | Some q \<Rightarrow> safe_systemd_value q)
          (err Policy ''CPUQuota value is empty or contains control chars''))
     (\<lambda>_. bind_result
       (guard (case sp_cpu_weight policy of None \<Rightarrow> True | Some n \<Rightarrow> \<not> (n < 1 \<or> n > 10000))
          (err Policy ''CPUWeight must be between 1 and 10000''))
     (\<lambda>_. bind_result
       (guard (case sp_memory_max policy of None \<Rightarrow> True | Some m \<Rightarrow> safe_systemd_value m)
          (err Policy ''MemoryMax value is empty or contains control chars''))
     (\<lambda>_. bind_result
       (guard (case sp_tasks_max policy of None \<Rightarrow> True | Some n \<Rightarrow> n \<noteq> 0)
          (err Policy ''TasksMax must be positive''))
     (\<lambda>_. guard (case sp_allowed_cpus policy of None \<Rightarrow> True | Some c \<Rightarrow> safe_systemd_value c)
          (err Policy ''AllowedCPUs value is empty or contains control chars''))))))"

definition property_arg :: "string \<Rightarrow> ('a \<Rightarrow> string) \<Rightarrow> 'a option \<Rightarrow> string list" where
  "property_arg name print value = (case value of None \<Rightarrow> [] | Some v \<Rightarrow> [name @ ''='' @ print v])"

definition build_systemctl_set_property_args :: "user_slice_policy \<Rightarrow> string list Result" where
  "build_systemctl_set_property_args policy =
     bind_result (validate_user_slice_policy policy) (\<lambda>_.
     Inr ([''systemctl'', ''set-property'', ''--runtime'',
           ''user-'' @ show_nat (unat (sp_uid policy)) @ ''.slice''] @
          property_arg ''CPUQuota'' id (sp_cpu_quota policy) @
          property_arg ''CPUWeight'' (\<lambda>n. show_nat (unat n)) (sp_cpu_weight policy) @
          property_arg ''MemoryMax'' id (sp_memory_max policy) @
          property_arg ''TasksMax'' (\<lambda>n. show_nat (unat n)) (sp_tasks_max policy) @
          property_arg ''AllowedCPUs'' id (sp_allowed_cpus policy)))"

text \<open>\<open>SystemctlSliceController::apply\<close>\<close>

definition slice_apply :: "bool \<Rightarrow> user_slice_policy \<Rightarrow> (error, unit) io" where
  "slice_apply dry_run policy =
     bind_io (lift_io (build_systemctl_set_property_args policy)) (\<lambda>args.
       if dry_run then return_io () else run_process args)"

section \<open>The controller over \<open>systemctl\<close>\<close>

definition build_systemctl_user_args ::
    "podman_target \<Rightarrow> string \<Rightarrow> string option \<Rightarrow> string list Result" where
  "build_systemctl_user_args target command unit =
     bind_result
       (guard (pt_user_name target \<noteq> [])
          (err Invalid_argument ''systemctl user commands require target user_name''))
     (\<lambda>_. bind_result
       (guard (safe_systemd_value command) (err Invalid_argument ''invalid systemctl command''))
     (\<lambda>_. bind_result
       (case unit of None \<Rightarrow> Inr () | Some u \<Rightarrow> validate_systemd_unit_name u)
     (\<lambda>_. Inr ([''systemctl'', ''--user'', ''--machine='' @ pt_user_name target @ ''@.host'', command] @
               (case unit of None \<Rightarrow> [] | Some u \<Rightarrow> [u])))))"

definition systemctl_daemon_reload :: "bool \<Rightarrow> podman_target \<Rightarrow> (error, unit) io" where
  "systemctl_daemon_reload dry_run target =
     bind_io (lift_io (build_systemctl_user_args target ''daemon-reload'' None)) (\<lambda>args.
       if dry_run then return_io () else run_process args)"

definition systemctl_status :: "bool \<Rightarrow> podman_target \<Rightarrow> string \<Rightarrow> (error, unit_status) io" where
  "systemctl_status dry_run target unit =
     bind_io (lift_io (validate_systemd_unit_name unit)) (\<lambda>_.
       if dry_run then return_io (empty_status unit)
       else
         bind_io (lift_io (build_systemctl_user_args target ''show'' (Some unit))) (\<lambda>args.
         bind_io (run_process_capture
           (args @ [''--property=LoadState'', ''--property=ActiveState'', ''--property=SubState''])) (\<lambda>output.
         return_io (parse_show_status unit output))))"

definition completed_operation :: "bool \<Rightarrow> podman_target \<Rightarrow> string \<Rightarrow> (error, unit_operation_result) io" where
  "completed_operation dry_run target unit =
     bind_io (systemctl_status dry_run target unit) (\<lambda>status.
       return_io \<lparr>uo_job_path = None, uo_final_status = status\<rparr>)"

text \<open>The common text of \<open>start_unit\<close>, \<open>restart_unit\<close> and \<open>stop_unit\<close>.\<close>

definition systemctl_operation ::
    "string \<Rightarrow> bool \<Rightarrow> podman_target \<Rightarrow> string \<Rightarrow> (error, unit_operation_result) io" where
  "systemctl_operation command dry_run target unit =
     bind_io (lift_io (build_systemctl_user_args target command (Some unit))) (\<lambda>args.
       if dry_run then completed_operation dry_run target unit
       else bind_io (run_process args) (\<lambda>_. completed_operation dry_run target unit))"

definition systemctl_controller :: "bool \<Rightarrow> user_systemd_controller" where
  "systemctl_controller dry_run =
     \<lparr>sc_daemon_reload = systemctl_daemon_reload dry_run,
      sc_start_unit = systemctl_operation ''start'' dry_run,
      sc_restart_unit = systemctl_operation ''restart'' dry_run,
      sc_stop_unit = systemctl_operation ''stop'' dry_run,
      sc_status = systemctl_status dry_run\<rparr>"

end
