(* ===== verification/Systemd_Facts.thy ===== *)
theory Systemd_Facts
  imports Systemd Posix_Facts Quadlet_Syntax
begin

text \<open>
  The interface \<open>UserSystemdController\<close> as a locale: what the deployment relies on, whichever
  controller it is given. It is interpreted here on the controller over \<open>systemctl\<close>. The
  lemmas before it say exactly which processes each operation runs.
\<close>

section \<open>Effects on processes only\<close>

definition process_entry :: "log_entry \<Rightarrow> bool" where
  "process_entry l = (case l of Log_spawn _ \<Rightarrow> True | Log_wait \<Rightarrow> True | _ \<Rightarrow> False)"

text \<open>\<open>runs ps w w'\<close>: from \<open>w\<close> to \<open>w'\<close> exactly the entries \<open>ps\<close> were logged, and replies used up.\<close>

definition runs :: "log_entry list \<Rightarrow> world \<Rightarrow> world \<Rightarrow> bool" where
  "runs ls w w' \<longleftrightarrow> (\<exists>ps. w' = w\<lparr>w_procs := ps, w_log := w_log w @ ls\<rparr>)"

definition talks :: "world \<Rightarrow> world \<Rightarrow> bool" where
  "talks w w' \<longleftrightarrow> (\<exists>ls. runs ls w w' \<and> list_all process_entry ls)"

lemma runs_refl [simp]: "runs [] w w"
  by (auto simp: runs_def intro: exI [of _ "w_procs w"])

lemma runs_procs [simp]: "runs [] w (w\<lparr>w_procs := ps\<rparr>)"
  by (auto simp: runs_def)

lemma runs_trans: "runs ls w w' \<Longrightarrow> runs ms w' w'' \<Longrightarrow> runs (ls @ ms) w w''"
  by (auto simp: runs_def)

lemma runs_talks: "runs ls w w' \<Longrightarrow> list_all process_entry ls \<Longrightarrow> talks w w'"
  by (auto simp: talks_def)

lemma talks_refl [simp]: "talks w w"
  by (rule runs_talks [OF runs_refl]) simp

lemma talks_trans [trans]: "talks w w' \<Longrightarrow> talks w' w'' \<Longrightarrow> talks w w''"
  unfolding talks_def by (elim exE conjE) (blast dest: runs_trans intro: list_all_append [THEN iffD2])

lemma runsD:
  assumes "runs ls w w'"
  shows "w_fs w' = w_fs w" "w_log w' = w_log w @ ls" "w_http w' = w_http w" "w_sched w' = w_sched w"
    "ctx w' = ctx w" "calm w' = calm w" "faultless w' = faultless w"
  using assms by (auto simp: runs_def ctx_def)

lemma talksD:
  assumes "talks w w'"
  shows "w_fs w' = w_fs w" "w_http w' = w_http w" "w_sched w' = w_sched w"
    "ctx w' = ctx w" "calm w' = calm w" "faultless w' = faultless w"
    "\<exists>ls. w_log w' = w_log w @ ls \<and> list_all process_entry ls"
proof -
  obtain ls where ls: "runs ls w w'" "list_all process_entry ls"
    using assms by (auto simp: talks_def)
  note runsD [OF ls(1), simp]
  show "w_fs w' = w_fs w" "w_http w' = w_http w" "w_sched w' = w_sched w"
    "ctx w' = ctx w" "calm w' = calm w" "faultless w' = faultless w"
    by simp_all
  show "\<exists>ls. w_log w' = w_log w @ ls \<and> list_all process_entry ls" using ls(2) by simp
qed

lemma talks_evolves: "talks w w' \<Longrightarrow> calm w \<Longrightarrow> evolves w w'"
  using talksD [of w w'] by (simp add: evolves_def)

section \<open>Running \<open>systemctl\<close>\<close>

text \<open>A call that waits for the child it started.\<close>

definition reaped :: "string list \<Rightarrow> log_entry list" where
  "reaped args = [Log_spawn (map c_str args), Log_wait]"

lemma list_all_reaped [simp]: "list_all process_entry (reaped args)"
  by (simp add: reaped_def process_entry_def)

lemma wp_next_proc: "wp next_proc Q E w = (case w_procs w of [] \<Rightarrow> Q quiet_proc w | p # ps \<Rightarrow> Q p (w\<lparr>w_procs := ps\<rparr>))"
  by (simp add: wp_def next_proc_def split: list.splits)

lemma wp_next_procI:
  assumes "\<And>p w'. runs [] w w' \<Longrightarrow> Q p w'"
  shows "wp next_proc Q E w"
  using assms [OF runs_refl] assms [OF runs_procs] by (simp add: wp_next_proc split: list.splits)

lemma runs_log [simp]: "runs [l] w (w\<lparr>w_log := w_log w @ [l]\<rparr>)"
  by (auto simp: runs_def intro: exI [of _ "w_procs w"])

lemma wp_posix_spawnp:
  assumes "\<And>w'. runs [Log_spawn (map c_str args)] w w' \<Longrightarrow> Q () w'"
    "\<And>e. kind e = Systemd \<Longrightarrow> E e w"
  shows "wp (posix_spawnp args p) Q E w"
  using assms by (auto simp: posix_spawnp_def wp_simps)

lemma wp_wait_for_child:
  assumes "\<And>w'. runs [Log_wait] w w' \<Longrightarrow> Q status w'" "\<And>e. kind e = Systemd \<Longrightarrow> E e w"
  shows "wp (wait_for_child es status) Q E w"
  using assms by (induction es) (auto simp: wp_simps)

lemma wp_capture_loop:
  assumes "\<And>out. Q out w" "\<And>e. kind e = Systemd \<Longrightarrow> E e w"
  shows "wp (capture_loop acc rs) Q E w"
  using assms by (induction acc rs rule: capture_loop.induct) (auto simp: wp_simps)

lemma runs_one: "runs [] w w1 \<Longrightarrow> runs [l] w1 w2 \<Longrightarrow> runs [l] w w2"
  using runs_trans by fastforce

lemma wp_run_process:
  assumes Q: "\<And>w'. runs (reaped args) w w' \<Longrightarrow> Q () w'"
    and E: "\<And>e w'. talks w w' \<Longrightarrow> kind e = Systemd \<Longrightarrow> E e w'"
  shows "wp (run_process args) Q E w"
proof (cases "args = []")
  case False
  have "wp (bind_io (posix_spawnp args p) (\<lambda>_. bind_io (wait_for_child (pr_waits p) (pr_status p)) (\<lambda>status.
      lift_io (guard (exited_zero status) (err Systemd (''systemctl exited with status '' @ show_int status)))))) Q E w1"
    if w1: "runs [] w w1" for p w1
    unfolding wp_bind wp_guard
  proof (rule wp_posix_spawnp, goal_cases)
    case (1 w2)
    then have w2: "runs [Log_spawn (map c_str args)] w w2" using w1 runs_one by blast
    show ?case
    proof (rule wp_wait_for_child, goal_cases)
      case (1 w3)
      then have "runs (reaped args) w w3" using runs_trans [OF w2] by (fastforce simp: reaped_def)
      with runs_talks [OF this] show ?case by (simp add: Q E)
    qed (rule E, rule runs_talks [OF w2], simp_all add: process_entry_def)
  qed (rule E, rule runs_talks [OF w1], simp_all)
  with False show ?thesis unfolding run_process_def by (simp add: wp_bind wp_next_procI)
qed (auto simp: run_process_def wp_simps intro: E)

lemma wp_run_process_capture:
  assumes Q: "\<And>out w'. runs (reaped args) w w' \<Longrightarrow> Q out w'"
    and E: "\<And>e w'. talks w w' \<Longrightarrow> kind e = Systemd \<Longrightarrow> E e w'"
  shows "wp (run_process_capture args) Q E w"
proof (cases "args = []")
  case False
  show ?thesis
    unfolding run_process_capture_def if_not_P [OF False] wp_bind wp_guard wp_return
  proof (rule wp_next_procI, goal_cases)
    case (1 p w1)
    note w1 = 1
    have "wp (posix_spawnp args p) (\<lambda>_. wp (capture_loop [] (pr_reads p)) (\<lambda>out.
        wp (wait_for_child (pr_waits p) (pr_status p)) (\<lambda>status w. if exited_zero status then Q out w
          else E (err Systemd (''systemctl exited with status '' @ show_int status @ '' output: '' @ out)) w) E) E) E w1"
    proof (rule wp_posix_spawnp, goal_cases)
      case (1 w2)
      then have w2: "runs [Log_spawn (map c_str args)] w w2" using w1 runs_one by blast
      show ?case
      proof (rule wp_capture_loop, rule wp_wait_for_child, goal_cases)
        case (1 out w3)
        then have "runs (reaped args) w w3" using runs_trans [OF w2] by (fastforce simp: reaped_def)
        with runs_talks [OF this] show ?case by (simp add: Q E)
      qed ((rule E, rule runs_talks [OF w2], simp add: process_entry_def, simp)+)
    qed (rule E, rule runs_talks [OF w1], simp_all)
    moreover have "E (call_error Systemd ''pipe2 failed: '' e w1) w1" for e
      by (rule E [OF runs_talks [OF w1]]) simp_all
    ultimately show ?case by (cases "pr_pipe p") (simp_all add: wp_simps)
  qed
qed (auto simp: run_process_capture_def wp_simps intro: E)

section \<open>Arguments\<close>

lemma safe_unit_values: "safe_systemd_unit unit \<Longrightarrow> safe_systemd_value unit"
  unfolding safe_systemd_unit_def safe_systemd_value_def list_all_iff ctype_defs
  by (elim conjE) (intro conjI ballI, blast, force)

lemma validate_unit_Inr [result_simps]: "validate_systemd_unit_name unit = Inr u \<longleftrightarrow> safe_systemd_unit unit"
  by (simp add: validate_systemd_unit_name_def result_simps)

text \<open>The argument vectors of the operations, when they are accepted.\<close>

definition user_args :: "podman_target \<Rightarrow> string \<Rightarrow> string list" where
  "user_args target command =
     [''systemctl'', ''--user'', ''--machine='' @ pt_user_name target @ ''@.host'', command]"

definition show_properties :: "string list" where
  "show_properties = [''--property=LoadState'', ''--property=ActiveState'', ''--property=SubState'']"

lemma build_args_Inr:
  "build_systemctl_user_args target command (Some unit) = Inr args \<longleftrightarrow>
     pt_user_name target \<noteq> [] \<and> safe_systemd_value command \<and> safe_systemd_unit unit
     \<and> args = user_args target command @ [unit]"
  "build_systemctl_user_args target command None = Inr args \<longleftrightarrow>
     pt_user_name target \<noteq> [] \<and> safe_systemd_value command \<and> args = user_args target command"
  unfolding build_systemctl_user_args_def result_simps option.case user_args_def by auto

lemma build_args_Inl_kind:
  "build_systemctl_user_args target command unit = Inl e \<Longrightarrow> kind e = Invalid_argument"
  unfolding build_systemctl_user_args_def bind_result_Inl guard_Inl validate_systemd_unit_name_def
  by (auto split: option.splits simp: guard_Inl)

section \<open>The operations over \<open>systemctl\<close>\<close>

lemma wp_systemctl_status:
  assumes Q: "\<And>st w'. runs (if dry then [] else reaped (user_args target ''show'' @ [unit] @ show_properties)) w w' \<Longrightarrow>
       us_unit st = unit \<Longrightarrow> safe_systemd_unit unit \<Longrightarrow> (dry \<Longrightarrow> st = empty_status unit) \<Longrightarrow> Q st w'"
    and bad: "\<And>e. kind e = Invalid_argument \<Longrightarrow>
       \<not> safe_systemd_unit unit \<or> pt_user_name target = [] \<Longrightarrow> E e w"
    and E: "\<And>e w'. talks w w' \<Longrightarrow> kind e = Systemd \<Longrightarrow> \<not> dry \<Longrightarrow> E e w'"
  shows "wp (systemctl_status dry target unit) Q E w"
proof (cases "safe_systemd_unit unit")
  case False
  then obtain e where "validate_systemd_unit_name unit = Inl e" "kind e = Invalid_argument"
    by (simp add: validate_systemd_unit_name_def)
  with bad False show ?thesis by (simp add: systemctl_status_def wp_bind wp_lift)
next
  case True
  then have v: "validate_systemd_unit_name unit = Inr ()" by (simp add: validate_systemd_unit_name_def)
  have us: "us_unit (fold show_line ls st) = us_unit st" for ls st
    by (induction ls arbitrary: st) (auto simp: show_line_def Let_def split: option.splits)
  show ?thesis
  proof (cases dry)
    case True
    with Q [of w] \<open>safe_systemd_unit unit\<close> show ?thesis
      by (simp add: systemctl_status_def wp_bind wp_lift v wp_return empty_status_def)
  next
    case False
    show ?thesis
    proof (cases "build_systemctl_user_args target ''show'' (Some unit)")
      case (Inl e)
      moreover have "pt_user_name target = []"
        using Inl True by (auto simp: build_systemctl_user_args_def bind_result_Inl guard_Inl v safe_systemd_value_def)
      ultimately show ?thesis
        using bad [of e] build_args_Inl_kind [OF Inl] False
        by (simp add: systemctl_status_def wp_bind wp_lift v)
    next
      case (Inr args)
      then have args: "args @ show_properties = user_args target ''show'' @ [unit] @ show_properties"
        by (simp add: build_args_Inr)
      show ?thesis
        unfolding systemctl_status_def wp_bind wp_lift v Inr sum.case if_not_P [OF False]
          show_properties_def [symmetric] args
      proof (rule wp_run_process_capture, goal_cases)
        case (1 out w')
        then show ?case
          using Q [of w'] False True us by (simp add: wp_return parse_show_status_def empty_status_def)
      qed (rule E [OF _ _ False])
    qed
  qed
qed

text \<open>What an operation runs: the command, then \<open>show\<close>.\<close>

definition operation_entries :: "bool \<Rightarrow> podman_target \<Rightarrow> string \<Rightarrow> string \<Rightarrow> log_entry list" where
  "operation_entries dry target command unit =
     (if dry then []
      else reaped (user_args target command @ [unit])
         @ reaped (user_args target ''show'' @ [unit] @ show_properties))"

lemma wp_systemctl_operation:
  assumes Q: "\<And>op w'. runs (operation_entries dry target command unit) w w' \<Longrightarrow> us_unit (uo_final_status op) = unit \<Longrightarrow>
       safe_systemd_unit unit \<Longrightarrow> pt_user_name target \<noteq> [] \<Longrightarrow> uo_job_path op = None \<Longrightarrow> Q op w'"
    and bad: "\<And>e. kind e = Invalid_argument \<Longrightarrow> E e w"
    and E: "\<And>e w'. talks w w' \<Longrightarrow> kind e = Systemd \<Longrightarrow> safe_systemd_unit unit \<Longrightarrow> E e w'"
  shows "wp (systemctl_operation command dry target unit) Q E w"
proof (cases "build_systemctl_user_args target command (Some unit)")
  case (Inl e)
  with bad [of e] build_args_Inl_kind [OF Inl] show ?thesis
    by (simp add: systemctl_operation_def wp_bind wp_lift)
next
  case (Inr args)
  then have a: "args = user_args target command @ [unit]" "safe_systemd_unit unit" "pt_user_name target \<noteq> []"
    by (auto simp: build_args_Inr)
  have status: "wp (completed_operation dry target unit) Q E w1"
    if w1: "runs (if dry then [] else reaped args) w w1" for w1
    unfolding completed_operation_def wp_bind wp_return
  proof (rule wp_systemctl_status, goal_cases)
    case (1 st w')
    show ?case
      by (rule Q) (use 1 runs_trans [OF w1 1(1)] a in \<open>auto simp: operation_entries_def\<close>)
  next
    case (3 e w')
    have "talks w w1" using w1 by (rule runs_talks) simp
    then show ?case using 3 a E talks_trans by blast
  qed (use a in auto)
  show ?thesis
    unfolding systemctl_operation_def wp_bind wp_lift Inr sum.case
  proof (cases dry)
    case True
    with status [of w] show "wp (if dry then completed_operation dry target unit
        else bind_io (run_process args) (\<lambda>_. completed_operation dry target unit)) Q E w" by simp
  next
    case False
    have "wp (run_process args) (\<lambda>_. wp (completed_operation dry target unit) Q E) E w"
      by (rule wp_run_process) (use status False E a in auto)
    with False show "wp (if dry then completed_operation dry target unit
        else bind_io (run_process args) (\<lambda>_. completed_operation dry target unit)) Q E w" by (simp add: wp_bind)
  qed
qed

lemma wp_systemctl_daemon_reload:
  assumes "\<And>w'. runs (if dry then [] else reaped (user_args target ''daemon-reload'')) w w' \<Longrightarrow> Q () w'"
    "\<And>e w'. talks w w' \<Longrightarrow> E e w'"
  shows "wp (systemctl_daemon_reload dry target) Q E w"
proof (cases "build_systemctl_user_args target ''daemon-reload'' None")
  case (Inl e)
  with assms(2) [OF talks_refl] show ?thesis by (simp add: systemctl_daemon_reload_def wp_bind wp_lift)
next
  case (Inr args)
  then have a: "args = user_args target ''daemon-reload''" by (auto simp: build_args_Inr)
  show ?thesis
    unfolding systemctl_daemon_reload_def wp_bind wp_lift Inr sum.case a
    by (cases dry) (auto intro!: assms wp_run_process simp: wp_return)
qed

section \<open>The interface\<close>

text \<open>
  What a caller may rely on: nothing but processes, signals and the log is touched; a unit name
  systemd would not take is refused without effect; results are about the unit asked for.
\<close>

locale user_systemd =
  fixes ctl :: user_systemd_controller
  assumes reload_talks: "wp (sc_daemon_reload ctl target) (\<lambda>_. talks w) (\<lambda>_. talks w) w"
    and restart_talks: "wp (sc_restart_unit ctl target unit)
      (\<lambda>op w'. talks w w' \<and> us_unit (uo_final_status op) = unit) (\<lambda>_. talks w) w"
    and start_talks: "wp (sc_start_unit ctl target unit)
      (\<lambda>op w'. talks w w' \<and> us_unit (uo_final_status op) = unit) (\<lambda>_. talks w) w"
    and stop_talks: "wp (sc_stop_unit ctl target unit)
      (\<lambda>op w'. talks w w' \<and> us_unit (uo_final_status op) = unit) (\<lambda>_. talks w) w"
    and status_talks: "wp (sc_status ctl target unit)
      (\<lambda>st w'. talks w w' \<and> us_unit st = unit) (\<lambda>_. talks w) w"
    and restart_refuses: "\<not> safe_systemd_unit unit \<Longrightarrow>
      \<exists>e. sc_restart_unit ctl target unit w = (Inl e, w) \<and> kind e = Invalid_argument"
begin

lemma wp_reload:
  "(\<And>w'. talks w w' \<Longrightarrow> Q () w') \<Longrightarrow> (\<And>e w'. talks w w' \<Longrightarrow> E e w') \<Longrightarrow>
     wp (sc_daemon_reload ctl target) Q E w"
  by (rule wp_cong_mono [OF reload_talks]) auto

lemma wp_restart:
  "(\<And>op w'. talks w w' \<Longrightarrow> us_unit (uo_final_status op) = unit \<Longrightarrow> Q op w') \<Longrightarrow>
     (\<And>e w'. talks w w' \<Longrightarrow> E e w') \<Longrightarrow> wp (sc_restart_unit ctl target unit) Q E w"
  by (rule wp_cong_mono [OF restart_talks]) auto

lemma wp_status:
  "(\<And>st w'. talks w w' \<Longrightarrow> us_unit st = unit \<Longrightarrow> Q st w') \<Longrightarrow>
     (\<And>e w'. talks w w' \<Longrightarrow> E e w') \<Longrightarrow> wp (sc_status ctl target unit) Q E w"
  by (rule wp_cong_mono [OF status_talks]) auto

end

lemma runs_operation_talks: "runs (operation_entries dry target command unit) w w' \<Longrightarrow> talks w w'"
  by (rule runs_talks) (auto simp: operation_entries_def)

lemma systemctl_operation_talks:
  "wp (systemctl_operation command dry target unit)
     (\<lambda>op w'. talks w w' \<and> us_unit (uo_final_status op) = unit) (\<lambda>_. talks w) w"
  by (rule wp_systemctl_operation) (auto dest: runs_operation_talks)

lemma systemctl_operation_refuses:
  assumes "\<not> safe_systemd_unit unit"
  shows "\<exists>e. systemctl_operation command dry target unit w = (Inl e, w) \<and> kind e = Invalid_argument"
proof (cases "build_systemctl_user_args target command (Some unit)")
  case (Inl e)
  with build_args_Inl_kind [OF Inl] show ?thesis
    by (simp add: systemctl_operation_def bind_io_def lift_io_def)
next
  case (Inr args)
  with assms show ?thesis by (simp add: build_args_Inr)
qed

interpretation systemctl: user_systemd "systemctl_controller dry" for dry
proof (unfold_locales, goal_cases)
  case (1 target w)
  show ?case
    by (simp add: systemctl_controller_def) (rule wp_systemctl_daemon_reload, auto intro: runs_talks)
next
  case (5 target unit w)
  show ?case
    by (simp add: systemctl_controller_def) (rule wp_systemctl_status, auto intro: runs_talks)
next
  case (6 unit target w)
  then show ?case by (simp add: systemctl_controller_def systemctl_operation_refuses)
qed (simp_all add: systemctl_controller_def systemctl_operation_talks)

end
