(* ===== verification/Systemd_Sdbus.thy ===== *)
theory Systemd_Sdbus
  imports Systemd
begin

text \<open>
  \<open>src/systemd_sdbus.cpp\<close>: the controller that talks to the systemd of the user over D-Bus.
  The library sdbus-c++ is not part of the repository; it is the parameter \<open>bus\<close>: connecting,
  calling a method (both may throw an \<open>sdbus::Error\<close>, a name and a message), and the
  \<open>JobRemoved\<close> signals the event loop delivers before the time limit.
\<close>

section \<open>The bus\<close>

type_synonym dbus_error = "string \<times> string"

text \<open>A signal carries the path of the job and its result.\<close>

type_synonym job_signal = "string \<times> string"

record bus =
  db_connect :: "string \<Rightarrow> (dbus_error, unit) io"
  db_call :: "string \<Rightarrow> string \<Rightarrow> string \<Rightarrow> string \<Rightarrow> string list \<Rightarrow> (dbus_error, string) io"
  db_signals :: "string \<Rightarrow> (dbus_error, job_signal list) io"

definition systemd_path :: string where
  "systemd_path = ''/org/freedesktop/systemd1''"

definition manager_interface :: string where
  "manager_interface = ''org.freedesktop.systemd1.Manager''"

definition unit_interface :: string where
  "unit_interface = ''org.freedesktop.systemd1.Unit''"

definition properties_interface :: string where
  "properties_interface = ''org.freedesktop.DBus.Properties''"

definition user_bus_address :: "podman_target \<Rightarrow> string" where
  "user_bus_address target =
     (let runtime_dir =
        (if pt_runtime_dir target = [] then path_append ''/run/user'' (show_nat (unat (pt_uid target)))
         else pt_runtime_dir target)
      in ''unix:path='' @ path_append runtime_dir ''bus'')"

text \<open>\<open>catch (const sdbus::Error &error)\<close>\<close>

definition catch_dbus :: "(dbus_error, 'a) io \<Rightarrow> string \<Rightarrow> (error, 'a) io" where
  "catch_dbus m what =
     catch_io m (\<lambda>(name, message). fail_io (err Systemd (what @ '': '' @ name @ '': '' @ message)))"

section \<open>Waiting for a job\<close>

text \<open>
  What the callback on \<open>JobRemoved\<close> shares with the caller: the job it waits for, once the
  reply to the method call is known, whether it has fired, and the value of the promise.
\<close>

record job_wait =
  jw_expected :: "string option"
  jw_done :: bool
  jw_result :: "string option"

definition new_job_wait :: job_wait where
  "new_job_wait = \<lparr>jw_expected = None, jw_done = False, jw_result = None\<rparr>"

definition on_job_removed :: "job_signal \<Rightarrow> job_wait \<Rightarrow> job_wait" where
  "on_job_removed s j =
     (if jw_done j then j
      else case jw_expected j of
        None \<Rightarrow> j
      | Some expected \<Rightarrow>
          if fst s \<noteq> expected then j
          else j\<lparr>jw_done := True, jw_result := Some (snd s)\<rparr>)"

section \<open>The operations\<close>

definition get_unit_property_string ::
    "bus \<Rightarrow> string \<Rightarrow> string \<Rightarrow> string \<Rightarrow> (error, string) io" where
  "get_unit_property_string b address unit_path property =
     catch_dbus (db_call b address unit_path properties_interface ''Get'' [unit_interface, property])
       ''systemd D-Bus property read failed''"

definition sdbus_status :: "bus \<Rightarrow> podman_target \<Rightarrow> string \<Rightarrow> (error, unit_status) io" where
  "sdbus_status b target unit =
     bind_io (lift_io (validate_systemd_unit_name unit)) (\<lambda>_.
     let address = user_bus_address target in
     bind_io (catch_dbus
       (bind_io (db_connect b address) (\<lambda>_.
        bind_io (db_call b address systemd_path manager_interface ''LoadUnit'' [unit]) (\<lambda>unit_path.
        bind_io (db_connect b address) (\<lambda>_. return_io unit_path))))
       ''systemd D-Bus status failed'') (\<lambda>unit_path.
     bind_io (get_unit_property_string b address unit_path ''LoadState'') (\<lambda>load.
     bind_io (get_unit_property_string b address unit_path ''ActiveState'') (\<lambda>active.
     bind_io (get_unit_property_string b address unit_path ''SubState'') (\<lambda>sub.
     return_io \<lparr>us_unit = unit, us_load_state = load, us_active_state = active, us_sub_state = sub\<rparr>)))))"

definition unit_job_and_wait ::
    "bus \<Rightarrow> podman_target \<Rightarrow> string \<Rightarrow> string \<Rightarrow> (error, unit_operation_result) io" where
  "unit_job_and_wait b target method unit =
     bind_io (lift_io (validate_systemd_unit_name unit)) (\<lambda>_.
     let address = user_bus_address target in
     bind_io (catch_dbus
       (bind_io (db_connect b address) (\<lambda>_.
        bind_io (db_call b address systemd_path manager_interface method [unit, ''replace'']) (\<lambda>job.
        bind_io (db_signals b address) (\<lambda>signals.
        return_io (job, fold on_job_removed signals (new_job_wait\<lparr>jw_expected := Some job\<rparr>))))))
       (''systemd D-Bus '' @ method @ '' failed'')) (\<lambda>(job, wait).
     case jw_result wait of
       None \<Rightarrow> fail_io (err Systemd (''systemd D-Bus '' @ method @ '' timed out waiting for JobRemoved''))
     | Some result \<Rightarrow>
         if result \<noteq> ''done'' then
           fail_io (err Systemd (''systemd D-Bus '' @ method @ '' job finished with result '' @ result))
         else
           bind_io (sdbus_status b target unit) (\<lambda>status.
           return_io \<lparr>uo_job_path = Some job, uo_final_status = status\<rparr>)))"

definition sdbus_daemon_reload :: "bus \<Rightarrow> podman_target \<Rightarrow> (error, unit) io" where
  "sdbus_daemon_reload b target =
     (let address = user_bus_address target in
      catch_dbus
        (bind_io (db_connect b address) (\<lambda>_.
         bind_io (db_call b address systemd_path manager_interface ''Reload'' []) (\<lambda>_. return_io ())))
        ''systemd D-Bus Reload failed'')"

definition sdbus_controller :: "bus \<Rightarrow> user_systemd_controller" where
  "sdbus_controller b =
     \<lparr>sc_daemon_reload = sdbus_daemon_reload b,
      sc_start_unit = (\<lambda>target. unit_job_and_wait b target ''StartUnit''),
      sc_restart_unit = (\<lambda>target. unit_job_and_wait b target ''RestartUnit''),
      sc_stop_unit = (\<lambda>target. unit_job_and_wait b target ''StopUnit''),
      sc_status = sdbus_status b\<rparr>"

end
