(* ===== verification/Systemd_Properties.thy ===== *)
theory Systemd_Properties
  imports Systemd_Facts Systemd_Sdbus
begin

text \<open>
  Properties of the two controllers and of the slice controller: what they accept, which
  processes they run and wait for, how the output of \<open>systemctl show\<close> is read, and how a job
  is waited for over D-Bus.
\<close>

section \<open>Names\<close>

text \<open>
  The unit name derived from a Quadlet file name the installer accepts is always one
  the systemd controllers accept: a deployment is never stopped by its own unit name.
\<close>

theorem derived_unit_is_accepted:
  assumes "service_unit_name_from_quadlet file_name = Inr unit"
  shows "validate_systemd_unit_name unit = Inr ()"
proof -
  obtain stem where stem: "quadlet_stem stem" "unit = stem @ ''.service''"
    using assms by (rule service_unit_name_Inr)
  have "list_all (\<lambda>c. isalnum c \<or> c = CHR ''_'' \<or> c = CHR ''-'' \<or> c = CHR ''.'' \<or> c = CHR ''@''
      \<or> c = CHR 0x5C) (stem @ ''.service'')"
    using stem(1) by (auto simp: quadlet_stem_def list_all_iff safe_unit_file_char_def ctype_defs)
  moreover have "\<not> starts_with (stem @ ''.service'') ''-''"
    using stem(1) by (cases stem) (auto simp: quadlet_stem_def)
  moreover have "ends_with (stem @ ''.service'') ''.service''" by (rule ends_with_append)
  ultimately show ?thesis
    using stem(1) unfolding validate_unit_Inr stem(2) safe_systemd_unit_def quadlet_stem_def by simp
qed

theorem derived_unit_is_accepted_witness:
  "validate_systemd_unit_name ''web@1.service'' = Inr ()"
  by (rule derived_unit_is_accepted [of "''web@1.container''"]) code_simp

section \<open>Processes\<close>

text \<open>
  A start, restart or stop that succeeds has run exactly two processes and waited for
  each before going on, the command and then \<open>show\<close>, with these argument vectors, in which the
  unit is one word that is not an option; it reports on the unit it was asked for and touched
  neither files nor connections. A dry run has run nothing.
\<close>

theorem systemctl_operation_processes:
  assumes "systemctl_operation command dry target unit w = (Inr op, w')"
  shows "w_log w' = w_log w @ (if dry then [] else
      [Log_spawn (map c_str [''systemctl'', ''--user'', ''--machine='' @ pt_user_name target @ ''@.host'', command, unit]),
       Log_wait,
       Log_spawn (map c_str [''systemctl'', ''--user'', ''--machine='' @ pt_user_name target @ ''@.host'', ''show'', unit,
         ''--property=LoadState'', ''--property=ActiveState'', ''--property=SubState'']),
       Log_wait])
    \<and> safe_systemd_unit unit \<and> us_unit (uo_final_status op) = unit
    \<and> w_fs w' = w_fs w \<and> w_http w' = w_http w"
proof (rule wp_Inr [OF wp_systemctl_operation assms, where E = "\<lambda>_ _. True"], goal_cases)
  case (1 op w')
  note runsD [OF 1(1)]
  with 1 show ?case
    by (simp add: operation_entries_def reaped_def user_args_def show_properties_def)
qed simp_all

definition sample_proc :: "int \<Rightarrow> string list \<Rightarrow> proc_reply" where
  "sample_proc status out = \<lparr>pr_spawn_rc = 0, pr_pipe = None, pr_reads = map Inr out, pr_waits = [4], pr_status = status\<rparr>"

definition sample_bus_world :: "proc_reply list \<Rightarrow> world" where
  "sample_bus_world ps =
     \<lparr>w_fs = \<lparr>inodes = (\<lambda>i. None), next_ino = 0\<rparr>, w_root = 0, w_cwd = 0, w_euid = 0, w_egid = 0,
      w_umask = 0, w_pid = 1, w_sched = [], w_strerror = (\<lambda>n. ''error''), w_getpwuid = (\<lambda>u. (0, None)),
      w_getpwnam = (\<lambda>s. (0, None)), w_http = [], w_curl_strerror = (\<lambda>n. ''error''), w_procs = ps, w_log = []\<rparr>"

lemma sample_bus_world_log [simp]: "w_log (sample_bus_world ps) = []"
  by (simp add: sample_bus_world_def)

definition sample_target :: podman_target where
  "sample_target = make_target 1000 ''alice'' default_runtime_layout ''5.0.0''"

definition sample_show :: string where
  "sample_show = ''LoadState=loaded'' @ [CHR 0x0A] @ ''ActiveState=active'' @ [CHR 0x0A] @ ''SubState=running'' @ [CHR 0x0A]"

lemma sample_restart:
  "fst (systemctl_operation ''restart'' False sample_target ''web.service''
     (sample_bus_world [sample_proc 0 [], sample_proc 0 [sample_show]]))
   = Inr \<lparr>uo_job_path = None, uo_final_status = \<lparr>us_unit = ''web.service'', us_load_state = ''loaded'',
       us_active_state = ''active'', us_sub_state = ''running''\<rparr>\<rparr>"
  by code_simp

theorem systemctl_operation_processes_witness:
  "length (w_log (snd (systemctl_operation ''restart'' False sample_target ''web.service''
     (sample_bus_world [sample_proc 0 [], sample_proc 0 [sample_show]])))) = 4"
proof -
  obtain op w' where run: "systemctl_operation ''restart'' False sample_target ''web.service''
     (sample_bus_world [sample_proc 0 [], sample_proc 0 [sample_show]]) = (Inr op, w')"
    using sample_restart by (metis prod.collapse)
  from systemctl_operation_processes [OF this] show ?thesis by (simp add: run)
qed

text \<open>
  When reading the output of \<open>systemctl show\<close> fails, the controller returns without
  waiting for the process it started: the child stays behind, whatever it was going to do.
\<close>

theorem capture_leaves_child:
  assumes "args \<noteq> []" "w_procs w = p # ps" "pr_pipe p = None" "pr_spawn_rc p = 0"
    and "pr_reads p = map Inr chunks @ Inl n # rest" "[] \<notin> set chunks" "n \<noteq> EINTR"
  shows "\<exists>e w'. run_process_capture args w = (Inl e, w') \<and> os_errno e = n
    \<and> w_log w' = w_log w @ [Log_spawn (map c_str args)]"
proof -
  have loop: "capture_loop out (map Inr chunks @ Inl n # rest) v
      = os_error Systemd ''read failed for systemctl output: '' n v" for out v
    using assms(6) by (induction chunks arbitrary: out) (auto simp: assms(7))
  show ?thesis
    using assms(1-4) unfolding run_process_capture_def bind_io_def next_proc_def
    by (simp add: posix_spawnp_def log_io_def return_io_def assms(5) loop)
      (simp add: os_error_def)
qed

theorem capture_leaves_child_witness:
  "\<exists>e w'. run_process_capture [''systemctl'']
      (sample_bus_world [(sample_proc 0 [])\<lparr>pr_reads := [Inr ''Load'', Inl 5]\<rparr>]) = (Inl e, w') \<and> os_errno e = 5
    \<and> w_log w' = [Log_spawn [''systemctl'']]"
  using capture_leaves_child [where args = "[''systemctl'']" and chunks = "[''Load'']" and n = 5 and rest = "[]"
      and ps = "[]" and p = "(sample_proc 0 [])\<lparr>pr_reads := [Inr ''Load'', Inl 5]\<rparr>"
      and w = "sample_bus_world [(sample_proc 0 [])\<lparr>pr_reads := [Inr ''Load'', Inl 5]\<rparr>]"]
  by (simp add: sample_bus_world_def sample_proc_def EINTR_def c_str_def)

section \<open>Reading the output of \<open>show\<close>\<close>

definition last_value :: "string \<Rightarrow> (string \<times> string) list \<Rightarrow> string" where
  "last_value key kvs = (case map_of (rev kvs) key of None \<Rightarrow> [] | Some v \<Rightarrow> v)"

lemma show_line_entry:
  "CHR ''='' \<notin> set k \<Longrightarrow> show_line (k @ ''='' @ v) st =
     (if k = ''LoadState'' then st\<lparr>us_load_state := v\<rparr>
      else if k = ''ActiveState'' then st\<lparr>us_active_state := v\<rparr>
      else if k = ''SubState'' then st\<lparr>us_sub_state := v\<rparr> else st)"
  by (simp add: show_line_def str_find_append Let_def)

text \<open>
  The status read from the output of \<open>systemctl show\<close> has, for each of the three
  properties, the value of its last line, everything after the first equals sign, and nothing
  for a property that is missing; other lines do not matter.
\<close>

theorem show_status_values:
  assumes "\<forall>(k, v) \<in> set kvs. CHR ''='' \<notin> set k \<and> CHR 0x0A \<notin> set k \<and> CHR 0x0A \<notin> set v"
  shows "parse_show_status unit (concat (map (\<lambda>l. l @ [CHR 0x0A]) (map (\<lambda>(k, v). k @ ''='' @ v) kvs)))
    = \<lparr>us_unit = unit, us_load_state = last_value ''LoadState'' kvs,
       us_active_state = last_value ''ActiveState'' kvs, us_sub_state = last_value ''SubState'' kvs\<rparr>"
proof -
  have lines: "\<forall>l \<in> set (map (\<lambda>(k, v). k @ ''='' @ v) kvs). CHR 0x0A \<notin> set l"
    using assms by auto
  have "fold show_line (map (\<lambda>(k, v). k @ ''='' @ v) kvs) (empty_status unit)
    = \<lparr>us_unit = unit, us_load_state = last_value ''LoadState'' kvs,
       us_active_state = last_value ''ActiveState'' kvs, us_sub_state = last_value ''SubState'' kvs\<rparr>"
    using assms
  proof (induction kvs rule: rev_induct)
    case (snoc kv kvs)
    obtain k v where kv: "kv = (k, v)" by fastforce
    have "CHR ''='' \<notin> set k" using snoc.prems by (simp add: kv)
    from show_line_entry [OF this] snoc show ?case
      by (simp add: kv last_value_def)
  qed (simp add: empty_status_def last_value_def)
  then show ?thesis unfolding parse_show_status_def getline_parts_lines [OF lines] .
qed

theorem show_status_values_witness:
  "us_active_state (parse_show_status ''web.service'' sample_show) = ''active''"
  using show_status_values [of "[(''LoadState'', ''loaded''), (''ActiveState'', ''active''), (''SubState'', ''running'')]"
      "''web.service''"]
  by (simp add: sample_show_def last_value_def)

section \<open>Slices\<close>

definition slice_ok :: "user_slice_policy \<Rightarrow> bool" where
  "slice_ok p \<longleftrightarrow>
     (sp_cpu_quota p, sp_memory_max p, sp_allowed_cpus p, sp_cpu_weight p, sp_tasks_max p) \<noteq> (None, None, None, None, None)
     \<and> (\<forall>v \<in> set_option (sp_cpu_quota p) \<union> set_option (sp_memory_max p) \<union> set_option (sp_allowed_cpus p). safe_systemd_value v)
     \<and> (\<forall>n \<in> set_option (sp_cpu_weight p). 1 \<le> unat n \<and> unat n \<le> 10000)
     \<and> (\<forall>n \<in> set_option (sp_tasks_max p). 0 < unat n)"

lemma validate_slice_iff: "validate_user_slice_policy p = Inr () \<longleftrightarrow> slice_ok p"
  unfolding validate_user_slice_policy_def result_simps slice_ok_def
  by (cases "sp_cpu_quota p"; cases "sp_memory_max p"; cases "sp_allowed_cpus p"; cases "sp_cpu_weight p";
      cases "sp_tasks_max p") (auto simp: word_le_nat_alt word_less_nat_alt unat_gt_0 Suc_le_eq)

lemma validate_slice_kind: "validate_user_slice_policy p = Inl e \<Longrightarrow> kind e = Policy"
  unfolding validate_user_slice_policy_def bind_result_Inl guard_Inl by (elim disjE exE conjE) simp_all

lemma safe_value_append: "safe_systemd_value a \<Longrightarrow> list_all (\<lambda>c. \<not> (byte_of c < 0x20 \<or> byte_of c = 0x7f)) b \<Longrightarrow>
    safe_systemd_value (a @ b)"
  by (simp add: safe_systemd_value_def)

lemma safe_value_digits: "list_all (\<lambda>c. \<not> (byte_of c < 0x20 \<or> byte_of c = 0x7f)) (show_nat n)"
  using show_nat_digits [of _ n] by (force simp: list_all_iff isdigit_def)

lemma property_arg_safe:
  assumes "safe_systemd_value name" "\<And>v. x = Some v \<Longrightarrow> list_all (\<lambda>c. \<not> (byte_of c < 0x20 \<or> byte_of c = 0x7f)) (print v)"
  shows "list_all safe_systemd_value (property_arg name print x)"
proof -
  have "safe_systemd_value ''=''" by code_simp
  with assms show ?thesis
    by (auto simp: property_arg_def safe_systemd_value_def split: option.splits)
qed

text \<open>
  The slice controller accepts a policy exactly when it sets something, its texts are
  not empty and free of control characters, the CPU weight is between 1 and 10000 and the task
  limit positive; then every argument it passes to \<open>systemctl\<close> is a non-empty word without
  control characters, one for each property set after the four fixed ones. Otherwise the error
  is a policy error.
\<close>

theorem slice_args_correct:
  "case build_systemctl_set_property_args p of
     Inl e \<Rightarrow> \<not> slice_ok p \<and> kind e = Policy
   | Inr args \<Rightarrow> slice_ok p \<and> list_all safe_systemd_value args
       \<and> args = [''systemctl'', ''set-property'', ''--runtime'', ''user-'' @ show_nat (unat (sp_uid p)) @ ''.slice'']
           @ drop 4 args
       \<and> length args = 4 + length (filter id [sp_cpu_quota p \<noteq> None, sp_cpu_weight p \<noteq> None,
           sp_memory_max p \<noteq> None, sp_tasks_max p \<noteq> None, sp_allowed_cpus p \<noteq> None])"
proof (cases "validate_user_slice_policy p")
  case (Inl e)
  then have "\<not> slice_ok p" "kind e = Policy"
    using validate_slice_iff [of p] validate_slice_kind by auto
  with Inl show ?thesis by (simp add: build_systemctl_set_property_args_def)
next
  case (Inr u)
  then have ok: "slice_ok p" by (simp add: validate_slice_iff [symmetric])
  then have texts: "list_all (\<lambda>c. \<not> (byte_of c < 0x20 \<or> byte_of c = 0x7f)) v"
    if "v \<in> set_option (sp_cpu_quota p) \<union> set_option (sp_memory_max p) \<union> set_option (sp_allowed_cpus p)" for v
    using that by (auto simp: slice_ok_def safe_systemd_value_def)
  have names: "safe_systemd_value ''CPUQuota''" "safe_systemd_value ''CPUWeight''" "safe_systemd_value ''MemoryMax''"
      "safe_systemd_value ''TasksMax''" "safe_systemd_value ''AllowedCPUs''" by code_simp+
  have fixed: "safe_systemd_value ''systemctl''" "safe_systemd_value ''set-property''" "safe_systemd_value ''--runtime''"
      "safe_systemd_value (''user-'' @ show_nat (unat (sp_uid p)) @ ''.slice'')"
    by (code_simp, code_simp, code_simp) (simp add: safe_systemd_value_def safe_value_digits [simplified])
  have props: "list_all safe_systemd_value (property_arg ''CPUQuota'' id (sp_cpu_quota p))"
      "list_all safe_systemd_value (property_arg ''CPUWeight'' (\<lambda>n. show_nat (unat n)) (sp_cpu_weight p))"
      "list_all safe_systemd_value (property_arg ''MemoryMax'' id (sp_memory_max p))"
      "list_all safe_systemd_value (property_arg ''TasksMax'' (\<lambda>n. show_nat (unat n)) (sp_tasks_max p))"
      "list_all safe_systemd_value (property_arg ''AllowedCPUs'' id (sp_allowed_cpus p))"
    using names texts safe_value_digits by (auto intro!: property_arg_safe)
  have len: "length (property_arg name print x) = (if x \<noteq> None then 1 else 0)" for name print and x :: "'b option"
    by (simp add: property_arg_def split: option.splits)
  show ?thesis
    using ok fixed props by (simp add: build_systemctl_set_property_args_def Inr len)
qed

section \<open>Jobs over D-Bus\<close>

text \<open>The callback keeps the result of the first signal about the job, and ignores all others.\<close>

lemma job_wait_first:
  "fold on_job_removed signals (new_job_wait\<lparr>jw_expected := Some job\<rparr>) =
     \<lparr>jw_expected = Some job, jw_done = (job \<in> fst ` set signals), jw_result = map_of signals job\<rparr>"
proof -
  have step: "on_job_removed s j = (if jw_done j \<or> jw_expected j \<noteq> Some (fst s) then j
      else j\<lparr>jw_done := True, jw_result := Some (snd s)\<rparr>)" for s j
    by (auto simp: on_job_removed_def split: option.split)
  have stays: "fold on_job_removed ss j = j" if "jw_done j" for j ss
    using that by (induction ss) (simp_all add: step)
  have "fold on_job_removed signals \<lparr>jw_expected = Some job, jw_done = False, jw_result = None\<rparr> =
     \<lparr>jw_expected = Some job, jw_done = (job \<in> fst ` set signals), jw_result = map_of signals job\<rparr>"
  proof (induction signals)
    case (Cons s signals)
    obtain a r where "s = (a, r)" by fastforce
    with Cons show ?case by (simp add: step [of "(a, r)"] stays)
  qed simp
  then show ?thesis by (simp add: new_job_wait_def)
qed

text \<open>
  C32: Over D-Bus, the outcome of an operation is the result carried by the first signal
  about its own job: a timeout when there is none, an error when it is not \<open>done\<close>, and
  otherwise the status of the unit, read after it. Signals about other jobs, and later ones
  about the same, do not matter.
\<close>

theorem unit_job_and_wait_outcome:
  assumes "safe_systemd_unit unit" "db_connect b (user_bus_address target) w = (Inr (), w1)"
    and "db_call b (user_bus_address target) systemd_path manager_interface method [unit, ''replace''] w1 = (Inr job, w2)"
    and "db_signals b (user_bus_address target) w2 = (Inr signals, w3)"
  shows "unit_job_and_wait b target method unit w =
    (case map_of signals job of
       None \<Rightarrow> (Inl (err Systemd (''systemd D-Bus '' @ method @ '' timed out waiting for JobRemoved'')), w3)
     | Some r \<Rightarrow>
         if r \<noteq> ''done'' then (Inl (err Systemd (''systemd D-Bus '' @ method @ '' job finished with result '' @ r)), w3)
         else case sdbus_status b target unit w3 of
             (Inl e, w4) \<Rightarrow> (Inl e, w4)
           | (Inr status, w4) \<Rightarrow> (Inr \<lparr>uo_job_path = Some job, uo_final_status = status\<rparr>, w4))"
proof -
  have "validate_systemd_unit_name unit = Inr ()" using assms(1) by (simp add: validate_systemd_unit_name_def)
  then show ?thesis
    unfolding unit_job_and_wait_def Let_def bind_io_def lift_io_def catch_dbus_def catch_io_def return_io_def
    by (simp only: assms(2-4) prod.case sum.case job_wait_first)
      (auto simp: fail_io_def split: option.split prod.split sum.split)
qed

definition sample_bus :: bus where
  "sample_bus =
     \<lparr>db_connect = (\<lambda>a. return_io ()),
      db_call = (\<lambda>a p i m args. return_io (if i = manager_interface then ''/job/7'' else m)),
      db_signals = (\<lambda>a. return_io [(''/job/6'', ''failed''), (''/job/7'', ''done''), (''/job/7'', ''failed'')])\<rparr>"

theorem unit_job_and_wait_outcome_witness:
  "fst (unit_job_and_wait sample_bus sample_target ''RestartUnit'' ''web.service'' (sample_bus_world []))
   = Inr \<lparr>uo_job_path = Some ''/job/7'', uo_final_status = \<lparr>us_unit = ''web.service'', us_load_state = ''Get'',
       us_active_state = ''Get'', us_sub_state = ''Get''\<rparr>\<rparr>"
proof -
  let ?w = "sample_bus_world []"
  have safe: "safe_systemd_unit ''web.service''" by code_simp
  have st: "sdbus_status sample_bus sample_target ''web.service'' ?w = (Inr \<lparr>us_unit = ''web.service'',
      us_load_state = ''Get'', us_active_state = ''Get'', us_sub_state = ''Get''\<rparr>, ?w)"
    using safe by (simp add: sdbus_status_def get_unit_property_string_def catch_dbus_def bind_io_def catch_io_def
        return_io_def lift_io_def validate_systemd_unit_name_def sample_bus_def properties_interface_def manager_interface_def)
  have "unit_job_and_wait sample_bus sample_target ''RestartUnit'' ''web.service'' ?w =
    (case map_of [(''/job/6'', ''failed''), (''/job/7'', ''done''), (''/job/7'', ''failed'')] ''/job/7'' of
       None \<Rightarrow> (Inl (err Systemd (''systemd D-Bus '' @ ''RestartUnit'' @ '' timed out waiting for JobRemoved'')), ?w)
     | Some r \<Rightarrow>
         if r \<noteq> ''done'' then (Inl (err Systemd (''systemd D-Bus '' @ ''RestartUnit'' @ '' job finished with result '' @ r)), ?w)
         else case sdbus_status sample_bus sample_target ''web.service'' ?w of
             (Inl e, w4) \<Rightarrow> (Inl e, w4)
           | (Inr status, w4) \<Rightarrow> (Inr \<lparr>uo_job_path = Some ''/job/7'', uo_final_status = status\<rparr>, w4))"
    by (rule unit_job_and_wait_outcome [OF safe]) (simp_all add: sample_bus_def return_io_def)
  then show ?thesis by (simp add: st)
qed

section \<open>One contract for both controllers\<close>

text \<open>What is asked of the bus: it answers, and touches no files and no connections of ours.\<close>

definition well_behaved_bus :: "bus \<Rightarrow> bool" where
  "well_behaved_bus b \<longleftrightarrow>
     (\<forall>a w. wp (db_connect b a) (\<lambda>_. talks w) (\<lambda>_. talks w) w)
     \<and> (\<forall>a p i m args w. wp (db_call b a p i m args) (\<lambda>_. talks w) (\<lambda>_. talks w) w)
     \<and> (\<forall>a w. wp (db_signals b a) (\<lambda>_. talks w) (\<lambda>_. talks w) w)"

lemma wp_talks_bind:
  assumes "wp m (\<lambda>_. talks w) (\<lambda>_. talks w) w"
    "\<And>x w'. talks w w' \<Longrightarrow> wp (f x) (\<lambda>x w''. talks w' w'' \<and> P x) (\<lambda>_. talks w') w'"
  shows "wp (bind_io m f) (\<lambda>x w'. talks w w' \<and> P x) (\<lambda>_. talks w) w"
  unfolding wp_bind
  by (rule wp_cong_mono [OF assms(1)], rule wp_cong_mono [OF assms(2)]) (auto intro: talks_trans)

lemma wp_talks_catch:
  assumes "wp m (\<lambda>_. talks w) (\<lambda>_. talks w) w"
  shows "wp (catch_dbus m what) (\<lambda>_. talks w) (\<lambda>_. talks w) w"
  using assms unfolding catch_dbus_def wp_catch by (rule wp_cong_mono) (auto simp: wp_fail split: prod.split)

lemma wp_talks_unbind:
  assumes "wp m (\<lambda>x w'. talks w w' \<and> True) (\<lambda>_. talks w) w"
  shows "wp m (\<lambda>_. talks w) (\<lambda>_. talks w) w"
  using assms by simp

lemma wp_sdbus_status:
  assumes b: "well_behaved_bus b"
  shows "wp (sdbus_status b target unit) (\<lambda>st w'. talks w w' \<and> us_unit st = unit) (\<lambda>_. talks w) w"
proof -
  note bus_rules = b [unfolded well_behaved_bus_def, THEN conjunct1, rule_format]
    b [unfolded well_behaved_bus_def, THEN conjunct2, THEN conjunct1, rule_format]
  have property: "wp (get_unit_property_string b a p q) (\<lambda>_. talks v) (\<lambda>_. talks v) v" for a p q v
    unfolding get_unit_property_string_def by (intro wp_talks_catch bus_rules)
  have load: "wp (catch_dbus (bind_io (db_connect b a) (\<lambda>_. bind_io (db_call b a systemd_path manager_interface ''LoadUnit'' [unit])
      (\<lambda>p. bind_io (db_connect b a) (\<lambda>_. return_io p)))) what) (\<lambda>_. talks v) (\<lambda>_. talks v) v" for a what v
    by (intro wp_talks_catch, rule wp_talks_unbind, (rule wp_talks_bind, rule bus_rules)+) (simp add: wp_return)
  have "wp (sdbus_status b target unit) (\<lambda>st w'. talks w w' \<and> us_unit st = unit) (\<lambda>_. talks w) w"
    unfolding sdbus_status_def Let_def
    by (rule wp_talks_bind, simp add: wp_lift split: sum.split, rule wp_talks_bind, rule load,
        (rule wp_talks_bind, rule property)+) (simp add: wp_return)
  then show ?thesis .
qed

lemma wp_unit_job_and_wait:
  assumes b: "well_behaved_bus b"
  shows "wp (unit_job_and_wait b target method unit) (\<lambda>op w'. talks w w' \<and> us_unit (uo_final_status op) = unit)
    (\<lambda>_. talks w) w"
proof -
  note bus_rules = b [unfolded well_behaved_bus_def, THEN conjunct1, rule_format]
    b [unfolded well_behaved_bus_def, THEN conjunct2, THEN conjunct1, rule_format]
    b [unfolded well_behaved_bus_def, THEN conjunct2, THEN conjunct2, rule_format]
  have job: "wp (catch_dbus (bind_io (db_connect b a) (\<lambda>_. bind_io (db_call b a systemd_path manager_interface method args)
      (\<lambda>job. bind_io (db_signals b a) (\<lambda>signals. return_io (job, f job signals))))) what)
      (\<lambda>_. talks v) (\<lambda>_. talks v) v" for a args what v f
    by (intro wp_talks_catch, rule wp_talks_unbind, (rule wp_talks_bind, rule bus_rules)+) (simp add: wp_return)
  have status: "wp (bind_io (sdbus_status b target unit) (\<lambda>status. return_io \<lparr>uo_job_path = Some j, uo_final_status = status\<rparr>))
      (\<lambda>op w'. talks v w' \<and> us_unit (uo_final_status op) = unit) (\<lambda>_. talks v) v" for j v
    unfolding wp_bind by (rule wp_cong_mono [OF wp_sdbus_status [OF b]]) (simp_all add: wp_return)
  show ?thesis
    unfolding unit_job_and_wait_def Let_def
    by (rule wp_talks_bind, simp add: wp_lift split: sum.split, rule wp_talks_bind, rule job)
      (auto simp: wp_fail intro: status split: option.split prod.split)
qed

lemma sdbus_contract:
  assumes b: "well_behaved_bus b"
  shows "user_systemd (sdbus_controller b)"
proof (unfold_locales, goal_cases)
  case (1 target w)
  note bus_rules = b [unfolded well_behaved_bus_def, THEN conjunct1, rule_format]
    b [unfolded well_behaved_bus_def, THEN conjunct2, THEN conjunct1, rule_format]
  have "wp (catch_dbus (bind_io (db_connect b a) (\<lambda>_. bind_io (db_call b a systemd_path manager_interface ''Reload'' [])
      (\<lambda>_. return_io ()))) what) (\<lambda>_. talks w) (\<lambda>_. talks w) w" for a what
    by (intro wp_talks_catch, rule wp_talks_unbind, (rule wp_talks_bind, rule bus_rules)+) (simp add: wp_return)
  then show ?case by (simp add: sdbus_controller_def sdbus_daemon_reload_def Let_def)
next
  case (6 unit target w)
  then show ?case
    by (simp add: sdbus_controller_def unit_job_and_wait_def bind_io_def lift_io_def validate_systemd_unit_name_def)
qed (simp_all add: sdbus_controller_def wp_unit_job_and_wait [OF b] wp_sdbus_status [OF b])

text \<open>
  C8: Both controllers keep the contract of \<open>UserSystemdController\<close> the deployment relies
  on: the one over \<open>systemctl\<close>, and the one over D-Bus with any bus that behaves.
\<close>

theorem controllers_keep_contract:
  "user_systemd (systemctl_controller dry) \<and> (well_behaved_bus b \<longrightarrow> user_systemd (sdbus_controller b))"
  using systemctl.user_systemd_axioms sdbus_contract by blast

theorem controllers_keep_contract_witness: "user_systemd (sdbus_controller sample_bus)"
proof -
  have "well_behaved_bus sample_bus" by (simp add: well_behaved_bus_def sample_bus_def wp_return)
  with controllers_keep_contract [of False sample_bus] show ?thesis by simp
qed

end
