(* ===== verification/Container_Spec.thy ===== *)
theory Container_Spec
  imports Errors
begin

text \<open>
  \<open>src/container_spec.cpp\<close> and \<open>include/pod_installer/container_spec.hpp\<close>: the specification of
  a container, its validation, and the JSON text sent to Podman. A \<open>std::map\<close> is a list of
  pairs in the order of its keys; \<open>int64_t\<close> is a word of 64 bits read as a signed number.
\<close>

section \<open>Data\<close>

type_synonym i64 = "64 word"
type_synonym string_map = "(string \<times> string) list"

record cpu_limits =
  cpu_period :: "i64 option"
  cpu_quota :: "i64 option"
  cpu_shares :: "i64 option"
  cpu_cpus :: "string option"

record memory_limits =
  mem_limit :: "i64 option"
  mem_swap :: "i64 option"

record pids_limits =
  pids_limit :: "i64 option"

record resource_limits =
  rl_cpu :: "cpu_limits option"
  rl_memory :: "memory_limits option"
  rl_pids :: "pids_limits option"

record container_spec =
  cs_name :: string
  cs_image :: string
  cs_command :: "string list"
  cs_env :: string_map
  cs_labels :: string_map
  cs_read_only_filesystem :: bool
  cs_cap_drop :: "string list"
  cs_security_opt :: "string list"
  cs_resource_limits :: "resource_limits option"

text \<open>A specification with the default member initialisers.\<close>

definition default_container_spec :: container_spec where
  "default_container_spec =
     \<lparr>cs_name = [], cs_image = [], cs_command = [], cs_env = [], cs_labels = [],
      cs_read_only_filesystem = True, cs_cap_drop = [''ALL''], cs_security_opt = [''no-new-privileges''],
      cs_resource_limits = None\<rparr>"

section \<open>Validation\<close>

definition has_control :: "string \<Rightarrow> bool" where
  "has_control value \<longleftrightarrow> list_ex (\<lambda>c. byte_of c < 0x20) value"

definition valid_container_name :: "string \<Rightarrow> bool" where
  "valid_container_name value \<longleftrightarrow>
     (case value of
        [] \<Rightarrow> False
      | c # cs \<Rightarrow> length value \<le> 128 \<and> isalnum c
          \<and> list_all (\<lambda>c. isalnum c \<or> c = CHR ''_'' \<or> c = CHR ''.'' \<or> c = CHR ''-'') cs)"

definition valid_key :: "string \<Rightarrow> bool" where
  "valid_key value \<longleftrightarrow> value \<noteq> [] \<and> \<not> has_control value"

definition valid_cpuset :: "string \<Rightarrow> bool" where
  "valid_cpuset value \<longleftrightarrow>
     value \<noteq> [] \<and> list_all (\<lambda>c. isdigit c \<or> c = CHR '','' \<or> c = CHR ''-'') value"

definition require_positive :: "i64 option \<Rightarrow> string \<Rightarrow> unit Result" where
  "require_positive value field =
     (case value of
        Some v \<Rightarrow> guard (\<not> sint v \<le> 0) (err Policy (field @ '' must be positive''))
      | None \<Rightarrow> Inr ())"

definition validate_cpu :: "cpu_limits \<Rightarrow> unit Result" where
  "validate_cpu cpu =
     bind_result (require_positive (cpu_period cpu) ''cpu.period'') (\<lambda>_.
     bind_result (require_positive (cpu_quota cpu) ''cpu.quota'') (\<lambda>_.
     bind_result (require_positive (cpu_shares cpu) ''cpu.shares'') (\<lambda>_.
     guard (case cpu_cpus cpu of Some c \<Rightarrow> valid_cpuset c | None \<Rightarrow> True)
       (err Policy ''cpu.cpus must contain only digits, commas, and dashes''))))"

definition validate_memory :: "memory_limits \<Rightarrow> unit Result" where
  "validate_memory memory =
     bind_result (require_positive (mem_limit memory) ''memory.limit'') (\<lambda>_.
     require_positive (mem_swap memory) ''memory.swap'')"

definition validate_limits :: "resource_limits \<Rightarrow> unit Result" where
  "validate_limits limits =
     bind_result (case rl_cpu limits of Some cpu \<Rightarrow> validate_cpu cpu | None \<Rightarrow> Inr ()) (\<lambda>_.
     bind_result (case rl_memory limits of Some memory \<Rightarrow> validate_memory memory | None \<Rightarrow> Inr ()) (\<lambda>_.
     case rl_pids limits of
       Some pids \<Rightarrow> require_positive (pids_limit pids) ''pids.limit''
     | None \<Rightarrow> Inr ()))"

definition validate_container_spec :: "container_spec \<Rightarrow> unit Result" where
  "validate_container_spec spec =
     bind_result
       (guard (valid_container_name (cs_name spec))
          (err Invalid_argument ''container name must match [A-Za-z0-9][A-Za-z0-9_.-]{0,127}''))
     (\<lambda>_. bind_result
       (guard (cs_image spec \<noteq> [] \<and> \<not> has_control (cs_image spec))
          (err Invalid_argument ''container image must be non-empty and contain no control characters''))
     (\<lambda>_. bind_result
       (check_all (\<lambda>(key, value). guard (valid_key key)
          (err Invalid_argument ''environment keys must be non-empty and contain no control characters''))
          (cs_env spec))
     (\<lambda>_. bind_result
       (check_all (\<lambda>(key, value). guard (valid_key key)
          (err Invalid_argument ''label keys must be non-empty and contain no control characters''))
          (cs_labels spec))
     (\<lambda>_. case cs_resource_limits spec of Some limits \<Rightarrow> validate_limits limits | None \<Rightarrow> Inr ()))))"

section \<open>JSON\<close>

definition json_escape_char :: "char \<Rightarrow> string" where
  "json_escape_char c =
     (if c = CHR 0x22 then [CHR 0x5C, CHR 0x22]
      else if c = CHR 0x5C then [CHR 0x5C, CHR 0x5C]
      else if c = CHR 0x08 then [CHR 0x5C, CHR ''b'']
      else if c = CHR 0x0C then [CHR 0x5C, CHR ''f'']
      else if c = CHR 0x0A then [CHR 0x5C, CHR ''n'']
      else if c = CHR 0x0D then [CHR 0x5C, CHR ''r'']
      else if c = CHR 0x09 then [CHR 0x5C, CHR ''t'']
      else if byte_of c < 0x20 then
        [CHR 0x5C, CHR ''u'', CHR ''0'', CHR ''0'', hex_lower (byte_of c div 16), hex_lower (byte_of c mod 16)]
      else [c])"

definition append_json_string :: "string \<Rightarrow> string \<Rightarrow> string" where
  "append_json_string out value = out @ [CHR 0x22] @ concat (map json_escape_char value) @ [CHR 0x22]"

definition json_string :: "string \<Rightarrow> string" where
  "json_string value = append_json_string [] value"

text \<open>The buffer and the flag \<open>first\<close> are passed along.\<close>

definition append_field :: "string \<times> bool \<Rightarrow> string \<Rightarrow> string \<Rightarrow> string \<times> bool" where
  "append_field acc name raw_value =
     (case acc of (out, first) \<Rightarrow>
        (append_json_string (if first then out else out @ '','') name @ '':'' @ raw_value, False))"

definition append_optional_field :: "string \<times> bool \<Rightarrow> string \<Rightarrow> string option \<Rightarrow> string \<times> bool" where
  "append_optional_field acc name raw_value =
     (case raw_value of None \<Rightarrow> acc | Some v \<Rightarrow> append_field acc name v)"

fun array_loop :: "string \<Rightarrow> bool \<Rightarrow> string list \<Rightarrow> string" where
  "array_loop out first [] = out"
| "array_loop out first (v # vs) = array_loop (append_json_string (if first then out else out @ '','') v) False vs"

definition json_string_array :: "string list \<Rightarrow> string" where
  "json_string_array values = array_loop ''['' True values @ '']''"

fun map_loop :: "string \<Rightarrow> bool \<Rightarrow> string_map \<Rightarrow> string" where
  "map_loop out first [] = out"
| "map_loop out first ((k, v) # kvs) =
     map_loop (append_json_string (append_json_string (if first then out else out @ '','') k @ '':'') v) False kvs"

definition json_string_map :: "string_map \<Rightarrow> string" where
  "json_string_map values = map_loop ''{'' True values @ ''}''"

definition show_i64 :: "i64 \<Rightarrow> string" where
  "show_i64 v = show_int (sint v)"

definition cpu_json :: "cpu_limits \<Rightarrow> string" where
  "cpu_json cpu =
     (let acc = (''{'', True);
          acc = append_optional_field acc ''period'' (map_option show_i64 (cpu_period cpu));
          acc = append_optional_field acc ''quota'' (map_option show_i64 (cpu_quota cpu));
          acc = append_optional_field acc ''shares'' (map_option show_i64 (cpu_shares cpu));
          acc = append_optional_field acc ''cpus'' (map_option json_string (cpu_cpus cpu))
      in fst acc @ ''}'')"

definition memory_json :: "memory_limits \<Rightarrow> string" where
  "memory_json memory =
     (let acc = (''{'', True);
          acc = append_optional_field acc ''limit'' (map_option show_i64 (mem_limit memory));
          acc = append_optional_field acc ''swap'' (map_option show_i64 (mem_swap memory))
      in fst acc @ ''}'')"

definition pids_json :: "pids_limits \<Rightarrow> string" where
  "pids_json pids =
     fst (append_optional_field (''{'', True) ''limit'' (map_option show_i64 (pids_limit pids))) @ ''}''"

definition resource_limits_json :: "resource_limits \<Rightarrow> string" where
  "resource_limits_json limits =
     (let acc = (''{'', True);
          acc = append_optional_field acc ''cpu'' (map_option cpu_json (rl_cpu limits));
          acc = append_optional_field acc ''memory'' (map_option memory_json (rl_memory limits));
          acc = append_optional_field acc ''pids'' (map_option pids_json (rl_pids limits))
      in fst acc @ ''}'')"

text \<open>\<open>if (!values.empty()) append_field(...)\<close>\<close>

definition nonempty :: "('a list \<Rightarrow> string) \<Rightarrow> 'a list \<Rightarrow> string option" where
  "nonempty print xs = (if xs = [] then None else Some (print xs))"

definition to_podman_create_json :: "container_spec \<Rightarrow> string Result" where
  "to_podman_create_json spec =
     bind_result (validate_container_spec spec) (\<lambda>_.
     let acc = (''{'', True);
         acc = append_field acc ''name'' (json_string (cs_name spec));
         acc = append_field acc ''image'' (json_string (cs_image spec));
         acc = append_optional_field acc ''command'' (nonempty json_string_array (cs_command spec));
         acc = append_optional_field acc ''env'' (nonempty json_string_map (cs_env spec));
         acc = append_optional_field acc ''labels'' (nonempty json_string_map (cs_labels spec));
         acc = append_field acc ''read_only_filesystem'' (if cs_read_only_filesystem spec then ''true'' else ''false'');
         acc = append_optional_field acc ''cap_drop'' (nonempty json_string_array (cs_cap_drop spec));
         acc = append_optional_field acc ''security_opt'' (nonempty json_string_array (cs_security_opt spec));
         acc = append_optional_field acc ''resource_limits'' (map_option resource_limits_json (cs_resource_limits spec))
     in Inr (fst acc @ ''}''))"

end
