(* ===== verification/Podman_Client.thy ===== *)
theory Podman_Client
  imports Target Container_Spec
begin

text \<open>
  \<open>src/podman_client.cpp\<close> and \<open>include/pod_installer/podman_client.hpp\<close>: requests to the
  Podman service over its Unix socket. libcurl is not part of the repository: what one
  transfer does is a reply taken from the world, and the callbacks the code gives to libcurl
  (\<open>write_body\<close>, \<open>write_header\<close>, \<open>read_fd_upload\<close>) are applied to it. A transfer whose upload
  callback aborts ends with \<open>CURLE_ABORTED_BY_CALLBACK\<close>, as libcurl documents. A file descriptor
  is an inode, \<open>None\<close> standing for a negative descriptor.
\<close>

type_synonym u64 = "64 word"

section \<open>Callbacks\<close>

definition write_body :: "string \<Rightarrow> string \<Rightarrow> string" where
  "write_body body chunk = body @ chunk"

definition blank :: "char \<Rightarrow> bool" where
  "blank c \<longleftrightarrow> c = CHR '' '' \<or> c = CHR 0x09"

definition trim_header_value :: "string \<Rightarrow> string" where
  "trim_header_value value =
     rev (dropWhile (\<lambda>c. c = CHR 0x0D \<or> c = CHR 0x0A \<or> blank c) (rev (dropWhile blank value)))"

definition write_header :: "(string \<times> string) list \<Rightarrow> string \<Rightarrow> (string \<times> string) list" where
  "write_header headers line =
     (case str_find (CHR '':'') line of
        None \<Rightarrow> headers
      | Some colon \<Rightarrow> headers @ [(take colon line, trim_header_value (drop (colon + 1) line))])"

record fd_upload =
  up_fd :: ino
  up_offset :: u64
  up_size :: u64

text \<open>\<open>std::min({requested, remaining, limit})\<close>, for what the callback may read at once.\<close>

definition upload_request :: "fd_upload \<Rightarrow> u64 \<Rightarrow> u64 \<Rightarrow> u64" where
  "upload_request upload size_arg nitems =
     (let requested = size_arg * nitems;
          remaining = up_size upload - up_offset upload;
          limit = (0x7FFFFFFFFFFFFFFF :: u64)
      in min requested (min remaining limit))"

function pread_loop :: "ino \<Rightarrow> u64 \<Rightarrow> u64 \<Rightarrow> (errno, string) io" where
  "pread_loop fd offset to_read w =
     (case sys_read fd (unat offset) (unat to_read) w of
        (Inr s, w') \<Rightarrow> (Inr s, w')
      | (Inl e, w') \<Rightarrow> if e = EINTR then pread_loop fd offset to_read w' else (Inl e, w'))"
  by pat_completeness auto
termination
  by (relation "measure (\<lambda>(fd, offset, to_read, w). length (w_sched w))")
    (force simp: errno_defs dest!: sys_read_progress [OF sym])+

declare pread_loop.simps [simp del]

text \<open>The callback: the bytes it hands over and the new position, or abort.\<close>

definition read_fd_upload :: "u64 \<Rightarrow> u64 \<Rightarrow> fd_upload \<Rightarrow> (unit, string \<times> fd_upload) io" where
  "read_fd_upload size_arg nitems upload =
     (if size_arg * nitems = 0 \<or> up_offset upload \<ge> up_size upload then return_io ([], upload)
      else
        either_io (pread_loop (up_fd upload) (up_offset upload) (upload_request upload size_arg nitems))
          (\<lambda>e. fail_io ())
          (\<lambda>s. return_io (s, upload\<lparr>up_offset := up_offset upload + word_of_nat (length s)\<rparr>)))"

section \<open>Transfers\<close>

record client_options =
  co_timeout :: int
  co_base_url :: string

definition default_client_options :: client_options where
  "default_client_options = \<lparr>co_timeout = 5000, co_base_url = ''http://d''\<rparr>"

record podman_client =
  pc_target :: podman_target
  pc_options :: client_options

text \<open>A transfer nobody answers: \<open>CURLE_COULDNT_CONNECT\<close>.\<close>

definition no_reply :: http_reply where
  "no_reply = \<lparr>hr_init = True, hr_perform_first = True, hr_reads = [], hr_code = 7, hr_status = 0, hr_headers = [], hr_body = []\<rparr>"

definition next_reply :: "('e, http_reply) io" where
  "next_reply w = (case w_http w of [] \<Rightarrow> (Inr no_reply, w) | r # rs \<Rightarrow> (Inr r, w\<lparr>w_http := rs\<rparr>))"

definition received :: "http_reply \<Rightarrow> http_response" where
  "received r =
     \<lparr>rsp_status = 0, rsp_body = foldl write_body [] (hr_body r),
      rsp_headers = foldl write_header [] (hr_headers r)\<rparr>"

text \<open>
  \<open>finish_perform(curl, std::move(response), curl_easy_perform(curl))\<close>: the parameter is
  initialised from \<open>response\<close> after the transfer, or before it; then it stays empty, and what
  libcurl receives goes to a local variable nobody reads any more.
\<close>

definition response_argument :: "http_reply \<Rightarrow> http_response" where
  "response_argument r =
     (if hr_perform_first r then received r else \<lparr>rsp_status = 0, rsp_body = [], rsp_headers = []\<rparr>)"

definition finish_perform :: "http_reply \<Rightarrow> http_response \<Rightarrow> int \<Rightarrow> (error, http_response) io" where
  "finish_perform r response rc =
     (if rc \<noteq> 0 then
        bind_io (get_io w_curl_strerror) (\<lambda>strerror.
          fail_io (make_error Transport (''curl request failed: '' @ strerror rc) 0 0 rc))
      else return_io (response\<lparr>rsp_status := hr_status r\<rparr>))"

definition require_success :: "string \<Rightarrow> http_response \<Rightarrow> http_response Result" where
  "require_success operation response =
     (if rsp_status response < 200 \<or> rsp_status response \<ge> 300 then
        Inl (make_error Http (operation @ '' failed with HTTP '' @ show_int (rsp_status response) @ '': ''
               @ rsp_body response) (rsp_status response) 0 0)
      else Inr response)"

definition versioned_path :: "podman_client \<Rightarrow> string \<Rightarrow> string" where
  "versioned_path c libpod_path =
     (let version = (case pt_api_version (pc_target c) of
                       [] \<Rightarrow> [] | d # ds \<Rightarrow> if d = CHR ''v'' then ds else d # ds);
          path = (if version = [] then [] else ''/v'' @ version)
      in (if libpod_path = [] \<or> hd libpod_path \<noteq> CHR ''/'' then path @ ''/'' else path) @ libpod_path)"

text \<open>libcurl takes the method, the URL, the socket and each header up to the first NUL.\<close>

definition request :: "podman_client \<Rightarrow> http_request \<Rightarrow> (error, http_response) io" where
  "request c req =
     bind_io next_reply (\<lambda>r.
     if \<not> hr_init r then fail_io (err Transport ''curl_easy_init failed'')
     else
       let url = co_base_url (pc_options c) @ req_path req in
       bind_io (log_io (Log_http (c_str (pt_socket_path (pc_target c))) (c_str url)
         (req\<lparr>req_method := c_str (req_method req), req_headers := map c_str (req_headers req)\<rparr>))) (\<lambda>_.
       finish_perform r (response_argument r) (hr_code r)))"

definition perform :: "podman_client \<Rightarrow> http_request \<Rightarrow> string \<Rightarrow> (error, http_response) io" where
  "perform c req operation =
     bind_io (request c req) (\<lambda>response. lift_io (require_success operation response))"

section \<open>Operations\<close>

definition ping :: "podman_client \<Rightarrow> (error, http_response) io" where
  "ping c = perform c (default_request\<lparr>req_method := ''GET'', req_path := ''/_ping''\<rparr>) ''podman ping''"

definition info :: "podman_client \<Rightarrow> (error, http_response) io" where
  "info c =
     perform c (default_request\<lparr>req_method := ''GET'', req_path := versioned_path c ''/libpod/info''\<rparr>)
       ''podman info''"

definition filter_char :: "char \<Rightarrow> string" where
  "filter_char c = (if c = CHR 0x22 \<or> c = CHR 0x5C then [CHR 0x5C, c] else [c])"

fun filters_loop :: "string \<Rightarrow> bool \<Rightarrow> string list \<Rightarrow> string" where
  "filters_loop json first [] = json"
| "filters_loop json first (f # fs) =
     filters_loop ((if first then json else json @ '','') @ [CHR 0x22] @ concat (map filter_char f) @ [CHR 0x22])
       False fs"

definition filters_json :: "string list \<Rightarrow> string" where
  "filters_json label_filters =
     filters_loop (CHR ''{'' # CHR 0x22 # ''label'' @ [CHR 0x22] @ '':['') True label_filters @ '']}''"

definition filters_query :: "string list \<Rightarrow> string" where
  "filters_query label_filters =
     (if label_filters = [] then [] else ''&filters='' @ url_encode_component (filters_json label_filters))"

definition list_containers :: "podman_client \<Rightarrow> bool \<Rightarrow> string list \<Rightarrow> (error, http_response) io" where
  "list_containers c all label_filters =
     perform c (default_request\<lparr>req_method := ''GET'',
       req_path := versioned_path c ''/libpod/containers/json''
         @ (if all then ''?all=true'' else ''?all=false'') @ filters_query label_filters\<rparr>) ''list containers''"

definition create_container :: "podman_client \<Rightarrow> container_spec \<Rightarrow> (error, http_response) io" where
  "create_container c spec =
     bind_io (lift_io (to_podman_create_json spec)) (\<lambda>body.
     perform c (default_request\<lparr>req_method := ''POST'', req_path := versioned_path c ''/libpod/containers/create'',
       req_headers := [''Content-Type: application/json''], req_body := Some body\<rparr>) ''create container'')"

definition start_container :: "podman_client \<Rightarrow> string \<Rightarrow> (error, http_response) io" where
  "start_container c name =
     (let encoded_name = url_encode_component name in
      perform c (default_request\<lparr>req_method := ''POST'',
        req_path := versioned_path c (''/libpod/containers/'' @ encoded_name @ ''/start'')\<rparr>) ''start container'')"

definition stop_container :: "podman_client \<Rightarrow> string \<Rightarrow> 32 word \<Rightarrow> (error, http_response) io" where
  "stop_container c name timeout_seconds =
     (if sint timeout_seconds < 0 then
        fail_io (err Invalid_argument ''stop timeout must be non-negative'')
      else
        let encoded_name = url_encode_component name in
        perform c (default_request\<lparr>req_method := ''POST'',
          req_path := versioned_path c (''/libpod/containers/'' @ encoded_name @ ''/stop?timeout=''
            @ show_int (sint timeout_seconds))\<rparr>) ''stop container'')"

definition remove_container :: "podman_client \<Rightarrow> string \<Rightarrow> bool \<Rightarrow> (error, http_response) io" where
  "remove_container c name force =
     (let encoded_name = url_encode_component name in
      perform c (default_request\<lparr>req_method := ''DELETE'',
        req_path := versioned_path c (''/libpod/containers/'' @ encoded_name @ ''?force=''
          @ (if force then ''true'' else ''false''))\<rparr>) ''remove container'')"

section \<open>Uploading an image archive\<close>

text \<open>
  The reads libcurl asks for, one after the other: what was handed over in the end, or before
  the callback aborted the transfer.
\<close>

fun upload_loop :: "(u64 \<times> u64) list \<Rightarrow> fd_upload \<Rightarrow> string \<Rightarrow> (string, string \<times> fd_upload) io" where
  "upload_loop [] upload sent = return_io (sent, upload)"
| "upload_loop ((sz, nitems) # rs) upload sent =
     bind_io (catch_io (read_fd_upload sz nitems upload) (\<lambda>_. fail_io sent)) (\<lambda>(s, upload').
     upload_loop rs upload' (sent @ s))"

definition load_image_archive_fd :: "podman_client \<Rightarrow> ino option \<Rightarrow> u64 \<Rightarrow> (error, http_response) io" where
  "load_image_archive_fd c archive_fd archive_size =
     (case archive_fd of
        None \<Rightarrow> fail_io (err Invalid_argument ''image archive fd is invalid'')
      | Some fd \<Rightarrow>
          bind_io (or_os_error (sys_fstat fd) Filesystem ''failed to stat image archive fd: '') (\<lambda>st.
          bind_io (lift_io (guard (st_type st = S_IFREG)
            (err Filesystem ''image archive fd is not a regular file''))) (\<lambda>_.
          bind_io (lift_io (guard (\<not> (st_size st < 0 \<or> uint archive_size > st_size st))
            (err Invalid_argument ''image archive fd size is invalid''))) (\<lambda>_.
          bind_io (lift_io (guard (\<not> archive_size > 0x7FFFFFFFFFFFFFFF)
            (err Invalid_argument ''image archive is too large for curl''))) (\<lambda>_.
          bind_io next_reply (\<lambda>r.
          if \<not> hr_init r then fail_io (err Transport ''curl_easy_init failed'')
          else
            let url = co_base_url (pc_options c) @ versioned_path c ''/libpod/images/load'';
                upload = \<lparr>up_fd = fd, up_offset = 0, up_size = archive_size\<rparr>
            in bind_io
                 (either_io (upload_loop (hr_reads r) upload [])
                    (\<lambda>sent.
                       bind_io (log_io (Log_upload (c_str (pt_socket_path (pc_target c))) (c_str url) fd sent))
                         (\<lambda>_. finish_perform r (response_argument r) 42))
                    (\<lambda>(sent, upload').
                       bind_io (log_io (Log_upload (c_str (pt_socket_path (pc_target c))) (c_str url) fd sent))
                         (\<lambda>_. finish_perform r (response_argument r) (hr_code r))))
                 (\<lambda>response. lift_io (require_success ''load image archive'' response))))))))"

definition archive_flags :: open_flags where
  "archive_flags = \<lparr>o_directory = False, o_creat = False, o_excl = False, o_nofollow = True\<rparr>"

definition load_image_archive :: "podman_client \<Rightarrow> path \<Rightarrow> (error, http_response) io" where
  "load_image_archive c archive_path =
     bind_io
       (or_os_error (sys_open archive_flags archive_path 0) Filesystem
          (''failed to open image archive '' @ quote archive_path @ '': ''))
     (\<lambda>fd. bind_io
       (or_os_error (sys_fstat fd) Filesystem
          (''failed to stat image archive '' @ quote archive_path @ '': ''))
     (\<lambda>st. bind_io
       (lift_io (guard (st_type st = S_IFREG)
          (err Filesystem (''image archive is not a regular file: '' @ archive_path))))
     (\<lambda>_. bind_io
       (lift_io (guard (\<not> st_size st < 0)
          (err Filesystem (''image archive has invalid size: '' @ archive_path))))
     (\<lambda>_. load_image_archive_fd c (Some fd) (word_of_int (st_size st))))))"

end
