(* ===== verification/Deployment.thy ===== *)
theory Deployment
  imports Quadlet_Install Systemd Podman_Client
begin

text \<open>
  \<open>src/deployment.cpp\<close> and \<open>include/pod_installer/deployment.hpp\<close>: opening the staged image
  archive, the lock of a deployment, and \<open>DeploymentOrchestrator::deploy\<close>, which ties the
  installer, the systemd controller and the Podman client together and rolls back on failure.
  The installer is its layout and its policy, the controller a record of functions.
\<close>

section \<open>Data\<close>

record image_archive =
  ia_path :: path
  ia_expected_sha256 :: string

record deployment_bundle =
  bu_target_uid :: u32
  bu_service_name :: string
  bu_image_archive :: "image_archive option"
  bu_quadlet :: quadlet_file
  bu_revision :: string

record deployment_options =
  do_runtime_layout :: runtime_directory_layout
  do_image_archive_root :: "path option"
  do_max_image_archive_bytes :: u64
  do_api_version :: string
  do_validate_socket :: bool
  do_load_image_archive :: bool
  do_restart_unit :: bool
  do_dry_run :: bool

definition default_deployment_options :: deployment_options where
  "default_deployment_options =
     \<lparr>do_runtime_layout = default_runtime_layout, do_image_archive_root = None,
      do_max_image_archive_bytes = 8 * 1024 * 1024 * 1024, do_api_version = ''5.0.0'',
      do_validate_socket = True, do_load_image_archive = True, do_restart_unit = True,
      do_dry_run = False\<rparr>"

record deployment_result =
  dr_installed_quadlet_path :: path
  dr_systemd_unit :: string
  dr_job_path :: "string option"
  dr_status :: "unit_status option"
  dr_status_error :: "string option"
  dr_dry_run :: bool
  dr_rolled_back :: bool

record quadlet_installer =
  qi_layout :: quadlet_install_layout
  qi_policy :: quadlet_policy

section \<open>The staged image archive\<close>

definition path_component_is_safe :: "string \<Rightarrow> bool" where
  "path_component_is_safe value \<longleftrightarrow> value \<noteq> [] \<and> value \<noteq> ''.'' \<and> value \<noteq> ''..''"

definition dots_error :: "path \<Rightarrow> error" where
  "dots_error p = err Policy (''image archive path must not contain '' @ quote ''.'' @ '' or '' @ quote ''..''
     @ '': '' @ p)"

text \<open>The walk along both sequences of elements; what is left of the path's.\<close>

fun strip_root :: "string list \<Rightarrow> string list \<Rightarrow> string list option" where
  "strip_root [] ps = Some ps"
| "strip_root (r # rs) [] = None"
| "strip_root (r # rs) (p # ps) = (if p \<noteq> r then None else strip_root rs ps)"

definition relative_staged_path :: "path \<Rightarrow> path \<Rightarrow> path Result" where
  "relative_staged_path root p =
     bind_result (check_all (\<lambda>c. guard (path_component_is_safe c) (dots_error p)) (path_elems p))
     (\<lambda>_. let normalized = lexically_normal p in
       bind_result
         (if is_absolute normalized then
            case strip_root (path_elems (lexically_normal root)) (path_elems normalized) of
              None \<Rightarrow> Inl (err Policy (''image archive path is outside configured staging root: '' @ normalized))
            | Some rest \<Rightarrow> Inr (foldl path_append [] rest)
          else Inr normalized)
       (\<lambda>normalized. bind_result
         (guard (\<not> (normalized = [] \<or> path_eq normalized ''.''))
            (err Policy ''image archive path is empty''))
       (\<lambda>_. bind_result
         (check_all (\<lambda>c. guard (path_component_is_safe c) (dots_error normalized)) (path_elems normalized))
       (\<lambda>_. Inr normalized))))"

record open_archive =
  oa_fd :: ino
  oa_size :: u64

definition validate_owner_if_required :: "ino \<Rightarrow> quadlet_install_layout \<Rightarrow> string \<Rightarrow> (error, unit) io" where
  "validate_owner_if_required fd layout description =
     bind_io (or_os_error (sys_fstat fd) Filesystem (''failed to stat '' @ description @ '': '')) (\<lambda>st.
     bind_io
       (case required_owner_uid layout of
          None \<Rightarrow> return_io ()
        | Some uid \<Rightarrow> lift_io (guard (st_uid st = uid) (err Filesystem
            (description @ '' owner uid '' @ show_nat (unat (st_uid st)) @
             '' does not match required uid '' @ show_nat (unat uid)))))
     (\<lambda>_. case required_owner_gid layout of
          None \<Rightarrow> return_io ()
        | Some gid \<Rightarrow> lift_io (guard (st_gid st = gid) (err Filesystem
            (description @ '' owner gid '' @ show_nat (unat (st_gid st)) @
             '' does not match required gid '' @ show_nat (unat gid))))))"

text \<open>The two checks made on the status of the archive, before and after it is opened.\<close>

definition check_archive :: "u64 \<Rightarrow> stat \<Rightarrow> unit Result" where
  "check_archive max_bytes st =
     bind_result
       (guard (st_type st = S_IFREG) (err Policy ''staged image archive must be a regular file''))
     (\<lambda>_. guard (\<not> (st_size st < 0 \<or> st_size st > uint max_bytes))
       (err Policy ''staged image archive is too large''))"

definition component_error :: "string \<Rightarrow> string \<Rightarrow> string" where
  "component_error what name = ''failed to '' @ what @ '' staged image archive component '' @ quote name @ '': ''"

fun open_components :: "u64 \<Rightarrow> ino \<Rightarrow> string list \<Rightarrow> (error, ino) io" where
  "open_components max_bytes current [] = return_io current"
| "open_components max_bytes current (name # names) =
     bind_io
       (if names = [] then
          bind_io (or_os_error (sys_stat current name False) Filesystem (component_error ''stat'' name)) (\<lambda>st.
          lift_io (check_archive max_bytes st))
        else return_io ())
     (\<lambda>_. bind_io
       (or_os_error
          (sys_openat (if names = [] then archive_flags else directory_flags) current name 0)
          Filesystem (component_error ''open'' name))
     (\<lambda>next_fd. open_components max_bytes next_fd names))"

definition open_staged_image_archive ::
    "image_archive \<Rightarrow> deployment_options \<Rightarrow> (error, open_archive) io" where
  "open_staged_image_archive archive options =
     bind_io
       (lift_io (guard (ia_expected_sha256 archive = []) (err Policy
          ''ImageArchive::expected_sha256 is not implemented; verify bundle manifest digests before deployment'')))
     (\<lambda>_. case do_image_archive_root options of
       None \<Rightarrow> fail_io (err Policy ''deployment image loading requires DeploymentOptions::image_archive_root'')
     | Some root \<Rightarrow>
         bind_io (lift_io (relative_staged_path root (ia_path archive))) (\<lambda>relative.
         bind_io
           (or_os_error (sys_open directory_flags root 0) Filesystem
              (''failed to open image archive staging root '' @ quote root @ '': '')) (\<lambda>current.
         bind_io (open_components (do_max_image_archive_bytes options) current (path_elems relative)) (\<lambda>fd.
         bind_io (or_os_error (sys_fstat fd) Filesystem ''failed to stat staged image archive: '') (\<lambda>st.
         bind_io (lift_io (check_archive (do_max_image_archive_bytes options) st)) (\<lambda>_.
         return_io \<lparr>oa_fd = fd, oa_size = word_of_int (st_size st)\<rparr>))))))"

section \<open>The lock\<close>

definition lock_name :: "u32 \<Rightarrow> string \<Rightarrow> string" where
  "lock_name uid unit = show_nat (unat uid) @ ''-'' @ unit @ ''.lock''"

definition lock_flags :: open_flags where
  "lock_flags = \<lparr>o_directory = False, o_creat = True, o_excl = False, o_nofollow = True\<rparr>"

function flock_loop :: "string \<Rightarrow> ino \<Rightarrow> (error, ino) io" where
  "flock_loop name lock_fd w =
     (case sys_flock lock_fd w of
        (Inr u, w') \<Rightarrow> (Inr lock_fd, w')
      | (Inl e, w') \<Rightarrow>
          if e = EINTR then flock_loop name lock_fd w'
          else os_error Filesystem (''failed to lock deployment '' @ quote name @ '': '') e w')"
  by pat_completeness auto
termination
proof (relation "measure (\<lambda>(name, fd, w). length (w_sched w))", goal_cases)
  case (2 name fd w x w' e)
  have s: "w_sched (snd (log_io l v)) = w_sched v" for l v by (simp add: log_io_def)
  from 2 show ?case
    using syscall_sched [of "\<lambda>e. log_io (Log_lock fd)" w "Inl e" w', OF _ s]
    by (auto simp: sys_flock_def log_io_def)
qed simp

declare flock_loop.simps [simp del]

definition lock_deployment :: "quadlet_install_layout \<Rightarrow> u32 \<Rightarrow> string \<Rightarrow> (error, ino) io" where
  "lock_deployment layout uid unit =
     bind_io
       (catch_io (create_directories (admin_user_root layout))
          (\<lambda>e. bind_io (get_io w_strerror) (\<lambda>strerror. fail_io (err Filesystem
             (''failed to create deployment lock root '' @ quote (admin_user_root layout) @ '': '' @ strerror e)))))
     (\<lambda>_. bind_io
       (or_os_error (sys_open directory_flags (admin_user_root layout) 0) Filesystem
          (''failed to open deployment lock root '' @ quote (admin_user_root layout) @ '': ''))
     (\<lambda>root_fd. bind_io (validate_owner_if_required root_fd layout ''deployment lock root'')
     (\<lambda>_. bind_io
       (either_io (sys_mkdirat root_fd ''.locks'' mode_0755)
          (\<lambda>e. if e \<noteq> EEXIST then os_error Filesystem ''failed to create deployment lock directory: '' e
               else return_io ())
          return_io)
     (\<lambda>_. bind_io
       (or_os_error (sys_openat directory_flags root_fd ''.locks'' 0) Filesystem
          ''failed to open deployment lock directory: '')
     (\<lambda>dir_fd. bind_io (validate_owner_if_required dir_fd layout ''deployment lock directory'')
     (\<lambda>_. bind_io
       (or_os_error (sys_fchmod dir_fd mode_0755) Filesystem
          ''failed to chmod deployment lock directory: '')
     (\<lambda>_. let name = lock_name uid unit in
       bind_io
         (or_os_error (sys_openat lock_flags dir_fd name mode_0644) Filesystem
            (''failed to open deployment lock '' @ quote name @ '': ''))
       (\<lambda>lock_fd. flock_loop name lock_fd))))))))"

text \<open>The destructor of \<open>DeploymentLock\<close> runs on every way out of \<open>deploy\<close>.\<close>

definition holding :: "ino \<Rightarrow> ('e, 'a) io \<Rightarrow> ('e, 'a) io" where
  "holding lock_fd m =
     either_io m (\<lambda>e. bind_io (release_lock lock_fd) (\<lambda>_. fail_io e))
       (\<lambda>x. bind_io (release_lock lock_fd) (\<lambda>_. return_io x))"

section \<open>Rolling back\<close>

definition deployed_status_is_healthy :: "unit_status \<Rightarrow> bool" where
  "deployed_status_is_healthy status \<longleftrightarrow>
     us_load_state status = ''loaded'' \<and> us_active_state status = ''active''"

definition describe_status :: "unit_status \<Rightarrow> string" where
  "describe_status status =
     ''LoadState='' @ us_load_state status @ '' ActiveState='' @ us_active_state status
     @ '' SubState='' @ us_sub_state status"

text \<open>\<open>original.message += text; return std::unexpected(original);\<close>\<close>

definition fail_more :: "error \<Rightarrow> string \<Rightarrow> (error, 'a) io" where
  "fail_more original addition = fail_io (original\<lparr>message := message original @ addition\<rparr>)"

definition rollback_error ::
    "quadlet_installer \<Rightarrow> user_systemd_controller \<Rightarrow> podman_target \<Rightarrow> u32 \<Rightarrow> quadlet_snapshot \<Rightarrow> string
      \<Rightarrow> bool \<Rightarrow> error \<Rightarrow> (error, 'a) io" where
  "rollback_error installer systemd target uid snapshot unit restart_restored_unit original =
     either_io (restore_for_user (qi_layout installer) uid snapshot)
       (\<lambda>e. fail_more original (''; rollback failed: '' @ message e))
       (\<lambda>_. let note = ''; rolled back installed Quadlet'' in
          either_io (sc_daemon_reload systemd target)
            (\<lambda>e. fail_more original (note @ ''; rollback daemon-reload failed: '' @ message e))
            (\<lambda>_. if restart_restored_unit \<and> qs_existed snapshot then
                   either_io (sc_restart_unit systemd target unit)
                     (\<lambda>e. fail_more original (note @ ''; rollback restart failed: '' @ message e))
                     (\<lambda>restart. if \<not> deployed_status_is_healthy (uo_final_status restart)
                        then fail_more original (note @ ''; rollback restart left unit unhealthy: ''
                               @ describe_status (uo_final_status restart))
                        else fail_more original note)
                 else fail_more original note))"

section \<open>Deploying\<close>

definition validate_deployment_bundle :: "deployment_bundle \<Rightarrow> unit Result" where
  "validate_deployment_bundle bundle =
     bind_result
       (guard (bu_target_uid bundle \<noteq> 0) (err Policy ''deployment target must be a non-root user uid''))
     (\<lambda>_. bind_result
       (guard (bu_service_name bundle \<noteq> []) (err Invalid_argument ''deployment service_name is empty''))
     (\<lambda>_. bind_result (service_unit_name_from_quadlet (qf_file_name (bu_quadlet bundle)))
     (\<lambda>unit. bind_result
       (guard (unit = bu_service_name bundle @ ''.service'') (err Invalid_argument
          (''deployment service_name '' @ quote (bu_service_name bundle) @ '' does not match Quadlet file ''
           @ quote (qf_file_name (bu_quadlet bundle)))))
     (\<lambda>_. case bu_image_archive bundle of
          None \<Rightarrow> Inr ()
        | Some archive \<Rightarrow> guard (ia_path archive \<noteq> []) (err Invalid_argument ''image archive path is empty'')))))"

text \<open>\<open>BundleVerifier::verify\<close> accepts every bundle.\<close>

definition verify :: "deployment_bundle \<Rightarrow> unit Result" where
  "verify bundle = Inr ()"

text \<open>From the snapshot to the end, the part of \<open>deploy\<close> that changes the Quadlet.\<close>

definition deploy_quadlet ::
    "quadlet_installer \<Rightarrow> user_systemd_controller \<Rightarrow> deployment_options \<Rightarrow> deployment_bundle \<Rightarrow> podman_target
      \<Rightarrow> deployment_result \<Rightarrow> (error, deployment_result) io" where
  "deploy_quadlet installer systemd options bundle target result =
     bind_io (snapshot_for_user (qi_layout installer) (bu_target_uid bundle) (qf_file_name (bu_quadlet bundle)))
     (\<lambda>snapshot. bind_io
       (install_for_user (qi_layout installer) (qi_policy installer) (bu_target_uid bundle) (bu_quadlet bundle))
     (\<lambda>installed.
       let result = result\<lparr>dr_installed_quadlet_path := iq_path installed,
                           dr_systemd_unit := iq_systemd_unit installed\<rparr>;
           unit = iq_systemd_unit installed;
           uid = bu_target_uid bundle
       in bind_io (catch_io (sc_daemon_reload systemd target)
            (rollback_error installer systemd target uid snapshot unit False)) (\<lambda>_.
          if do_restart_unit options then
            bind_io (catch_io (sc_restart_unit systemd target unit)
              (rollback_error installer systemd target uid snapshot unit True)) (\<lambda>operation.
              if \<not> deployed_status_is_healthy (uo_final_status operation) then
                rollback_error installer systemd target uid snapshot unit True
                  (err Systemd (''deployment unit is unhealthy after restart: ''
                     @ describe_status (uo_final_status operation)))
              else return_io (result\<lparr>dr_job_path := uo_job_path operation,
                                     dr_status := Some (uo_final_status operation)\<rparr>))
          else
            either_io (sc_status systemd target unit)
              (\<lambda>e. return_io (result\<lparr>dr_status_error := Some (message e)\<rparr>))
              (\<lambda>status. return_io (result\<lparr>dr_status := Some status\<rparr>)))))"

text \<open>The checks on the socket and the upload, while the lock is held.\<close>

definition load_archive ::
    "deployment_options \<Rightarrow> deployment_bundle \<Rightarrow> podman_target \<Rightarrow> open_archive option \<Rightarrow> (error, unit) io" where
  "load_archive options bundle target archive =
     bind_io
       (if do_validate_socket options \<and> do_load_image_archive options \<and> bu_image_archive bundle \<noteq> None then
          validate_podman_socket target (default_socket_options\<lparr>sv_layout := do_runtime_layout options\<rparr>)
        else return_io ())
     (\<lambda>_. case archive of
       None \<Rightarrow> return_io ()
     | Some a \<Rightarrow>
         let podman = \<lparr>pc_target = target, pc_options = default_client_options\<rparr> in
         bind_io (ping podman) (\<lambda>_.
         bind_io (load_image_archive_fd podman (Some (oa_fd a)) (oa_size a)) (\<lambda>_. return_io ())))"

text \<open>
  \<open>deploy\<close>. A null pointer to the controller is \<open>None\<close>.
\<close>

definition deploy ::
    "quadlet_installer \<Rightarrow> user_systemd_controller option \<Rightarrow> deployment_options \<Rightarrow> deployment_bundle
      \<Rightarrow> (error, deployment_result) io" where
  "deploy installer controller options bundle =
     (case controller of
        None \<Rightarrow> fail_io (err Invalid_argument ''deployment orchestrator requires a systemd controller'')
      | Some systemd \<Rightarrow>
          bind_io (lift_io (verify bundle)) (\<lambda>_.
          bind_io (lift_io (validate_deployment_bundle bundle)) (\<lambda>_.
          bind_io (resolve_uid (bu_target_uid bundle) (do_runtime_layout options) (do_api_version options)) (\<lambda>target.
          bind_io (lift_io (expected_install (qi_layout installer) (qi_policy installer)
            (bu_target_uid bundle) (bu_quadlet bundle))) (\<lambda>expected.
          let result = \<lparr>dr_installed_quadlet_path = iq_path expected, dr_systemd_unit = iq_systemd_unit expected,
                dr_job_path = None, dr_status = None, dr_status_error = None,
                dr_dry_run = do_dry_run options, dr_rolled_back = False\<rparr>
          in
          bind_io
            (case bu_image_archive bundle of
               Some archive \<Rightarrow>
                 if do_load_image_archive options then
                   bind_io (open_staged_image_archive archive options) (\<lambda>opened. return_io (Some opened))
                 else return_io None
             | None \<Rightarrow> return_io None) (\<lambda>archive.
          if do_dry_run options then return_io result
          else
            bind_io (lock_deployment (qi_layout installer) (bu_target_uid bundle) (iq_systemd_unit expected)) (\<lambda>lock_fd.
            holding lock_fd
              (bind_io (load_archive options bundle target archive) (\<lambda>_.
               deploy_quadlet installer systemd options bundle target result))))))))) "

end
