(* ===== verification/Service.thy ===== *)
theory Service
  imports Deployment
begin

text \<open>
  \<open>examples/orchestrator_service.cpp\<close>: the HTTP service around the deployment: the command
  line, the request line and the query, the staged files, the handler of a request, the
  listening socket and the loop of \<open>main\<close>. The results of the socket calls are given. The messages
  on standard error and the signal handlers are not modelled: a signal shows as the value of
  \<open>g_stop\<close> before a round.
\<close>

section \<open>The command line\<close>

record config =
  cf_host :: string
  cf_port :: "16 word"
  cf_api_version :: string
  cf_staging_root :: path
  cf_max_quadlet_size :: nat
  cf_dry_run :: bool
  cf_validate_socket :: bool

definition default_config :: config where
  "default_config =
     \<lparr>cf_host = ''127.0.0.1'', cf_port = 9090, cf_api_version = ''5.0.0'',
      cf_staging_root = ''/var/lib/pod-installer/staging'', cf_max_quadlet_size = 1024 * 1024,
      cf_dry_run = True, cf_validate_socket = True\<rparr>"

text \<open>
  \<open>std::stoul\<close>: white space, an optional sign, digits, and anything after them; it throws when
  there is no digit or the magnitude exceeds 64 bits, and a minus sign negates modulo $2^{64}$.
\<close>

datatype stoul_result = Stoul_value nat | Stoul_invalid_argument | Stoul_out_of_range

definition stoul :: "string \<Rightarrow> stoul_result" where
  "stoul s =
     (let t = dropWhile isspace s;
          negative = (t \<noteq> [] \<and> hd t = CHR ''-'');
          u = (if t \<noteq> [] \<and> (hd t = CHR ''-'' \<or> hd t = CHR ''+'') then tl t else t);
          digits = takeWhile isdigit u;
          n = read_nat digits
      in if digits = [] then Stoul_invalid_argument
         else if n \<ge> 2 ^ 64 then Stoul_out_of_range
         else Stoul_value (if negative then (2 ^ 64 - n) mod 2 ^ 64 else n))"

text \<open>
  What the command line amounts to: a configuration, an error that is returned, the exit of
  \<open>--help\<close>, or an exception of \<open>std::stoul\<close> that nothing catches.
\<close>

datatype args_outcome = Configured config | Args_error error | Exit_zero | Uncaught stoul_result

definition listen_value :: "string \<Rightarrow> config \<Rightarrow> (args_outcome + config)" where
  "listen_value value cfg =
     (case str_rfind (CHR '':'') value of
        None \<Rightarrow> Inl (Args_error (err Invalid_argument ''--listen must be HOST:PORT''))
      | Some colon \<Rightarrow>
          (case stoul (drop (colon + 1) value) of
             Stoul_value port \<Rightarrow>
               if port = 0 \<or> port > 65535 then
                 Inl (Args_error (err Invalid_argument ''listen port is out of range''))
               else Inr (cfg\<lparr>cf_host := take colon value, cf_port := word_of_nat port\<rparr>)
           | r \<Rightarrow> Inl (Uncaught r)))"

fun parse_args :: "config \<Rightarrow> string list \<Rightarrow> args_outcome" where
  "parse_args cfg [] = Configured cfg"
| "parse_args cfg (arg # args) =
     (if arg = ''--help'' then Exit_zero
      else if arg = ''--execute'' then parse_args (cfg\<lparr>cf_dry_run := False\<rparr>) args
      else if arg = ''--no-socket-validation'' then parse_args (cfg\<lparr>cf_validate_socket := False\<rparr>) args
      else if arg = ''--listen'' \<or> arg = ''--api-version'' \<or> arg = ''--staging-root'' then
        (case args of
           [] \<Rightarrow> Args_error (err Invalid_argument (arg @ '' requires a value''))
         | value # rest \<Rightarrow>
             if arg = ''--listen'' then
               (case listen_value value cfg of Inl r \<Rightarrow> r | Inr cfg' \<Rightarrow> parse_args cfg' rest)
             else if arg = ''--api-version'' then parse_args (cfg\<lparr>cf_api_version := value\<rparr>) rest
             else parse_args (cfg\<lparr>cf_staging_root := value\<rparr>) rest)
      else Args_error (err Invalid_argument (''unknown argument: '' @ arg)))"

section \<open>Requests\<close>

record http_request_line =
  rl_method :: string
  rl_target :: string

text \<open>\<open>in >> word\<close>: the next word, and the rest of the stream.\<close>

definition next_word :: "string \<Rightarrow> string \<times> string" where
  "next_word s =
     (let t = dropWhile isspace s
      in (takeWhile (\<lambda>c. \<not> isspace c) t, dropWhile (\<lambda>c. \<not> isspace c) t))"

definition parse_request_line :: "string \<Rightarrow> http_request_line Result" where
  "parse_request_line req =
     (case str_find_sub req [CHR 0x0D, CHR 0x0A] of
        None \<Rightarrow> Inl (err Invalid_argument ''request line is missing CRLF'')
      | Some last_char \<Rightarrow>
          let (method, s1) = next_word (take last_char req);
              (target, s2) = next_word s1;
              (version, s3) = next_word s2
          in if method = [] \<or> target = [] \<or> \<not> starts_with version ''HTTP/'' then
               Inl (err Invalid_argument ''malformed HTTP request line'')
             else Inr \<lparr>rl_method = method, rl_target = target\<rparr>)"

type_synonym query_params = "(string \<times> string list) list"

record query =
  qu_path :: string
  qu_params :: query_params

definition push_param :: "string \<Rightarrow> string \<Rightarrow> query_params \<Rightarrow> query_params" where
  "push_param key value params =
     smap_upd key (\<lambda>old. (case old of None \<Rightarrow> [] | Some vs \<Rightarrow> vs) @ [value]) params"

definition query_one :: "query \<Rightarrow> string \<Rightarrow> string option" where
  "query_one query key =
     (case map_of (qu_params query) key of
        None \<Rightarrow> None
      | Some vs \<Rightarrow> (case vs of [] \<Rightarrow> None | v # _ \<Rightarrow> Some v))"

definition query_many :: "query \<Rightarrow> string \<Rightarrow> string list" where
  "query_many query key = (case map_of (qu_params query) key of None \<Rightarrow> [] | Some vs \<Rightarrow> vs)"

text \<open>\<open>remaining.substr(0, i)\<close> for a position that may be \<open>npos\<close>.\<close>

definition upto_pos :: "nat option \<Rightarrow> string \<Rightarrow> string" where
  "upto_pos i s = (case i of None \<Rightarrow> s | Some i \<Rightarrow> take i s)"

function query_loop :: "string \<Rightarrow> query_params \<Rightarrow> query_params Result" where
  "query_loop remaining params =
     (if remaining = [] then Inr params
      else
        let amp = str_find (CHR ''&'') remaining;
            part = upto_pos amp remaining;
            eq = str_find (CHR ''='') part;
            raw_key = upto_pos eq part;
            raw_value = (case eq of None \<Rightarrow> [] | Some i \<Rightarrow> drop (i + 1) part)
        in bind_result (url_decode_component raw_key True) (\<lambda>key.
           bind_result (url_decode_component raw_value True) (\<lambda>value.
           let params = push_param key value params in
           case amp of None \<Rightarrow> Inr params | Some i \<Rightarrow> query_loop (drop (i + 1) remaining) params)))"
  by pat_completeness auto
termination
  by (relation "measure (\<lambda>(remaining, params). length remaining)") auto

declare query_loop.simps [simp del]

definition parse_query :: "string \<Rightarrow> query Result" where
  "parse_query target =
     (case str_find (CHR ''?'') target of
        None \<Rightarrow> Inr \<lparr>qu_path = target, qu_params = []\<rparr>
      | Some question \<Rightarrow>
          bind_result (query_loop (drop (question + 1) target) []) (\<lambda>params.
          Inr \<lparr>qu_path = take question target, qu_params = params\<rparr>))"

section \<open>Responses\<close>

definition escape_char :: "char \<Rightarrow> string" where
  "escape_char c =
     (if c = CHR 0x22 \<or> c = CHR 0x5C then [CHR 0x5C, c]
      else if c = CHR 0x0A then [CHR 0x5C, CHR ''n'']
      else if c = CHR 0x0D then [CHR 0x5C, CHR ''r'']
      else if c = CHR 0x09 then [CHR 0x5C, CHR ''t'']
      else [c])"

definition json_escape :: "string \<Rightarrow> string" where
  "json_escape value = [CHR 0x22] @ concat (map escape_char value) @ [CHR 0x22]"

definition reason_phrase :: "nat \<Rightarrow> string" where
  "reason_phrase status =
     (if status = 202 then ''Accepted'' else if status = 400 then ''Bad Request''
      else if status = 404 then ''Not Found'' else if status = 500 then ''Internal Server Error''
      else ''OK'')"

definition crlf :: string where
  "crlf = [CHR 0x0D, CHR 0x0A]"

definition response :: "nat \<Rightarrow> string \<Rightarrow> string" where
  "response status body =
     ''HTTP/1.1 '' @ show_nat status @ '' '' @ reason_phrase status @ crlf
     @ ''Content-Type: application/json'' @ crlf
     @ ''Content-Length: '' @ show_nat (length body) @ crlf
     @ ''Connection: close'' @ crlf @ crlf @ body"

text \<open>\<open>"{\"error\":" + json_escape(message) + "}\n"\<close>\<close>

definition json_key :: "string \<Rightarrow> string" where
  "json_key name = [CHR 0x22] @ name @ [CHR 0x22] @ '':''"

definition error_body :: "string \<Rightarrow> string" where
  "error_body msg = ''{'' @ json_key ''error'' @ json_escape msg @ ''}'' @ [CHR 0x0A]"

section \<open>Staged files\<close>

definition staged_relative_path :: "path \<Rightarrow> path \<Rightarrow> path Result" where
  "staged_relative_path staging_root requested =
     (let normalized = lexically_normal requested in
      bind_result
        (if is_absolute normalized then
           case strip_root (path_elems (lexically_normal staging_root)) (path_elems normalized) of
             None \<Rightarrow> Inl (err Policy (''staged file is outside staging root: '' @ normalized))
           | Some rest \<Rightarrow> Inr (foldl path_append [] rest)
         else Inr normalized)
      (\<lambda>normalized. bind_result
        (guard (\<not> (normalized = [] \<or> path_eq normalized ''.'')) (err Policy ''staged file path is empty''))
      (\<lambda>_. bind_result
        (check_all (\<lambda>c. guard (path_component_is_safe c) (err Policy
           (''staged file path must not contain '' @ quote ''.'' @ '' or '' @ quote ''..'' @ '': '' @ normalized)))
           (path_elems normalized))
      (\<lambda>_. Inr normalized))))"

record open_staged_file =
  os_fd :: ino
  os_size :: nat
  os_relative_path :: path

fun open_staged_components :: "ino \<Rightarrow> string list \<Rightarrow> (error, ino) io" where
  "open_staged_components current [] = return_io current"
| "open_staged_components current (name # names) =
     bind_io
       (or_os_error
          (sys_openat (if names = [] then read_flags else directory_flags) current name 0)
          Filesystem (''failed to open staged file component '' @ quote name @ '': ''))
     (\<lambda>next_fd. open_staged_components next_fd names)"

definition open_staged_regular_file :: "path \<Rightarrow> path \<Rightarrow> nat \<Rightarrow> (error, open_staged_file) io" where
  "open_staged_regular_file staging_root requested max_size =
     bind_io (lift_io (staged_relative_path staging_root requested)) (\<lambda>relative.
     bind_io (or_os_error (sys_open directory_flags staging_root 0) Filesystem ''failed to open staging root: '') (\<lambda>current.
     bind_io (open_staged_components current (path_elems relative)) (\<lambda>fd.
     bind_io (or_os_error (sys_fstat fd) Filesystem ''failed to stat staged file: '') (\<lambda>st.
     bind_io (lift_io (guard (st_type st = S_IFREG) (err Policy ''staged file must be a regular file''))) (\<lambda>_.
     bind_io (lift_io (guard (\<not> (st_size st < 0 \<or> st_size st > int max_size))
       (err Policy ''staged file is too large''))) (\<lambda>_.
     return_io \<lparr>os_fd = fd, os_size = nat (st_size st), os_relative_path = relative\<rparr>))))))"

function staged_read_loop :: "ino \<Rightarrow> nat \<Rightarrow> string \<Rightarrow> (error, string) io" where
  "staged_read_loop fd bytes out w =
     (if \<not> length out < bytes then (Inr out, w)
      else case sys_read fd (length out) (bytes - length out) w of
             (Inl e, w') \<Rightarrow>
               if e = EINTR then staged_read_loop fd bytes out w'
               else os_error Filesystem ''failed to read staged file: '' e w'
           | (Inr s, w') \<Rightarrow>
               if s = [] then fail_io (err Filesystem ''staged file changed while reading'') w'
               else staged_read_loop fd bytes (out @ s) w')"
  by pat_completeness auto
termination
  by (relation "measures [\<lambda>(fd, bytes, out, w). length (w_sched w),
        \<lambda>(fd, bytes, out, w). bytes - length out]")
    (force simp: errno_defs neq_Nil_conv dest!: sys_read_progress [OF sym])+

declare staged_read_loop.simps [simp del]

definition read_staged_regular_file :: "path \<Rightarrow> path \<Rightarrow> nat \<Rightarrow> (error, string) io" where
  "read_staged_regular_file staging_root p max_size =
     bind_io (open_staged_regular_file staging_root p max_size) (\<lambda>file.
     staged_read_loop (os_fd file) (os_size file) [])"

definition service_name_from_quadlet_path :: "path \<Rightarrow> string Result" where
  "service_name_from_quadlet_path p =
     bind_result (service_unit_name_from_quadlet (filename p)) (\<lambda>unit.
     Inr (take (length unit - length ''.service'') unit))"

section \<open>Handlers\<close>

definition value_or :: "'a option \<Rightarrow> 'a \<Rightarrow> 'a" where
  "value_or x d = (case x of None \<Rightarrow> d | Some v \<Rightarrow> v)"

definition json_bool :: "bool \<Rightarrow> string" where
  "json_bool b = (if b then ''true'' else ''false'')"

definition deploy_body :: "podman_target \<Rightarrow> deployment_result \<Rightarrow> string" where
  "deploy_body target deployed =
     ''{'' @ json_key ''dryRun'' @ json_bool (dr_dry_run deployed)
     @ '','' @ json_key ''targetUser'' @ json_escape (pt_user_name target)
     @ '','' @ json_key ''installedQuadletPath'' @ json_escape (dr_installed_quadlet_path deployed)
     @ '','' @ json_key ''systemdUnit'' @ json_escape (dr_systemd_unit deployed)
     @ '','' @ json_key ''jobPath'' @ json_escape (value_or (dr_job_path deployed) [])
     @ '','' @ json_key ''statusError'' @ json_escape (value_or (dr_status_error deployed) [])
     @ ''}'' @ [CHR 0x0A]"

definition request_bundle :: "query \<Rightarrow> podman_target \<Rightarrow> path \<Rightarrow> string \<Rightarrow> string \<Rightarrow> path option \<Rightarrow> deployment_bundle" where
  "request_bundle query target qpath contents inferred_service img =
     \<lparr>bu_target_uid = pt_uid target,
      bu_service_name = value_or (query_one query ''service'') inferred_service,
      bu_image_archive = map_option (\<lambda>p. \<lparr>ia_path = p, ia_expected_sha256 = []\<rparr>) img,
      bu_quadlet = \<lparr>qf_file_name = filename qpath, qf_contents = contents\<rparr>,
      bu_revision = value_or (query_one query ''revision'') []\<rparr>"

definition request_options :: "config \<Rightarrow> query \<Rightarrow> deployment_options" where
  "request_options cfg query =
     default_deployment_options\<lparr>do_api_version := cf_api_version cfg,
       do_validate_socket := cf_validate_socket cfg,
       do_image_archive_root := Some (cf_staging_root cfg),
       do_load_image_archive := value_or (query_one query ''loadImage'') ''true'' \<noteq> ''false'',
       do_restart_unit := value_or (query_one query ''restart'') ''true'' \<noteq> ''false'',
       do_dry_run := cf_dry_run cfg\<rparr>"

definition default_installer :: quadlet_installer where
  "default_installer = \<lparr>qi_layout = default_layout, qi_policy = default_policy\<rparr>"

definition handle_deploy_bundle :: "config \<Rightarrow> query \<Rightarrow> (error, string) io" where
  "handle_deploy_bundle cfg query =
     (case (query_one query ''user'', query_one query ''quadletPath'') of
        (Some user, Some qpath) \<Rightarrow>
          bind_io (resolve_user user default_runtime_layout (cf_api_version cfg)) (\<lambda>target.
          bind_io (read_staged_regular_file (cf_staging_root cfg) qpath (cf_max_quadlet_size cfg)) (\<lambda>contents.
          bind_io (lift_io (service_name_from_quadlet_path qpath)) (\<lambda>inferred_service.
          bind_io
            (case query_one query ''imageArchive'' of
               None \<Rightarrow> return_io None
             | Some image_archive \<Rightarrow>
                 bind_io (open_staged_regular_file (cf_staging_root cfg) image_archive (8 * 1024 * 1024 * 1024)) (\<lambda>staged.
                 return_io (Some (os_relative_path staged)))) (\<lambda>img.
          bind_io
            (deploy default_installer (Some (systemctl_controller (cf_dry_run cfg))) (request_options cfg query)
               (request_bundle query target qpath contents inferred_service img)) (\<lambda>deployed.
          return_io (deploy_body target deployed))))))
      | _ \<Rightarrow> fail_io (err Invalid_argument ''deploy-bundle requires user and quadletPath query parameters''))"

definition handle_request :: "config \<Rightarrow> string \<Rightarrow> world \<Rightarrow> string \<times> world" where
  "handle_request cfg raw w =
     (case parse_request_line raw of
        Inl e \<Rightarrow> (response 400 (error_body (message e)), w)
      | Inr line \<Rightarrow>
          (case parse_query (rl_target line) of
             Inl e \<Rightarrow> (response 400 (error_body (message e)), w)
           | Inr query \<Rightarrow>
               if rl_method line = ''GET'' \<and> qu_path query = ''/healthz'' then
                 (response 200 (''{'' @ json_key ''status'' @ json_escape ''ok'' @ ''}'' @ [CHR 0x0A]), w)
               else if rl_method line = ''POST'' \<and> qu_path query = ''/v1/deploy-bundle'' then
                 (case handle_deploy_bundle cfg query w of
                    (Inl e, w') \<Rightarrow> (response 400 (error_body (message e)), w')
                  | (Inr body, w') \<Rightarrow> (response (if cf_dry_run cfg then 200 else 202) body, w'))
               else (response 404 (error_body ''not found''), w)))"

section \<open>The listening socket\<close>

text \<open>
  What the calls return: \<open>socket\<close> a descriptor or an error number, \<open>inet_pton\<close> whether the host is an
  IPv4 address, \<open>bind\<close> and \<open>listen\<close> nothing or an error number, and the text of \<open>strerror\<close>. The result
  of \<open>setsockopt\<close> is ignored. An exception is its message. The calls on sockets come along in their
  order: a descriptor that \<open>socket\<close> or \<open>accept\<close> returned, the address in a call of \<open>bind\<close>, what is
  handed to \<open>send\<close>, and \<open>close\<close>.
\<close>

record listen_replies =
  lr_socket :: "errno + nat"
  lr_inet_pton :: "string \<Rightarrow> bool"
  lr_bind :: "errno option"
  lr_listen :: "errno option"
  lr_strerror :: "errno \<Rightarrow> string"

datatype socket_call = Opened nat | Bound nat string "16 word" | Sent nat string | Closed nat

definition create_listener :: "config \<Rightarrow> listen_replies \<Rightarrow> (string + nat) \<times> socket_call list" where
  "create_listener cfg r =
     (case lr_socket r of
        Inl e \<Rightarrow> (Inl (''socket failed: '' @ lr_strerror r e), [])
      | Inr fd \<Rightarrow>
          if \<not> lr_inet_pton r (c_str (cf_host cfg)) then
            (Inl ''listen host must be an IPv4 address'', [Opened fd, Closed fd])
          else
            let bound = [Opened fd, Bound fd (c_str (cf_host cfg)) (cf_port cfg)]
            in (case lr_bind r of
                  Some e \<Rightarrow> (Inl (''bind failed: '' @ lr_strerror r e), bound @ [Closed fd])
                | None \<Rightarrow>
                    (case lr_listen r of
                       Some e \<Rightarrow> (Inl (''listen failed: '' @ lr_strerror r e), bound @ [Closed fd])
                     | None \<Rightarrow> (Inr fd, bound))))"

section \<open>The loop of \<open>main\<close>\<close>

text \<open>
  One round: whether a signal has set \<open>g_stop\<close> before it, what \<open>poll\<close> and \<open>accept\<close> return (an
  error number, or a count and a descriptor), and what \<open>recv\<close> reads, nothing standing for zero
  or an error.
\<close>

record round =
  ro_stop :: bool
  ro_poll :: "errno + nat"
  ro_accept :: "errno + nat"
  ro_recv :: string

text \<open>
  The rounds are those the loop is watched for: after the last one it is taken to find \<open>g_stop\<close> set.
  The calls on the connections come along, in order.
\<close>

fun serve :: "config \<Rightarrow> round list \<Rightarrow> world \<Rightarrow> socket_call list \<times> world" where
  "serve cfg [] w = ([], w)"
| "serve cfg (r # rs) w =
     (if ro_stop r then ([], w)
      else case ro_poll r of
        Inl e \<Rightarrow> if e = EINTR then serve cfg rs w else ([], w)
      | Inr n \<Rightarrow>
          if n = 0 then serve cfg rs w
          else case ro_accept r of
            Inl e \<Rightarrow> if e = EINTR then serve cfg rs w else ([], w)
          | Inr client \<Rightarrow>
              if ro_recv r \<noteq> [] then
                (let (out, w1) = handle_request cfg (take 4096 (ro_recv r)) w;
                     (calls, w2) = serve cfg rs w1
                 in (Opened client # Sent client out # Closed client # calls, w2))
              else (let (calls, w2) = serve cfg rs w in (Opened client # Closed client # calls, w2)))"

text \<open>
  \<open>main\<close>: its exit status, or the exception that ends the process, with the calls on the sockets
  and the world it leaves. \<open>args\<close> are the arguments after the name of the program.
\<close>

datatype main_outcome = Exit nat | Terminated stoul_result

definition run_main :: "string list \<Rightarrow> listen_replies \<Rightarrow> round list \<Rightarrow> world \<Rightarrow>
    main_outcome \<times> socket_call list \<times> world" where
  "run_main args replies rounds w =
     (case parse_args default_config args of
        Uncaught x \<Rightarrow> (Terminated x, [], w)
      | Exit_zero \<Rightarrow> (Exit 0, [], w)
      | Args_error e \<Rightarrow> (Exit 2, [], w)
      | Configured cfg \<Rightarrow>
          (case create_listener cfg replies of
             (Inl msg, calls) \<Rightarrow> (Exit 1, calls, w)
           | (Inr listener, calls) \<Rightarrow>
               let (served, w') = serve cfg rounds w
               in (Exit 0, calls @ served @ [Closed listener], w')))"

end
