(* ===== verification/Staged_Path.thy ===== *)
theory Staged_Path
  imports Service Quadlet_Installer
begin

text \<open>
  Paths below a staging root: what \<open>relative_staged_path\<close> of the deployment and
  \<open>staged_relative_path\<close> of the service let through.
\<close>

section \<open>Safe relative paths\<close>

definition safe_name :: "string \<Rightarrow> bool" where
  "safe_name n \<longleftrightarrow> plain_name n \<and> n \<noteq> ''.'' \<and> n \<noteq> ''..''"

lemma safe_name_plain: "safe_name n \<Longrightarrow> plain_name n"
  by (simp add: safe_name_def)

lemma safe_names_plain: "\<forall>n \<in> set ns. safe_name n \<Longrightarrow> \<forall>n \<in> set ns. plain_name n"
  by (simp add: safe_name_def)

lemma join_names_Cons: "join_names (n # ns) = (if ns = [] then n else n @ CHR ''/'' # join_names ns)"
  by (cases ns) simp_all

lemma join_names_last: "\<forall>n \<in> set ns. plain_name n \<Longrightarrow> ns \<noteq> [] \<Longrightarrow> last (join_names ns) \<noteq> CHR ''/''"
proof (induction ns)
  case (Cons n ns)
  have "last n \<noteq> CHR ''/''" using Cons.prems by (cases n rule: rev_cases) (auto simp: plain_name_def)
  with Cons show ?case by (auto simp: join_names_Cons plain_name_def join_names_Nil_iff)
qed simp

lemma path_elems_join:
  assumes "\<forall>n \<in> set ns. plain_name n"
  shows "path_elems (join_names ns) = ns"
  using join_names_last [OF assms] join_names_relative [OF assms] path_names_join [OF assms]
  by (auto simp: path_elems_def)

text \<open>The stack of \<open>lexically_normal\<close> holds names of the path, and dot-dot only at the bottom.\<close>

lemma normal_loop_safe:
  "\<forall>n \<in> set ns. n \<noteq> ''.'' \<and> n \<noteq> ''..'' \<Longrightarrow> normal_loop a st ns t = (rev st @ ns, t)"
  by (induction ns arbitrary: st) auto

lemma normal_loop_step:
  "\<exists>st' t'. normal_loop a st (n # ns) t = normal_loop a st' ns t' \<and> set st' \<subseteq> insert n (set st)"
proof -
  have pick: ?thesis if "normal_loop a st (n # ns) t = normal_loop a st' ns t'" "set st' \<subseteq> insert n (set st)" for st' t'
    using that by blast
  show ?thesis
  proof (cases "n = ''.''")
    case True
    show ?thesis by (rule pick [of st "ns = [] \<or> t"]) (simp add: True, blast)
  next
    case dot: False
    show ?thesis
    proof (cases "n = ''..''")
      case False
      show ?thesis by (rule pick [of "n # st" t]) (simp_all add: dot False)
    next
      case dots: True
      show ?thesis
      proof (cases st)
        case Nil
        show ?thesis by (rule pick [of "if a then [] else [n]" t]) (simp_all add: dots Nil)
      next
        case (Cons s st')
        show ?thesis
        proof (cases "s = ''..''")
          case True
          show ?thesis by (rule pick [of "n # st" t]) (simp_all add: dots Cons True)
        next
          case False
          show ?thesis by (rule pick [of st' "ns = [] \<or> t"]) (simp add: dots Cons False, simp add: Cons, blast)
        qed
      qed
    qed
  qed
qed

lemma normal_loop_names: "normal_loop a st ns t = (ms, t') \<Longrightarrow> set ms \<subseteq> set st \<union> set ns"
proof (induction ns arbitrary: st t)
  case (Cons n ns)
  obtain st' t2 where s: "normal_loop a st (n # ns) t = normal_loop a st' ns t2" "set st' \<subseteq> insert n (set st)"
    using normal_loop_step [of a st n ns t] by blast
  from Cons.IH [of st' t2] Cons.prems s(1) have "set ms \<subseteq> set st' \<union> set ns" by simp
  with s(2) show ?case by auto
qed auto

definition normal_names :: "path \<Rightarrow> string list \<times> bool" where
  "normal_names p = normal_loop (is_absolute p) [] (path_names p) (last p = CHR ''/'')"

lemma normal_names_plain:
  assumes "n \<in> set (fst (normal_names p))"
  shows "plain_name n" "n \<in> set (path_names p)"
proof -
  note assms
  moreover have "set (fst (normal_names p)) \<subseteq> set [] \<union> set (path_names p)"
    unfolding normal_names_def by (rule normal_loop_names) (rule prod.collapse [symmetric])
  ultimately show "n \<in> set (path_names p)" by auto
  then show "plain_name n" using path_names_plain by blast
qed

lemma lexically_normal_alt:
  "p \<noteq> [] \<Longrightarrow> lexically_normal p =
     (let (ns, trail) = normal_names p
      in if ns = [] then (if is_absolute p then ''/'' else ''.'')
         else (if is_absolute p then ''/'' else []) @ join_names ns
              @ (if trail \<and> last ns \<noteq> ''..'' then ''/'' else []))"
  by (simp add: lexically_normal_def normal_names_def)

lemma is_absolute_slash [simp]: "is_absolute (CHR ''/'' # s)"
  by (simp add: is_absolute_def)

lemma is_absolute_join_append [simp]:
  "\<forall>n \<in> set ns. plain_name n \<Longrightarrow> ns \<noteq> [] \<Longrightarrow> \<not> is_absolute (join_names ns @ s)"
  by (cases ns) (auto simp: join_names_Cons plain_name_def is_absolute_def starts_with_def neq_Nil_conv)

lemma path_names_join_slash:
  assumes "\<forall>n \<in> set ns. plain_name n"
  shows "path_names (join_names ns @ ''/'') = ns"
  using split_on_append_sep [of "CHR ''/''" "join_names ns" "[]"] path_names_join [OF assms]
  by (simp add: path_names_def)

lemma path_elems_normal:
  assumes "p \<noteq> []"
  shows "is_absolute (lexically_normal p) = is_absolute p"
    "\<exists>ns t. (\<forall>n \<in> set ns. plain_name n \<and> (n = ''.'' \<or> n \<in> set (path_names p))) \<and> (t = [] \<or> t = [[]]) \<and> (t \<noteq> [] \<longrightarrow> ns \<noteq> []) \<and> (is_absolute p \<or> ns \<noteq> []) \<and>
       path_elems (lexically_normal p) = (if is_absolute p then [''/''] else []) @ ns @ t \<and>
       (\<not> is_absolute p \<longrightarrow> lexically_normal p = join_names ns @ (if t = [] then [] else ''/''))"
proof -
  obtain ns trail where n: "normal_names p = (ns, trail)" by fastforce
  have plain: "\<forall>n \<in> set ns. plain_name n" and origin: "\<forall>n \<in> set ns. n \<in> set (path_names p)"
    using normal_names_plain [of _ p] n by simp_all
  let ?s = "if trail \<and> last ns \<noteq> ''..'' then ''/'' else []"
  have l: "lexically_normal p = (if ns = [] then (if is_absolute p then ''/'' else ''.'')
         else (if is_absolute p then ''/'' else []) @ join_names ns @ ?s)"
    using lexically_normal_alt [OF assms] n by simp
  have dot: "plain_name ''.''" by (simp add: plain_name_def)
  show "is_absolute (lexically_normal p) = is_absolute p"
    using plain l dot by (auto simp: plain_name_not_absolute)
  show "\<exists>ns t. (\<forall>n \<in> set ns. plain_name n \<and> (n = ''.'' \<or> n \<in> set (path_names p))) \<and> (t = [] \<or> t = [[]]) \<and> (t \<noteq> [] \<longrightarrow> ns \<noteq> []) \<and> (is_absolute p \<or> ns \<noteq> []) \<and>
       path_elems (lexically_normal p) = (if is_absolute p then [''/''] else []) @ ns @ t \<and>
       (\<not> is_absolute p \<longrightarrow> lexically_normal p = join_names ns @ (if t = [] then [] else ''/''))"
  proof (cases "ns = []")
    case True
    then have "lexically_normal p = (if is_absolute p then ''/'' else ''.'')" by (simp add: l)
    moreover have "path_elems ''/'' = [''/'']" "path_elems ''.'' = [''.'']" by code_simp+
    ultimately show ?thesis
      using dot by (cases "is_absolute p")
        (auto intro: exI [of _ "[]"] exI [of _ "[''.'']"] simp del: path_elems_def)
  next
    case False
    define t where "t = (if ?s = [] then [] else [[]] :: string list)"
    have names: "path_names (join_names ns @ ?s) = ns"
      using path_names_join [OF plain] path_names_join_slash [OF plain] by auto
    have last: "last (join_names ns @ ?s) = CHR ''/'' \<longleftrightarrow> t \<noteq> []"
      using join_names_last [OF plain False] by (auto simp: t_def)
    have ne: "join_names ns @ ?s \<noteq> []" using join_names_Nil_iff [OF plain] False by simp
    have "path_elems (lexically_normal p) = (if is_absolute p then [''/''] else []) @ ns @ t"
      using False names last ne plain by (auto simp: l path_elems_def t_def)
    moreover have "\<not> is_absolute p \<longrightarrow> lexically_normal p = join_names ns @ (if t = [] then [] else ''/'')"
      using False by (simp add: l t_def)
    ultimately show ?thesis using plain origin False by (intro exI [of _ ns] exI [of _ t]) (auto simp: t_def)
  qed
qed

section \<open>What is let through\<close>

lemma join_names_snoc:
  "ns \<noteq> [] \<Longrightarrow> join_names (ns @ [n]) = join_names ns @ CHR ''/'' # n"
  by (induction ns) (auto simp: join_names_Cons)

lemma foldl_append_join:
  "\<forall>n \<in> set ns. plain_name n \<Longrightarrow> foldl path_append [] ns = join_names ns"
proof (induction ns rule: rev_induct)
  case (snoc n ns)
  then have IH: "foldl path_append [] ns = join_names ns" and n: "plain_name n"
    and ns: "\<forall>n \<in> set ns. plain_name n" by simp_all
  show ?case
  proof (cases "ns = []")
    case True
    with n show ?thesis by (simp add: path_append_def)
  next
    case False
    with n join_names_last [OF ns False] join_names_Nil_iff [OF ns] show ?thesis
      by (simp add: IH join_names_snoc path_append_plain)
  qed
qed simp

lemma strip_root_Some: "strip_root rs ps = Some rest \<longleftrightarrow> ps = rs @ rest"
  by (induction rs ps rule: strip_root.induct) auto

text \<open>What is below the root, as both \<open>relative_staged_path\<close> and \<open>staged_relative_path\<close> compute it.\<close>

definition below_root :: "path \<Rightarrow> path \<Rightarrow> path option" where
  "below_root root normalized =
     (if is_absolute normalized
      then map_option (foldl path_append []) (strip_root (path_elems (lexically_normal root)) (path_elems normalized))
      else Some normalized)"

lemma suffix_split:
  assumes "xs @ t = ys @ rest" "rest \<noteq> []" "t = [] \<or> t = [a]"
  shows "\<exists>ms. rest = ms @ t \<and> set ms \<subseteq> set xs"
proof (cases "t = []")
  case True
  with assms(1) have "set rest \<subseteq> set xs" by auto
  with True show ?thesis by (intro exI [of _ rest]) simp
next
  case False
  with assms(3) have t: "t = [a]" by simp
  obtain ms b where r: "rest = ms @ [b]" using assms(2) by (cases rest rule: rev_cases) auto
  with assms(1) t have "xs = ys @ ms" "b = a" by auto
  with r t show ?thesis by (intro exI [of _ ms]) auto
qed

lemma below_root_safe:
  assumes "below_root root (lexically_normal p) = Some rel" "root \<noteq> []" "rel \<noteq> []"
    "\<forall>n \<in> set (path_elems rel). path_component_is_safe n"
  shows "\<exists>ns. ns \<noteq> [] \<and> (\<forall>n \<in> set ns. safe_name n) \<and> rel = join_names ns \<and> set ns \<subseteq> set (path_names p)
    \<and> path_elems (lexically_normal p) = (if is_absolute p then path_elems (lexically_normal root) else []) @ ns"
proof -
  have p: "p \<noteq> []"
    using assms(1,3) by (auto simp: below_root_def lexically_normal_def is_absolute_def)
  from path_elems_normal [OF p] obtain ns t where n: "is_absolute (lexically_normal p) = is_absolute p"
      "\<forall>n \<in> set ns. plain_name n \<and> (n = ''.'' \<or> n \<in> set (path_names p))" "t = [] \<or> t = [[]]" "is_absolute p \<or> ns \<noteq> []" "t \<noteq> [] \<longrightarrow> ns \<noteq> []"
      "path_elems (lexically_normal p) = (if is_absolute p then [''/''] else []) @ ns @ t"
      "\<not> is_absolute p \<longrightarrow> lexically_normal p = join_names ns @ (if t = [] then [] else ''/'')"
    by blast
  have safe: "safe_name m" if "plain_name m" "path_component_is_safe m" for m
    using that by (simp add: safe_name_def path_component_is_safe_def)
  show ?thesis
  proof (cases "is_absolute p")
    case False
    then have rel: "rel = lexically_normal p" using assms(1) n(1) by (simp add: below_root_def)
    then have "[] \<notin> set (path_elems (lexically_normal p))"
      using assms(4) by (auto simp: path_component_is_safe_def)
    then have t: "t = []" using n(3,6) by auto
    have ok: "\<forall>n \<in> set ns. safe_name n" using assms(4) rel n(2,6) t False safe by auto
    then have "set ns \<subseteq> set (path_names p)" using n(2) by (auto simp: safe_name_def)
    with ok False n(4,6,7) rel t show ?thesis by auto
  next
    case True
    from path_elems_normal [OF assms(2)] obtain rs rt where r: "is_absolute root \<or> rs \<noteq> []"
      "\<forall>n \<in> set rs. plain_name n"
      "path_elems (lexically_normal root) = (if is_absolute root then [''/''] else []) @ rs @ rt" by blast
    obtain rest where rest: "path_elems (lexically_normal p) = path_elems (lexically_normal root) @ rest"
        "rel = foldl path_append [] rest"
      using assms(1) True n(1) by (auto simp: below_root_def strip_root_Some)
    have root: "is_absolute root"
    proof (rule ccontr)
      assume "\<not> is_absolute root"
      with r rest(1) n(6) True obtain r1 rs' where "rs = r1 # rs'" "r1 = ''/''" by (cases rs) auto
      with r(2) show False by (auto simp: plain_name_def)
    qed
    then have "ns @ t = (rs @ rt) @ rest" using rest(1) n(6) True r(3) by simp
    moreover have ne: "rest \<noteq> []" using rest(2) assms(3) by auto
    ultimately obtain ms where ms: "rest = ms @ t" "set ms \<subseteq> set ns"
      using suffix_split [of ns t _ rest] n(3) by blast
    have plain: "\<forall>n \<in> set ms. plain_name n" using ms(2) n(2) by auto
    have "t = []"
    proof (rule ccontr)
      assume "t \<noteq> []"
      then have rel: "rel = path_append (join_names ms) []" using n(3) rest(2) ms(1) ne foldl_append_join [OF plain] by auto
      show False
      proof (cases "ms = []")
        case True
        with rel assms(3) show False by (simp add: path_append_def)
      next
        case False
        then have "rel = join_names ms @ ''/''"
          using rel join_names_last [OF plain False] join_names_Nil_iff [OF plain] by (simp add: path_append_def is_absolute_def)
        then have "[] \<in> set (path_elems rel)"
          using path_names_join_slash [OF plain] False by (simp add: path_elems_def)
        with assms(4) show False by (auto simp: path_component_is_safe_def)
      qed
    qed
    with ms ne have "rest = ms" by auto
    moreover from this have rel: "rel = join_names ms" using rest(2) foldl_append_join [OF plain] by simp
    moreover have ok: "\<forall>n \<in> set ms. safe_name n" using assms(4) path_elems_join [OF plain] plain safe by (simp add: rel)
    moreover have "set ms \<subseteq> set (path_names p)" using ms(2) n(2) ok by (auto simp: safe_name_def)
    ultimately show ?thesis using ne rest(1) True by auto
  qed
qed

lemma relative_staged_path_Inr:
  "relative_staged_path root p = Inr rel \<longleftrightarrow>
     (\<forall>c \<in> set (path_elems p). path_component_is_safe c) \<and> below_root root (lexically_normal p) = Some rel
     \<and> rel \<noteq> [] \<and> \<not> path_eq rel ''.'' \<and> (\<forall>c \<in> set (path_elems rel). path_component_is_safe c)"
  unfolding relative_staged_path_def Let_def result_simps below_root_def
  by (auto split: option.splits)

lemma staged_relative_path_Inr:
  "staged_relative_path root p = Inr rel \<longleftrightarrow>
     below_root root (lexically_normal p) = Some rel
     \<and> rel \<noteq> [] \<and> \<not> path_eq rel ''.'' \<and> (\<forall>c \<in> set (path_elems rel). path_component_is_safe c)"
  unfolding staged_relative_path_def Let_def result_simps below_root_def
  by (auto split: option.splits)

lemma below_root_join:
  assumes "ns \<noteq> []" "\<forall>n \<in> set ns. safe_name n"
  shows "below_root root (lexically_normal (join_names ns)) = Some (join_names ns)"
proof -
  note plain = safe_names_plain [OF assms(2)]
  have ne: "join_names ns \<noteq> []" using assms(1) join_names_Nil_iff [OF plain] by simp
  have rel: "\<not> is_absolute (join_names ns)" using join_names_relative [OF plain] .
  have "normal_names (join_names ns) = (ns, False)"
    using normal_loop_safe [of ns False "[]" False] assms(2) rel path_names_join [OF plain]
      join_names_last [OF plain assms(1)]
    by (simp add: normal_names_def safe_name_def)
  then have "lexically_normal (join_names ns) = join_names ns"
    using lexically_normal_alt [OF ne] assms(1) rel by simp
  with rel show ?thesis by (simp add: below_root_def)
qed

lemma relative_staged_path_names:
  assumes "relative_staged_path root p = Inr rel" "root \<noteq> []"
  obtains ns where "ns \<noteq> []" "\<forall>n \<in> set ns. safe_name n" "rel = join_names ns" "path_elems rel = ns"
    "set ns \<subseteq> set (path_names p)"
    "path_elems (lexically_normal p) = (if is_absolute p then path_elems (lexically_normal root) else []) @ ns"
proof -
  from assms(1) have "below_root root (lexically_normal p) = Some rel" "rel \<noteq> []"
      "\<forall>n \<in> set (path_elems rel). path_component_is_safe n"
    unfolding relative_staged_path_Inr by blast+
  from below_root_safe [OF this(1) assms(2) this(2,3)] show ?thesis
    using that path_elems_join [OF safe_names_plain] by blast
qed

lemma staged_relative_path_names:
  assumes "staged_relative_path root p = Inr rel" "root \<noteq> []"
  obtains ns where "ns \<noteq> []" "\<forall>n \<in> set ns. safe_name n" "rel = join_names ns" "path_elems rel = ns"
    "set ns \<subseteq> set (path_names p)"
proof -
  from assms(1) have "below_root root (lexically_normal p) = Some rel" "rel \<noteq> []"
      "\<forall>n \<in> set (path_elems rel). path_component_is_safe n"
    unfolding staged_relative_path_Inr by blast+
  from below_root_safe [OF this(1) assms(2) this(2,3)] show ?thesis
    using that path_elems_join [OF safe_names_plain] by blast
qed

end
