(* ===== verification/Staged_Archive.thy ===== *)
theory Staged_Archive
  imports Staged_Path Installer_Properties
begin

text \<open>
  The staged image archive: the path that is let through, that the file opened is below the
  staging root and within the limit, and which files can be opened, which a path with NUL bytes
  extends beyond the staging root.
\<close>

section \<open>Paths\<close>

text \<open>
  C29: A path \<open>relative_staged_path\<close> lets through consists of names only, none of them empty,
  a dot or a dot-dot, so it cannot lead upwards; for an absolute path it is what follows the
  elements of the staging root.
\<close>

theorem staged_path_stays_below:
  assumes "relative_staged_path root p = Inr rel" "root \<noteq> []"
  shows "\<not> is_absolute rel \<and> path_elems rel \<noteq> []
    \<and> (\<forall>n \<in> set (path_elems rel). n \<noteq> [] \<and> CHR ''/'' \<notin> set n \<and> n \<noteq> ''.'' \<and> n \<noteq> ''..'')
    \<and> path_elems (lexically_normal p)
      = (if is_absolute p then path_elems (lexically_normal root) else []) @ path_elems rel"
proof -
  obtain ns where ns: "ns \<noteq> []" "\<forall>n \<in> set ns. safe_name n" "rel = join_names ns" "path_elems rel = ns"
    "path_elems (lexically_normal p) = (if is_absolute p then path_elems (lexically_normal root) else []) @ ns"
    using assms by (rule relative_staged_path_names)
  then show ?thesis
    using join_names_relative [OF safe_names_plain [OF ns(2)]] by (auto simp: safe_name_def plain_name_def)
qed

theorem staged_path_stays_below_witness:
  "\<not> is_absolute ''img/web.tar''"
proof -
  have "relative_staged_path ''/srv/staging'' ''/srv/staging/img//web.tar'' = Inr ''img/web.tar''" by code_simp
  from staged_path_stays_below [OF this] show ?thesis by simp
qed

text \<open>
  The path the service computes for a staged file and hands to the deployment is taken
  by the deployment as it is: both name the same file below the same root.
\<close>

theorem service_path_accepted_by_deployment:
  assumes "staged_relative_path root p = Inr rel" "root \<noteq> []"
  shows "relative_staged_path root rel = Inr rel"
proof -
  obtain ns where ns: "ns \<noteq> []" "\<forall>n \<in> set ns. safe_name n" "rel = join_names ns" "path_elems rel = ns"
    using assms by (rule staged_relative_path_names)
  then have "\<forall>c \<in> set (path_elems rel). path_component_is_safe c"
    by (simp add: safe_name_def plain_name_def path_component_is_safe_def)
  with assms(1) below_root_join [OF ns(1,2)] show ?thesis
    by (simp add: relative_staged_path_Inr staged_relative_path_Inr ns(3))
qed

theorem service_path_accepted_by_deployment_witness:
  "relative_staged_path ''/srv'' ''web.tar'' = Inr ''web.tar''"
  by (rule service_path_accepted_by_deployment [of _ "''/srv/x/../web.tar''"]) code_simp+

section \<open>Opening\<close>

text \<open>Going down from a directory by its entries, with no symbolic link on the way.\<close>

fun descend :: "fs \<Rightarrow> ino \<Rightarrow> string list \<Rightarrow> ino option" where
  "descend fs d [] = Some d"
| "descend fs d (n # ns) =
     (case entry fs d n of
        None \<Rightarrow> None
      | Some i \<Rightarrow> (case node_at fs i of None \<Rightarrow> None | Some (Lnk t) \<Rightarrow> None | Some _ \<Rightarrow> descend fs i ns))"

lemma descend_Cons:
  "entry fs d n = Some i \<Longrightarrow> node_at fs i = Some nd \<Longrightarrow> \<forall>t. nd \<noteq> Lnk t \<Longrightarrow> descend fs d (n # ns) = descend fs i ns"
  by (cases nd) auto

lemma resolve_name:
  assumes "plain_name n" "CHR 0x00 \<notin> set n" "resolve w d n False = Inr i"
  shows "\<exists>nd. entry (w_fs w) d n = Some i \<and> node_at (w_fs w) i = Some nd"
proof -
  have n: "n \<noteq> []" "last n \<noteq> CHR ''/''"
    using assms(1) by (cases n rule: rev_cases, auto simp: plain_name_def)+
  have "walk 40 (w_fs w) (w_root w) d [n] False = Inr i"
    using assms n by (simp add: resolve_def Let_def)
  then show ?thesis
    by (auto simp: walk_Cons entry_def dir_entries_node node_at_def split: option.splits node.splits if_splits)
qed

lemma wp_openat_name:
  assumes "calm w" "\<not> o_creat flags" "o_nofollow flags" "plain_name n" "CHR 0x00 \<notin> set n"
    and E: "\<And>e w'. idle w w' \<Longrightarrow> E e w'"
    and Q: "\<And>i nd w'. idle w w' \<Longrightarrow> entry (w_fs w) d n = Some i \<Longrightarrow> node_at (w_fs w) i = Some nd \<Longrightarrow>
       \<forall>t. nd \<noteq> Lnk t \<Longrightarrow> Q i w'"
  shows "wp (sys_openat flags d n mode) Q E w"
  unfolding sys_openat_def
proof (rule wp_syscall [OF assms(1)], goal_cases)
  case (2 e w')
  show ?case
  proof (cases "resolve w d n False")
    case (Inl m)
    with assms(2,3) E [OF 2] resolve_idle [OF 2] show ?thesis by (auto simp: wp_def Let_def)
  next
    case (Inr i)
    from resolve_name [OF assms(4,5) Inr] obtain nd where
      nd: "entry (w_fs w) d n = Some i" "node_at (w_fs w) i = Some nd" by blast
    have "open_existing flags (w_fs w) i = Inr j \<Longrightarrow> j = i \<and> (\<forall>t. nd \<noteq> Lnk t)" for j
      using nd(2) by (auto simp: open_existing_def node_at_def split: node.splits if_splits)
    with assms(2,3) E [OF 2] Q [OF 2 nd] Inr resolve_idle [OF 2] idleD(1) [OF 2] show ?thesis
      by (cases "open_existing flags (w_fs w) i") (auto simp: wp_def Let_def)
  qed
qed (rule E)

lemma wp_stat_idle:
  assumes "calm w" "\<And>e w'. idle w w' \<Longrightarrow> E e w'" "\<And>st w'. idle w w' \<Longrightarrow> Q st w'"
  shows "wp (sys_stat base p follow) Q E w"
  by (rule wp_stat [OF assms(1)]) (use assms(2,3) in blast)+

lemma wp_open_components:
  assumes "calm w" "\<forall>n \<in> set names. plain_name n \<and> CHR 0x00 \<notin> set n"
    and E: "\<And>e w'. idle w w' \<Longrightarrow> E e w'"
    and Q: "\<And>i w'. idle w w' \<Longrightarrow> descend (w_fs w) d names = Some i \<Longrightarrow> Q i w'"
  shows "wp (open_components max_bytes d names) Q E w"
  using assms
proof (induction names arbitrary: d w)
  case Nil
  then show ?case by (simp add: wp_return idle_refl)
next
  case (Cons n names)
  have open_next: "wp (or_os_error (sys_openat flags d n 0) Filesystem msg)
      (\<lambda>d'. wp (open_components max_bytes d' names) Q E) E w1"
    if w1: "idle w w1" and flags: "\<not> o_creat flags" "o_nofollow flags" for w1 flags msg
    unfolding wp_or_os_error
  proof (rule wp_openat_name [OF idle_calm [OF w1] flags], goal_cases)
    case (4 i nd w2)
    have w2: "idle w w2" using idle_trans [OF w1 4(1)] .
    have d: "descend (w_fs w) d (n # names) = descend (w_fs w) i names"
      by (rule descend_Cons) (use 4 idleD(1) [OF w1] in auto)
    show ?case
      by (rule Cons.IH [OF idle_calm [OF w2]])
        (use Cons.prems(2) Cons.prems(3,4) [OF idle_trans [OF w2]] d idleD(1) [OF w2] in auto)
  qed (use Cons.prems(2) Cons.prems(3) [OF idle_trans [OF w1]] in auto)
  show ?case
  proof (cases "names = []")
    case True
    have "wp (or_os_error (sys_openat archive_flags d n 0) Filesystem (component_error ''open'' n))
        (\<lambda>d'. wp (open_components max_bytes d' names) Q E) E w1" if "idle w w1" for w1
      by (rule open_next [OF that]) (simp_all add: archive_flags_def)
    with True show ?thesis
      unfolding open_components.simps wp_bind if_P [OF True] wp_or_os_error [of "sys_stat _ _ _"]
      by (auto intro!: wp_stat_idle Cons.prems(1,3) simp: wp_lift split: sum.split)
  next
    case False
    show ?thesis
      unfolding open_components.simps wp_bind if_not_P [OF False] wp_return
      by (rule open_next [OF idle_refl [OF Cons.prems(1)]]) (simp_all add: directory_flags_def)
  qed
qed

text \<open>What the last call of the opening, \<open>fstat\<close>, says of the file, at the moment it returns.\<close>

definition archive_opened :: "u64 \<Rightarrow> open_archive \<Rightarrow> fs \<Rightarrow> bool" where
  "archive_opened max_bytes oa fs \<longleftrightarrow>
     (\<exists>s. node_at fs (oa_fd oa) = Some (Reg s) \<and> length s = unat (oa_size oa) \<and> oa_size oa \<le> max_bytes)"

lemma check_archive_opened:
  assumes "check_archive max_bytes (stat_of nd) = Inr u" "inodes fs i = Some nd"
  shows "archive_opened max_bytes \<lparr>oa_fd = i, oa_size = word_of_int (st_size (stat_of nd))\<rparr> fs"
proof -
  obtain s where s: "i_node nd = Reg s" "int (length s) \<le> uint max_bytes"
    using assms(1) by (cases "i_node nd") (auto simp: check_archive_def stat_of_def result_simps)
  moreover have "unat (word_of_int (int (length s)) :: 64 word) = length s"
  proof -
    have "int (length s) < 2 ^ 64" using s(2) uint_lt2p [of max_bytes] by simp
    then have "length s < 2 ^ LENGTH(64)" by simp
    then have "unat (of_nat (length s) :: 64 word) = length s" by (rule of_nat_inverse [OF refl])
    then show ?thesis by (metis of_int_of_nat_eq)
  qed
  moreover have "uint max_bytes = int (unat max_bytes)" by simp
  then have "length s \<le> unat max_bytes" using s(2) by linarith
  ultimately show ?thesis
    using assms(2) by (auto simp: archive_opened_def stat_of_def node_at_def word_le_nat_alt)
qed

lemma sys_fstat_Inr:
  assumes "sys_fstat fd w = (Inr st, w')"
  shows "\<exists>nd. inodes (w_fs w') fd = Some nd \<and> st = stat_of nd"
  using assms by (auto simp: sys_fstat_def syscall_def stat_inode_def Let_def split: prod.splits option.splits)

lemma wp_finish_archive:
  "wp (bind_io (or_os_error (sys_fstat fd) Filesystem msg) (\<lambda>st.
      bind_io (lift_io (check_archive max_bytes st)) (\<lambda>_.
      return_io \<lparr>oa_fd = fd, oa_size = word_of_int (st_size st)\<rparr>)))
    (\<lambda>oa w'. oa_fd oa = fd \<and> archive_opened max_bytes oa (w_fs w')) (\<lambda>e w'. True) w"
  unfolding wp_bind wp_or_os_error wp_lift wp_return
proof (rule wpI)
  fix st w' assume "sys_fstat fd w = (Inr st, w')"
  from sys_fstat_Inr [OF this] obtain nd where "inodes (w_fs w') fd = Some nd" "st = stat_of nd" by blast
  with check_archive_opened [of max_bytes nd _ "w_fs w'" fd]
  show "case check_archive max_bytes st of Inl e \<Rightarrow> True
      | Inr x \<Rightarrow> oa_fd \<lparr>oa_fd = fd, oa_size = word_of_int (st_size st)\<rparr> = fd
          \<and> archive_opened max_bytes \<lparr>oa_fd = fd, oa_size = word_of_int (st_size st)\<rparr> (w_fs w')"
    by (cases "check_archive max_bytes st") auto
qed simp

text \<open>A postcondition of the result alone, whatever came before.\<close>

lemma wp_bind_any: "(\<And>x w'. wp (f x) Q (\<lambda>e w. True) w') \<Longrightarrow> wp (bind_io m f) Q (\<lambda>e w. True) w"
  unfolding wp_bind by (rule wpI) simp_all

text \<open>
  C16: Whatever other processes do in the meantime, an archive that is opened is a regular
  file no larger than the limit, and the recorded size is its size, at the moment the last
  check is made; the size fits 64 bits.
\<close>

theorem opened_archive_is_bounded:
  assumes "open_staged_image_archive archive options w = (Inr oa, w')"
  shows "archive_opened (do_max_image_archive_bytes options) oa (w_fs w')"
proof -
  have "wp (open_staged_image_archive archive options)
      (\<lambda>oa w'. archive_opened (do_max_image_archive_bytes options) oa (w_fs w')) (\<lambda>e w'. True) w"
    unfolding open_staged_image_archive_def
  proof (rule wp_bind_any, goal_cases)
    case (1 x w1)
    show ?case
    proof (cases "do_image_archive_root options")
      case (Some root)
      then show ?thesis
        by (simp, intro wp_bind_any wp_cong_mono [OF wp_finish_archive]) simp_all
    qed (simp add: wp_fail)
  qed
  from wp_Inr [OF this assms] show ?thesis .
qed

definition staging_fs :: fs where
  "staging_fs =
     \<lparr>inodes =
        [1 \<mapsto> mk_inode (Dir [''.'' \<mapsto> 1, ''..'' \<mapsto> 1, ''staging'' \<mapsto> 2, ''secret'' \<mapsto> 5]),
         2 \<mapsto> mk_inode (Dir [''.'' \<mapsto> 2, ''..'' \<mapsto> 1, ''img'' \<mapsto> 3]),
         3 \<mapsto> mk_inode (Dir [''.'' \<mapsto> 3, ''..'' \<mapsto> 2, ''web.tar'' \<mapsto> 4]),
         4 \<mapsto> mk_inode (Reg ''layers''),
         5 \<mapsto> mk_inode (Reg ''key'')],
      next_ino = 6\<rparr>"

definition staging_world :: "event list \<Rightarrow> world" where
  "staging_world s = (sample_world s)\<lparr>w_fs := staging_fs\<rparr>"

definition staging_options :: deployment_options where
  "staging_options = default_deployment_options\<lparr>do_image_archive_root := Some ''/staging''\<rparr>"

definition archive_at :: "path \<Rightarrow> image_archive" where
  "archive_at p = \<lparr>ia_path = p, ia_expected_sha256 = []\<rparr>"

lemma open_sample_archive:
  "fst (open_staged_image_archive (archive_at ''img/web.tar'') staging_options (staging_world []))
     = Inr \<lparr>oa_fd = 4, oa_size = 6\<rparr>"
  by code_simp

theorem opened_archive_is_bounded_witness:
  "archive_opened (8 * 1024 * 1024 * 1024) \<lparr>oa_fd = 4, oa_size = 6\<rparr>
     (w_fs (snd (open_staged_image_archive (archive_at ''img/web.tar'') staging_options (staging_world []))))"
  using opened_archive_is_bounded [OF eq_of_fst [OF open_sample_archive]]
  by (simp add: staging_options_def default_deployment_options_def)

lemma wp_open_below:
  assumes "calm w" "CHR 0x00 \<notin> set p" "relative_staged_path root p = Inr rel"
    and Q: "\<And>rd fd w'. idle w w' \<Longrightarrow> resolve w (w_cwd w) root False = Inr rd \<Longrightarrow> is_dir (w_fs w) rd \<Longrightarrow>
       descend (w_fs w) rd (path_elems rel) = Some fd \<Longrightarrow> wp (k fd) Q E w'"
    and E: "\<And>e w'. E e w'"
  shows "wp (bind_io (or_os_error (sys_open directory_flags root 0) Filesystem msg) (\<lambda>current.
    bind_io (open_components max_bytes current (path_elems rel)) k)) Q E w"
  unfolding wp_bind [of "or_os_error (sys_open _ _ _) _ _"] wp_or_os_error [of "sys_open _ _ _"]
proof (rule wp_open [OF assms(1)], goal_cases)
  case (5 rd w1)
  then have rd: "resolve w (w_cwd w) root False = Inr rd" "is_dir (w_fs w) rd"
    by (auto simp: directory_flags_def open_existing_def is_dir_def dir_entries_def split: option.splits node.splits)
  then have "root \<noteq> []" by (auto simp: resolve_def c_str_def)
  with assms(3) obtain ns where ns: "\<forall>n \<in> set ns. safe_name n" "path_elems rel = ns" "set ns \<subseteq> set (path_names p)"
    by (rule relative_staged_path_names)
  have names: "\<forall>n \<in> set (path_elems rel). plain_name n \<and> CHR 0x00 \<notin> set n"
    using ns set_path_names assms(2) by (fastforce simp: safe_name_def)
  show ?case
    unfolding wp_bind
  proof (rule wp_open_components [OF idle_calm [OF 5(1)] names], goal_cases)
    case (2 fd w2)
    then show ?case
      by (intro Q [OF idle_trans [OF 5(1) 2(1)] rd]) (simp add: idleD(1) [OF 5(1)])
  qed (rule E)
qed (simp_all add: directory_flags_def E)

text \<open>
  C15: Undisturbed, opening the staged archive stays inside the staging root: the file is
  reached from the directory the root names through directory entries only, by the names
  of the staged path, and no symbolic link is followed below the root. This holds for paths
  without NUL bytes.
\<close>

theorem opened_archive_is_confined:
  assumes "calm w" "CHR 0x00 \<notin> set (ia_path archive)"
    "open_staged_image_archive archive options w = (Inr oa, w')"
  shows "\<exists>root rel rd. do_image_archive_root options = Some root
    \<and> relative_staged_path root (ia_path archive) = Inr rel
    \<and> resolve w (w_cwd w) root False = Inr rd \<and> is_dir (w_fs w) rd
    \<and> descend (w_fs w) rd (path_elems rel) = Some (oa_fd oa) \<and> idle w w'"
proof -
  let ?Q = "\<lambda>(oa :: open_archive) w'. \<exists>root rel rd. do_image_archive_root options = Some root
    \<and> relative_staged_path root (ia_path archive) = Inr rel
    \<and> resolve w (w_cwd w) root False = Inr rd \<and> is_dir (w_fs w) rd
    \<and> descend (w_fs w) rd (path_elems rel) = Some (oa_fd oa) \<and> idle w w'"
  have "wp (open_staged_image_archive archive options) ?Q (\<lambda>e w'. True) w"
  proof (cases "do_image_archive_root options")
    case (Some root)
    show ?thesis
    proof (cases "relative_staged_path root (ia_path archive)")
      case (Inr rel)
      show ?thesis
        unfolding open_staged_image_archive_def wp_bind [of "lift_io (guard _ _)"] wp_guard Some option.case
        unfolding Inr wp_bind [of "lift_io (Inr _)"] wp_lift sum.case
      proof (split if_split, intro conjI impI TrueI, rule wp_open_below [OF assms(1,2) Inr], goal_cases)
        case (1 rd fd w2)
        then show ?case
          unfolding wp_bind wp_or_os_error wp_lift wp_return
          by (intro wp_fstat [OF idle_calm [OF 1(2)]])
            (use Inr idle_trans [OF 1(2)] in \<open>auto simp: check_archive_def split: sum.split\<close>)
      qed simp
    qed (simp add: open_staged_image_archive_def Some wp_bind wp_lift guard_def)
  qed (simp add: open_staged_image_archive_def wp_bind wp_lift wp_fail guard_def)
  from wp_Inr [OF this assms(3)] show ?thesis .
qed

theorem opened_archive_is_confined_witness:
  "\<exists>rd. resolve (staging_world []) 1 ''/staging'' False = Inr rd
    \<and> descend staging_fs rd [''img'', ''web.tar''] = Some 4"
proof -
  have c: "calm (staging_world [])" using sample_calm(1) by (simp add: staging_world_def)
  have rel: "relative_staged_path ''/staging'' ''img/web.tar'' = Inr ''img/web.tar''"
    "path_elems ''img/web.tar'' = [''img'', ''web.tar'']" by code_simp+
  have w: "w_cwd (staging_world []) = 1" "w_fs (staging_world []) = staging_fs"
    by (simp_all add: staging_world_def sample_world_def)
  show ?thesis
    using opened_archive_is_confined [OF c _ eq_of_fst [OF open_sample_archive]]
    by (auto simp: archive_at_def staging_options_def rel w)
qed

section \<open>Which file is opened\<close>

text \<open>A name as the system reads it: up to its first NUL byte.\<close>

lemma check_archive_small:
  assumes "i_node nd = Reg s" "length s \<le> unat max_bytes"
  shows "check_archive max_bytes (stat_of nd) = Inr ()"
proof -
  have "uint max_bytes = int (unat max_bytes)" by simp
  then have "int (length s) \<le> uint max_bytes" using assms(2) by linarith
  then show ?thesis using assms(1) by (simp add: check_archive_def stat_of_def result_simps)
qed

lemma wp_open_components_found:
  assumes "calm w" "faultless w" "names \<noteq> []"
    and names: "\<forall>n \<in> set names. plain_name (c_str n) \<and> length (c_str n) \<le> 255"
    and i: "descend (w_fs w) d (map c_str names) = Some i" "inodes (w_fs w) i = Some nd" "i_node nd = Reg s"
      "length s \<le> unat max_bytes"
    and Q: "\<And>w'. idle w w' \<Longrightarrow> Q i w'"
  shows "wp (open_components max_bytes d names) Q (\<lambda>_ _. False) w"
  using assms
proof (induction names arbitrary: d w)
  case (Cons n names)
  obtain j k where j: "entry (w_fs w) d (c_str n) = Some j" "node_at (w_fs w) j = Some k" "\<forall>t. k \<noteq> Lnk t"
      "descend (w_fs w) j (map c_str names) = Some i"
    using Cons.prems(5) by (auto split: option.splits node.splits)
  have r: "resolve w d n False = Inr j"
    by (rule resolve_entry [OF _ _ j(1-3)]) (use Cons.prems(4) in auto)
  have found: "wp (sys_openat flags d n 0) R (\<lambda>_ _. False) w1"
    if "idle w w1" "\<not> o_creat flags" "o_nofollow flags" "open_existing flags (w_fs w) j = Inr j"
      "\<And>w'. idle w w' \<Longrightarrow> R j w'" for flags R w1
    by (rule wp_openat_found [OF idle_calm [OF that(1)] that(2,3)])
      (use that(4,5) r resolve_idle [OF that(1)] idleD(1) [OF that(1)] idle_trans [OF that(1)]
        evolvesD(13) [OF idleD(2) [OF that(1)] Cons.prems(2)] in auto)
  show ?case
  proof (cases "names = []")
    case True
    then have ji: "j = i" using j(4) by simp
    note size_ok = check_archive_small [OF Cons.prems(7,8)]
    show ?thesis
      unfolding open_components.simps wp_bind if_P [OF True] wp_or_os_error
    proof (rule wp_stat [OF Cons.prems(1)], goal_cases)
      case (4 m nd' w1)
      then have nd': "nd' = nd" using r ji Cons.prems(6) by simp
      show ?case
        unfolding nd' wp_lift size_ok sum.case
        by (rule found [OF 4(1)])
          (use True ji Cons.prems(6,7,9) in \<open>auto simp: archive_flags_def open_existing_def wp_return\<close>)
    qed (use r ji Cons.prems(2,6) in auto)
  next
    case False
    then obtain m ms where ms: "names = m # ms" by (cases names) auto
    then have dir: "open_existing directory_flags (w_fs w) j = Inr j"
      using j(4) by (auto simp: entry_def dir_entries_def open_existing_def directory_flags_def split: option.splits node.splits)
    show ?thesis
      unfolding open_components.simps wp_bind if_not_P [OF False] wp_return wp_or_os_error
    proof (rule found [OF idle_refl [OF Cons.prems(1)] _ _ dir], goal_cases)
      case (3 w')
      show ?case
        by (rule Cons.IH) (use 3 False j(4) Cons.prems idle_trans [OF 3] idle_calm [OF 3] idleD(1) [OF 3]
          evolvesD(13) [OF idleD(2) [OF 3]] in auto)
    qed (simp_all add: directory_flags_def)
  qed
qed simp

text \<open>
  C30: Which file is opened is decided by the names up to their first NUL byte. Undisturbed, a path
  of any names but the empty one, a dot and a dot-dot opens every regular file within the limit
  that these shortened names lead to from the staging root, by entries of directories. So a
  staged archive can be used; but an element \<open>..\<close> followed by NUL passes the check on the
  elements, leads up, and a file outside the staging root is opened, as in the witness.
\<close>

theorem staged_names_end_at_nul:
  assumes "calm w" "faultless w" "do_image_archive_root options = Some root" "leads_to w root rd"
    and "ns \<noteq> []" "\<forall>n \<in> set ns. plain_name n \<and> n \<noteq> ''.'' \<and> n \<noteq> ''..'' \<and> c_str n \<noteq> [] \<and> length (c_str n) \<le> 255"
    and "descend (w_fs w) rd (map c_str ns) = Some i" "node_at (w_fs w) i = Some (Reg s)"
    and "length s \<le> unat (do_max_image_archive_bytes options)"
  shows "\<exists>w'. open_staged_image_archive \<lparr>ia_path = join_names ns, ia_expected_sha256 = []\<rparr> options w
    = (Inr \<lparr>oa_fd = i, oa_size = word_of_nat (length s)\<rparr>, w')"
proof -
  have safe: "\<forall>n \<in> set ns. safe_name n" using assms(6) by (simp add: safe_name_def)
  note plain = safe_names_plain [OF safe]
  have names: "\<forall>n \<in> set ns. plain_name (c_str n) \<and> length (c_str n) \<le> 255"
    using assms(6) by (auto simp: plain_name_def c_str_def dest: set_takeWhileD)
  have elems: "path_elems (join_names ns) = ns" by (rule path_elems_join [OF plain])
  have "path_elems ''.'' = [''.'']" by code_simp
  then have "\<not> path_eq (join_names ns) ''.''" using assms(6) elems by (auto simp: path_eq_def)
  moreover have "\<forall>c \<in> set ns. path_component_is_safe c"
    using assms(6) by (auto simp: path_component_is_safe_def plain_name_def)
  ultimately have rel: "relative_staged_path root (join_names ns) = Inr (join_names ns)"
    using assms(5) join_names_Nil_iff [OF plain] below_root_join [OF assms(5) safe]
    by (simp add: relative_staged_path_Inr elems)
  obtain nd where nd: "inodes (w_fs w) i = Some nd" "i_node nd = Reg s" using assms(8) by (auto simp: node_at_def)
  note size_ok = check_archive_small [OF nd(2) assms(9)]
  have later: "calm w'" "faultless w'" "w_fs w' = w_fs w" if "idle w w'" for w'
    using idle_calm [OF that] evolvesD(13) [OF idleD(2) [OF that] assms(2)] idleD(1) [OF that] by simp_all
  have "wp (open_staged_image_archive \<lparr>ia_path = join_names ns, ia_expected_sha256 = []\<rparr> options)
      (\<lambda>oa _. oa = \<lparr>oa_fd = i, oa_size = word_of_nat (length s)\<rparr>) (\<lambda>_ _. False) w"
    unfolding open_staged_image_archive_def wp_bind wp_guard assms(3) option.case wp_or_os_error
    unfolding image_archive.simps rel wp_lift sum.case
  proof (split if_split, intro conjI impI, rule wp_open_directory [OF assms(1,4)], goal_cases)
    case (3 w1)
    show ?case
      unfolding elems
    proof (rule wp_open_components_found [OF later(1,2) [OF 3(2)] assms(5) names, of rd i nd s], goal_cases)
      case (5 w2)
      note i2 = idle_trans [OF 3(2) 5]
      show ?case
        by (rule wp_fstat [OF idle_calm [OF i2]])
          (use later [OF i2] nd size_ok in \<open>auto simp: wp_return stat_of_def\<close>)
    qed (use later(3) [OF 3(2)] assms(7,9) nd in auto)
  qed (use assms(2) in \<open>auto simp: directory_flags_def\<close>)
  then show ?thesis by (auto simp: wp_def split: prod.splits sum.splits)
qed

theorem staged_names_end_at_nul_witness:
  "\<exists>w'. open_staged_image_archive (archive_at (''..'' @ [CHR 0x00] @ ''/secret'')) staging_options (staging_world [])
     = (Inr \<lparr>oa_fd = 5, oa_size = 3\<rparr>, w')
   \<and> resolve (staging_world []) 1 ''/staging'' False = Inr 2 \<and> descend staging_fs 2 [''secret''] = None"
proof -
  let ?ns = "[''..'' @ [CHR 0x00], ''secret'']" and ?w = "staging_world []"
  have w: "w_fs ?w = staging_fs" "w_cwd ?w = 1" "calm ?w" "faultless ?w"
    by (simp_all add: staging_world_def sample_world_def faultless_def calm_def calm_sched_def)
  have root: "do_image_archive_root staging_options = Some ''/staging''" by (simp add: staging_options_def)
  have res: "resolve ?w 1 ''/staging'' False = Inr 2" by code_simp
  have lead: "leads_to ?w ''/staging'' 2"
    using res by (simp add: leads_to_def w is_dir_def dir_entries_def staging_fs_def mk_inode_def)
  have names: "\<forall>n \<in> set ?ns. plain_name n \<and> n \<noteq> ''.'' \<and> n \<noteq> ''..'' \<and> c_str n \<noteq> [] \<and> length (c_str n) \<le> 255" by code_simp
  have way: "descend (w_fs ?w) 2 (map c_str ?ns) = Some 5" "descend staging_fs 2 [''secret''] = None" by code_simp+
  have key: "node_at (w_fs ?w) 5 = Some (Reg ''key'')" by (simp add: w node_at_def staging_fs_def mk_inode_def)
  have small: "length ''key'' \<le> unat (do_max_image_archive_bytes staging_options)"
    by (simp add: staging_options_def default_deployment_options_def)
  have p: "\<lparr>ia_path = join_names ?ns, ia_expected_sha256 = []\<rparr> = archive_at (''..'' @ [CHR 0x00] @ ''/secret'')"
    by (simp add: archive_at_def)
  from staged_names_end_at_nul [OF w(3,4) root lead _ names way(1) key small] show ?thesis
    unfolding p using res way(2) by simp
qed

end
