(* ===== verification/Deployment_Lock.thy ===== *)
theory Deployment_Lock
  imports Deployment Quadlet_Installer
begin

text \<open>
  Taking the lock of a deployment only adds to the file system: the relation \<open>extends\<close>, the
  calls that keep it, and what is left as it was for the installer.
\<close>

section \<open>Adding entries\<close>

text \<open>
  \<open>extends M fs fs'\<close>: \<open>fs'\<close> is \<open>fs\<close> with new inodes, new entries under names of \<open>M\<close>, and other
  modes of directories.
\<close>

definition extends :: "string set \<Rightarrow> fs \<Rightarrow> fs \<Rightarrow> bool" where
  "extends M fs fs' \<longleftrightarrow> fs_wf fs \<and> fs_wf fs' \<and> next_ino fs \<le> next_ino fs'
     \<and> (\<forall>j. \<not> is_dir fs j \<longrightarrow> j < next_ino fs \<longrightarrow> inodes fs' j = inodes fs j)
     \<and> (\<forall>j. is_dir fs j \<longrightarrow> is_dir fs' j)
     \<and> (\<forall>j n i. entry fs j n = Some i \<longrightarrow> entry fs' j n = Some i)
     \<and> (\<forall>j n. is_dir fs j \<longrightarrow> n \<notin> M \<longrightarrow> entry fs' j n = entry fs j n)
     \<and> (\<forall>j < next_ino fs. owners fs' j = owners fs j)"

lemma extends_refl: "fs_wf fs \<Longrightarrow> extends M fs fs"
  by (simp add: extends_def)

lemma extends_trans: "extends M fs fs' \<Longrightarrow> extends M fs' fs'' \<Longrightarrow> extends M fs fs''"
proof -
  assume a: "extends M fs fs'" "extends M fs' fs''"
  have "\<not> is_dir fs' j" if "\<not> is_dir fs j" "j < next_ino fs" for j
    using a(1) that by (simp add: extends_def is_dir_def dir_entries_def)
  with a show ?thesis unfolding extends_def by (auto dest: less_le_trans)
qed

lemma extends_mono: "extends M fs fs' \<Longrightarrow> M \<subseteq> M' \<Longrightarrow> extends M' fs fs'"
  unfolding extends_def by blast

lemma entry_dir: "entry fs d n = Some i \<Longrightarrow> is_dir fs d"
  by (auto simp: entry_def is_dir_def split: option.splits)

lemma extends_chmod: "fs_wf fs \<Longrightarrow> is_dir fs d \<Longrightarrow> extends M fs (chmod_inode d m fs)"
  unfolding extends_def by (auto simp: inodes_chmod)

lemma extends_put_entry:
  assumes "extends M fs fs'" "entry fs' d n = None" "n \<in> M" "i < next_ino fs'"
  shows "extends M fs (put_entry d n (Some i) fs')"
proof (cases "is_dir fs' d")
  case True
  note e = entry_put_entry [OF True, of n "Some i"]
  have nd: "\<not> is_dir fs j \<longrightarrow> j < next_ino fs \<longrightarrow> inodes (put_entry d n (Some i) fs') j = inodes fs j" for j
    using assms(1) True by (cases "j = d") (auto simp: extends_def is_dir_def dir_entries_def)
  have "entry fs d n = None"
  proof (cases "entry fs d n")
    case (Some k)
    with assms(1,2) show ?thesis by (simp add: extends_def)
  qed
  with assms nd show ?thesis
    unfolding extends_def e by (auto intro!: fs_wf_put_entry)
next
  case False
  then have "put_entry d n (Some i) fs' = fs'"
    by (auto simp: put_entry_def is_dir_def dir_entries_def split: option.splits node.splits)
  with assms(1) show ?thesis by simp
qed

text \<open>A new inode that nothing names yet.\<close>

lemma extends_new_inode:
  assumes "extends M fs fs'" "\<And>es n i. i_node nd = Dir es \<Longrightarrow> es n = Some i \<Longrightarrow> i \<le> next_ino fs'"
  shows "extends M fs ((put_inode (next_ino fs') nd fs')\<lparr>next_ino := Suc (next_ino fs')\<rparr>)"
proof -
  let ?i = "next_ino fs'" and ?fs = "(put_inode (next_ino fs') nd fs')\<lparr>next_ino := Suc (next_ino fs')\<rparr>"
  have free: "inodes fs' ?i = None" "fs_wf fs'" using assms(1) by (simp_all add: extends_def fs_wf_def)
  have e: "entry ?fs j n = (if j = ?i then (case i_node nd of Dir es \<Rightarrow> es n | _ \<Rightarrow> None) else entry fs' j n)" for j n
    by (auto simp: entry_def split: node.split)
  have d: "is_dir ?fs j = (if j = ?i then (\<exists>es. i_node nd = Dir es) else is_dir fs' j)" for j
    by (auto simp: is_dir_def split: node.split)
  have less: "j \<noteq> ?i" if "is_dir fs' j" for j using that free(1) by (auto simp: is_dir_def dir_entries_def)
  have old: "i \<le> ?i" if "entry fs' d n = Some i" for d n i
    using free(2) that unfolding fs_wf_def by (blast intro: less_imp_le)
  have "fs_wf ?fs"
    using free(2) unfolding fs_wf_def e
    by (auto split: node.splits simp: less_Suc_eq_le dest: assms(2) old)
  moreover have "inodes ?fs j = inodes fs' j" if "j < next_ino fs" for j
    using assms(1) that by (auto simp: extends_def)
  ultimately show ?thesis
    using assms(1) less unfolding extends_def e d by (auto dest: entry_dir less)
qed

text \<open>What extending keeps: walks, files, and being ready for the installer.\<close>

lemma extends_node:
  assumes "extends M fs fs'" "node_at fs i = Some nd"
  shows "(\<forall>es. nd \<noteq> Dir es) \<and> node_at fs' i = Some nd
    \<or> (\<exists>es es'. nd = Dir es \<and> node_at fs' i = Some (Dir es') \<and> (\<forall>n j. es n = Some j \<longrightarrow> es' n = Some j))"
proof (cases "is_dir fs i")
  case True
  then have "is_dir fs' i" using assms(1) by (simp add: extends_def)
  with True obtain es es' where n: "node_at fs i = Some (Dir es)" "node_at fs' i = Some (Dir es')"
    by (auto simp: is_dir_node)
  have "es' n = Some j" if "es n = Some j" for n j
  proof -
    have "entry fs i n = Some j" using n(1) that by (simp add: entry_def dir_entries_node)
    then have "entry fs' i n = Some j" using assms(1) by (simp add: extends_def)
    with n(2) show ?thesis by (simp add: entry_def dir_entries_node)
  qed
  with n assms(2) show ?thesis by auto
next
  case False
  have "i < next_ino fs" using assms by (auto simp: extends_def fs_wf_def node_at_def not_less [symmetric])
  with False assms have "node_at fs' i = Some nd" by (simp add: extends_def node_at_def)
  with False assms(2) show ?thesis by (auto simp: is_dir_node)
qed

lemma walks_grow:
  assumes "walks fs root k cur ns follow i"
    "\<And>j nd. node_at fs j = Some nd \<Longrightarrow> (\<forall>es. nd \<noteq> Dir es) \<and> node_at fs' j = Some nd
      \<or> (\<exists>es es'. nd = Dir es \<and> node_at fs' j = Some (Dir es') \<and> (\<forall>n i. es n = Some i \<longrightarrow> es' n = Some i))"
  shows "walks fs' root k cur ns follow i"
  using assms
proof (induction rule: walks.induct)
  case (last_link cur es n i t k)
  from last_link.prems [OF last_link.hyps(1)] last_link.hyps(3)
  obtain es' where "node_at fs' cur = Some (Dir es')" "es' n = Some i" by auto
  moreover have "node_at fs' i = Some (Lnk t)" using last_link.prems [OF last_link.hyps(4)] by auto
  ultimately show ?case using last_link.hyps(2) by (blast intro: walks.last_link)
next
  case (through_link cur es n i t ns follow k r)
  from through_link.prems [OF through_link.hyps(1)] through_link.hyps(3)
  obtain es' where "node_at fs' cur = Some (Dir es')" "es' n = Some i" by auto
  moreover have "node_at fs' i = Some (Lnk t)" using through_link.prems [OF through_link.hyps(4)] by auto
  ultimately show ?case using through_link by (blast intro: walks.through_link)
next
  case (down cur es n i nd k ns follow r)
  from down.prems [OF down.hyps(1)] down.hyps(3)
  obtain es' where "node_at fs' cur = Some (Dir es')" "es' n = Some i" by auto
  moreover obtain nd' where "node_at fs' i = Some nd'" "\<forall>t. nd' \<noteq> Lnk t"
    using down.prems [OF down.hyps(4)] down.hyps(5) by auto
  ultimately show ?case using down by (blast intro: walks.down)
qed (auto intro: walks.here)

lemma anchored_extends:
  assumes "anchored w p u d" "is_dir (w_fs w) u" "evolves w w'" "extends M (w_fs w) (w_fs w')"
  shows "anchored w' p u d"
proof -
  have u': "is_dir (w_fs w') u" using assms(2,4) by (simp add: extends_def)
  have grow: "(\<forall>es. nd \<noteq> Dir es) \<and> node_at (hollow u (w_fs w')) j = Some nd
      \<or> (\<exists>es es'. nd = Dir es \<and> node_at (hollow u (w_fs w')) j = Some (Dir es') \<and> (\<forall>n i. es n = Some i \<longrightarrow> es' n = Some i))"
    if "node_at (hollow u (w_fs w)) j = Some nd" for j nd
    using that extends_node [OF assms(4), of j nd]
    by (auto simp: node_at_hollow [OF assms(2)] node_at_hollow [OF u'] split: if_splits)
  from assms(1) have "walks (hollow u (w_fs w)) (w_root w) 40 (start_of w p) (path_names p) False d"
    by (simp add: anchored_walks)
  from walks_grow [OF this grow] assms(1) evolvesD(1,2) [OF assms(3)] show ?thesis
    by (auto simp: anchored_walks start_of_def)
qed

lemma ready_extends:
  assumes "ready w layout uid a u" "evolves w w'" "extends M (w_fs w) (w_fs w')"
  shows "ready w' layout uid a u"
  using assms anchored_extends [OF _ _ assms(2,3)] by (auto simp: ready_def extends_def)

lemma extends_lookup:
  assumes "extends M fs fs'" "is_dir fs u" "n \<notin> M"
  shows "entry fs' u n = entry fs u n" "file_text fs' u n = file_text fs u n"
    "lookup fs' u n = None \<longleftrightarrow> lookup fs u n = None"
proof -
  show e: "entry fs' u n = entry fs u n" using assms by (simp add: extends_def)
  have "(case inodes fs' i of None \<Rightarrow> None | Some nd \<Rightarrow> (case i_node nd of Reg s \<Rightarrow> Some s | _ \<Rightarrow> None))
      = (case inodes fs i of None \<Rightarrow> None | Some nd \<Rightarrow> (case i_node nd of Reg s \<Rightarrow> Some s | _ \<Rightarrow> None))
      \<and> (inodes fs' i = None \<longleftrightarrow> inodes fs i = None)" if "entry fs u n = Some i" for i
  proof (cases "is_dir fs i")
    case True
    with assms(1) have "is_dir fs' i" by (simp add: extends_def)
    with True show ?thesis by (auto simp: is_dir_def dir_entries_def split: option.splits node.splits)
  next
    case False
    have "i < next_ino fs" using assms(1) that by (auto simp: extends_def fs_wf_def)
    with False assms(1) show ?thesis by (simp add: extends_def)
  qed
  with e show "file_text fs' u n = file_text fs u n" "lookup fs' u n = None \<longleftrightarrow> lookup fs u n = None"
    by (auto simp: file_text_def lookup_def split: option.split)
qed

section \<open>Calls that only add\<close>

definition grows :: "string set \<Rightarrow> world \<Rightarrow> world \<Rightarrow> bool" where
  "grows M w w' \<longleftrightarrow> evolves w w' \<and> extends M (w_fs w) (w_fs w') \<and> w_log w' = w_log w"

lemma growsD:
  assumes "grows M w w'"
  shows "evolves w w'" "extends M (w_fs w) (w_fs w')" "w_log w' = w_log w" "fs_wf (w_fs w')" "calm w'"
  using assms evolves_calm by (auto simp: grows_def extends_def)

lemma idle_grows: "idle w w' \<Longrightarrow> fs_wf (w_fs w) \<Longrightarrow> grows M w w'"
  using idleD [of w w'] by (auto simp: grows_def extends_refl)

lemma grows_trans: "grows M w w' \<Longrightarrow> grows M w' w'' \<Longrightarrow> grows M w w''"
  unfolding grows_def by (auto intro: evolves_trans extends_trans)

lemma grows_mono: "grows M w w' \<Longrightarrow> M \<subseteq> M' \<Longrightarrow> grows M' w w'"
  unfolding grows_def using extends_mono by blast

lemma create_file_extends:
  assumes "fs_wf (w_fs w)" "dir_entries (w_fs w) d = Some es" "es n = None"
    "\<And>es' m i. nd = Dir es' \<Longrightarrow> es' m = Some i \<Longrightarrow> i \<le> next_ino (w_fs w)"
  shows "\<exists>fs. create_file d n nd mode w = (Inr (next_ino (w_fs w)), w\<lparr>w_fs := fs\<rparr>) \<and> extends {n} (w_fs w) fs"
proof -
  let ?i = "next_ino (w_fs w)"
  let ?new = "\<lparr>i_node = nd, i_mode = mode AND NOT (w_umask w), i_uid = w_euid w, i_gid = w_egid w\<rparr>"
  let ?fs = "(put_inode ?i ?new (w_fs w))\<lparr>next_ino := Suc ?i\<rparr>"
  have d: "d < ?i" using assms(1,2) is_dir_less by (simp add: is_dir_def)
  have new: "extends {n} (w_fs w) ?fs"
    by (rule extends_new_inode [OF extends_refl [OF assms(1)]]) (use assms(4) in auto)
  have "entry ?fs d n = None" using assms(2,3) d by (simp add: entry_def)
  then have "extends {n} (w_fs w) (put_entry d n (Some ?i) ?fs)"
    by (intro extends_put_entry [OF new]) auto
  moreover have "create_file d n nd mode w = (Inr ?i, w\<lparr>w_fs := put_entry d n (Some ?i) ?fs\<rparr>)"
    by (simp add: create_file_def Let_def put_entry_def put_inode_def split: option.splits node.splits)
  ultimately show ?thesis by blast
qed

lemma wp_mkdirat_grows:
  assumes "calm w" "fs_wf (w_fs w)"
  shows "wp (sys_mkdirat base p mode) (\<lambda>_. grows {last (path_names (c_str p))} w) (\<lambda>_. idle w) w"
  unfolding sys_mkdirat_def
proof (rule wp_syscall [OF assms(1)], goal_cases)
  case (2 e w1)
  note fs = idleD(1) [OF 2]
  let ?ns = "path_names (c_str p)"
  let ?b = "if is_absolute (c_str p) then w_root w1 else base"
  show ?case
  proof (cases "walk 40 (w_fs w1) (w_root w1) ?b (butlast ?ns) True")
    case (Inr d)
    show ?thesis
    proof (cases "dir_entries (w_fs w1) d")
      case (Some es)
      show ?thesis
      proof (cases "es (last ?ns)")
        case None
        let ?nd = "Dir [''.'' \<mapsto> next_ino (w_fs w1), ''..'' \<mapsto> d]"
        have d: "d < next_ino (w_fs w1)" using Some assms(2) is_dir_less by (simp add: is_dir_def fs)
        then obtain fs' where c: "create_file d (last ?ns) ?nd mode w1 = (Inr (next_ino (w_fs w1)), w1\<lparr>w_fs := fs'\<rparr>)"
            "extends {last ?ns} (w_fs w1) fs'"
          using create_file_extends [of w1 d es "last ?ns" ?nd mode, OF _ Some None] assms(2)
          by (fastforce simp: fs split: if_splits intro: less_imp_le)
        have "grows {last ?ns} w (w1\<lparr>w_fs := fs'\<rparr>)"
          using c(2) idleD(2,3) [OF 2] by (simp add: grows_def fs)
        with 2 Inr Some None c(1) show ?thesis by (simp add: wp_def Let_def)
      qed (use 2 Inr Some in \<open>simp add: wp_def Let_def\<close>)
    qed (use 2 Inr in \<open>simp add: wp_def Let_def\<close>)
  qed (use 2 in \<open>simp add: wp_def Let_def\<close>)
qed

lemma wp_openat_creat_grows:
  assumes "calm w" "fs_wf (w_fs w)" "o_creat flags"
  shows "wp (sys_openat flags base p mode) (\<lambda>_. grows {last (path_names (c_str p))} w) (\<lambda>_. idle w) w"
  unfolding sys_openat_def
proof (rule wp_syscall [OF assms(1)], goal_cases)
  case (2 e w1)
  note fs = idleD(1) [OF 2]
  let ?ns = "path_names (c_str p)"
  let ?b = "if is_absolute (c_str p) then w_root w1 else base"
  show ?case
  proof (cases "walk 40 (w_fs w1) (w_root w1) ?b (butlast ?ns) True")
    case (Inr d)
    show ?thesis
    proof (cases "dir_entries (w_fs w1) d")
      case (Some es)
      show ?thesis
      proof (cases "es (last ?ns)")
        case None
        obtain fs' where c: "create_file d (last ?ns) (Reg []) mode w1 = (Inr (next_ino (w_fs w1)), w1\<lparr>w_fs := fs'\<rparr>)"
            "extends {last ?ns} (w_fs w1) fs'"
          using create_file_extends [of w1 d es "last ?ns" "Reg []" mode, OF _ Some None] assms(2) by (auto simp: fs)
        have "grows {last ?ns} w (w1\<lparr>w_fs := fs'\<rparr>)"
          using c(2) idleD(2,3) [OF 2] by (simp add: grows_def fs)
        with 2 Inr Some None c(1) assms(3) show ?thesis by (simp add: wp_def Let_def)
      next
        case (Some i)
        show ?thesis
          using 2 Inr Some \<open>dir_entries (w_fs w1) d = _\<close> assms(3) idle_grows [OF 2 assms(2)]
          by (cases "open_existing flags (w_fs w1) i") (simp_all add: wp_def Let_def)
      qed
    qed (use 2 Inr assms(3) in \<open>simp add: wp_def Let_def\<close>)
  qed (use 2 assms(3) in \<open>simp add: wp_def Let_def\<close>)
qed

lemma wp_openat_idle:
  assumes "calm w" "\<not> o_creat flags" "\<And>e w'. idle w w' \<Longrightarrow> E e w'"
    "\<And>i w'. idle w w' \<Longrightarrow> (o_directory flags \<Longrightarrow> is_dir (w_fs w) i) \<Longrightarrow> Q i w'"
  shows "wp (sys_openat flags d p mode) Q E w"
  unfolding sys_openat_def
proof (rule wp_syscall [OF assms(1)], goal_cases)
  case (2 e w')
  have "j = i \<and> (o_directory flags \<longrightarrow> is_dir (w_fs w) i)" if "open_existing flags (w_fs w) i = Inr j" for i j
    using that by (auto simp: open_existing_def is_dir_def dir_entries_def split: option.splits node.splits if_splits)
  with assms(2) assms(3,4) [OF 2] show ?case
    by (cases "resolve w' d p (\<not> o_nofollow flags)";
        cases "open_existing flags (w_fs w') (projr (resolve w' d p (\<not> o_nofollow flags)))")
      (auto simp: wp_def Let_def idleD(1) [OF 2])
qed (rule assms(3))

lemma wp_fchmod:
  assumes "calm w" "\<And>e w'. idle w w' \<Longrightarrow> \<not> faultless w \<Longrightarrow> E e w'"
    "\<And>w'. idle w w' \<Longrightarrow> Q () (w'\<lparr>w_fs := chmod_inode i mode (w_fs w)\<rparr>)"
  shows "wp (sys_fchmod i mode) Q E w"
  unfolding sys_fchmod_def
proof (rule wp_syscall [OF assms(1)], goal_cases)
  case (2 e w')
  with assms(3) [OF 2] show ?case by (simp add: wp_def idleD(1) [OF 2])
qed (rule assms(2))

lemma check_owner_Inr:
  "check_owner layout st = Inr () \<longleftrightarrow> required_owner_uid layout \<in> {None, Some (st_uid st)}
     \<and> required_owner_gid layout \<in> {None, Some (st_gid st)}"
  unfolding check_owner_def result_simps by (auto split: option.split simp: guard_def)

lemma wp_validate_owner:
  assumes "calm w" "\<And>e w'. idle w w' \<Longrightarrow> \<not> faultless w \<or> \<not> owner_ok (w_fs w) layout fd \<Longrightarrow> E e w'"
    "\<And>w'. idle w w' \<Longrightarrow> Q () w'"
  shows "wp (validate_owner_if_required fd layout what) Q E w"
  unfolding validate_owner_if_required_def wp_bind wp_or_os_error
proof (rule wp_fstat [OF assms(1)], goal_cases)
  case (3 nd w')
  have E: "E e w'" if "\<not> owner_ok (w_fs w) layout fd" for e using assms(2) [OF 3(1)] that by blast
  have ok: "owner_ok (w_fs w) layout fd \<longleftrightarrow> required_owner_uid layout \<in> {None, Some (st_uid (stat_of nd))}
      \<and> required_owner_gid layout \<in> {None, Some (st_gid (stat_of nd))}"
    using 3(2) by (simp add: owner_ok_def check_owner_Inr)
  show ?case
    using assms(3) [OF 3(1)] E unfolding ok
    by (cases "required_owner_uid layout"; cases "required_owner_gid layout") (simp_all add: wp_return wp_guard)
qed (use assms(2) in \<open>auto simp: owner_ok_def\<close>)

lemma wp_flock_loop:
  assumes "calm w" "\<And>e w'. idle w w' \<Longrightarrow> \<not> faultless w \<Longrightarrow> E e w'"
    "\<And>w'. idle w w' \<Longrightarrow> Q fd (w'\<lparr>w_log := w_log w @ [Log_lock fd]\<rparr>)"
  shows "wp (flock_loop name fd) Q E w"
  using assms
proof (induction name fd w rule: flock_loop.induct)
  case (1 name fd w)
  have "wp (sys_flock fd) (\<lambda>u w'. Q fd w')
      (\<lambda>e w'. (if e = EINTR then wp (flock_loop name fd) Q E w'
        else wp (os_error Filesystem (''failed to lock deployment '' @ quote name @ '': '') e) Q E w')) w"
  proof (rule wpI)
    fix u w' assume r: "sys_flock fd w = (Inr u, w')"
    have "wp (sys_flock fd) (\<lambda>u w'. Q fd w') (\<lambda>e w'. True) w"
      unfolding sys_flock_def
      by (rule wp_syscall [OF "1.prems"(1)]) (use "1.prems"(3) idleD(3) in \<open>auto simp: wp_log\<close>)
    from wp_Inr [OF this r] show "Q fd w'" .
  next
    fix e w' assume r: "sys_flock fd w = (Inl e, w')"
    have "wp (sys_flock fd) (\<lambda>u w'. True) (\<lambda>e w'. idle w w' \<and> \<not> faultless w) w"
      unfolding sys_flock_def by (rule wp_syscall [OF "1.prems"(1)]) (auto simp: wp_log)
    from wp_Inl [OF this r] have i: "idle w w'" and faulty: "\<not> faultless w" by auto
    show "if e = EINTR then wp (flock_loop name fd) Q E w'
        else wp (os_error Filesystem (''failed to lock deployment '' @ quote name @ '': '') e) Q E w'"
    proof (cases "e = EINTR")
      case True
      have "wp (flock_loop name fd) Q E w'"
        by (rule "1.IH" [OF r [symmetric] refl True])
          (use idle_calm [OF i] "1.prems"(2,3) idle_trans [OF i] idleD(3) [OF i] faulty in auto)
      with True show ?thesis by simp
    next
      case False
      with i faulty "1.prems"(2) show ?thesis by (simp add: wp_os_error)
    qed
  qed
  then show ?case
    by (simp add: wp_def flock_loop.simps [of name fd w] split: prod.splits sum.splits if_splits)
qed

section \<open>The lock\<close>

text \<open>The names under which taking the lock may make an entry.\<close>

definition lock_names :: "u32 \<Rightarrow> string \<Rightarrow> string set" where
  "lock_names uid unit = {''.locks'', last (path_names (c_str (lock_name uid unit)))}"

lemma locks_name: "{last (path_names (c_str ''.locks''))} \<subseteq> lock_names uid unit"
proof -
  have "last (path_names (c_str ''.locks'')) = ''.locks''" by code_simp
  then show ?thesis by (simp add: lock_names_def)
qed

lemma wp_lock_deployment:
  assumes "calm w" "fs_wf (w_fs w)" "leads_to w (admin_user_root layout) a"
    and E: "\<And>e w'. grows (lock_names uid unit) w w' \<Longrightarrow> E e w'"
    and Q: "\<And>fd w'. grows (lock_names uid unit) w w' \<Longrightarrow>
      Q fd (w'\<lparr>w_log := w_log w @ [Log_lock fd]\<rparr>)"
  shows "wp (lock_deployment layout uid unit) Q E w"
proof -
  let ?M = "lock_names uid unit"
  have step: "grows ?M w w''" if "grows ?M w w'" "idle w' w''" for w' w''
    using grows_trans [OF that(1) idle_grows [OF that(2)]] growsD(4) [OF that(1)] .
  have E': "E e w''" if "grows ?M w w'" "idle w' w''" for e w' w''
    using step [OF that] by (rule E)
  have start: "grows ?M w w'" if "idle w w'" for w' using idle_grows [OF that assms(2)] .
  have locking: "wp (bind_io (or_os_error (sys_openat lock_flags d (lock_name uid unit) mode_0644) Filesystem msg)
      (\<lambda>lock_fd. flock_loop (lock_name uid unit) lock_fd)) Q E w1" if w1: "grows ?M w w1" for w1 d msg
    unfolding wp_bind wp_or_os_error
  proof (rule wp_cong_mono [OF wp_openat_creat_grows [OF growsD(5) [OF w1] growsD(4) [OF w1]]], goal_cases)
    case (2 fd w2)
    have w2: "grows ?M w w2"
      by (rule grows_trans [OF w1 grows_mono [OF 2]]) (simp add: lock_names_def)
    show ?case
    proof (rule wp_flock_loop [OF growsD(5) [OF w2]], goal_cases)
      case (1 e w')
      show ?case by (rule E' [OF w2 1(1)])
    next
      case (2 w')
      then show ?case using Q [OF step [OF w2 2]] growsD(3) [OF w2] by simp
    qed
  next
    case (3 e w')
    then show ?case by (rule E' [OF w1])
  qed (simp add: lock_flags_def)
  have opened: "wp (bind_io (validate_owner_if_required d layout what) (\<lambda>_.
      bind_io (or_os_error (sys_fchmod d mode_0755) Filesystem msg) (\<lambda>_.
      bind_io (or_os_error (sys_openat lock_flags d (lock_name uid unit) mode_0644) Filesystem msg2)
        (\<lambda>lock_fd. flock_loop (lock_name uid unit) lock_fd)))) Q E w1"
    if w1: "grows ?M w w1" "is_dir (w_fs w1) d" for w1 d what msg msg2
    unfolding wp_bind [of "validate_owner_if_required _ _ _"] wp_bind [of "or_os_error (sys_fchmod _ _) _ _"]
      wp_or_os_error [of "sys_fchmod _ _"]
  proof (rule wp_validate_owner [OF growsD(5) [OF w1(1)]], goal_cases)
    case (1 e w')
    show ?case by (rule E' [OF w1(1) 1(1)])
  next
    case (2 w2)
    note w2 = step [OF w1(1) 2]
    show ?case
    proof (rule wp_fchmod [OF growsD(5) [OF w2]], goal_cases)
      case (1 e w')
      show ?case by (rule E' [OF w2 1(1)])
    next
      case (2 w3)
      have "extends ?M (w_fs w) (chmod_inode d mode_0755 (w_fs w2))"
        using extends_trans [OF growsD(2) [OF w2] extends_chmod [OF growsD(4) [OF w2]]] w1(2)
          idleD(1) [OF \<open>idle w1 w2\<close>] by simp
      then have "grows ?M w (w3\<lparr>w_fs := chmod_inode d mode_0755 (w_fs w2)\<rparr>)"
        using evolves_trans [OF growsD(1) [OF w2] idleD(2) [OF 2]] idleD(3) [OF 2] growsD(3) [OF w2]
        by (simp add: grows_def)
      then show ?case by (rule locking)
    qed
  qed
  have made: "wp (bind_io (or_os_error (sys_openat directory_flags r ''.locks'' 0) Filesystem msg) (\<lambda>d.
      bind_io (validate_owner_if_required d layout what) (\<lambda>_.
      bind_io (or_os_error (sys_fchmod d mode_0755) Filesystem msg2) (\<lambda>_.
      bind_io (or_os_error (sys_openat lock_flags d (lock_name uid unit) mode_0644) Filesystem msg3)
        (\<lambda>lock_fd. flock_loop (lock_name uid unit) lock_fd))))) Q E w1"
    if w1: "grows ?M w w1" for w1 r what msg msg2 msg3
    unfolding wp_bind [of "or_os_error (sys_openat directory_flags _ _ _) _ _"] wp_or_os_error [of "sys_openat directory_flags _ _ _"]
  proof (rule wp_openat_idle [OF growsD(5) [OF w1]], goal_cases)
    case (2 e w')
    then show ?case by (rule E' [OF w1])
  next
    case (3 d w2)
    then have "is_dir (w_fs w2) d" by (simp add: directory_flags_def idleD(1) [OF 3(1)])
    then show ?case by (rule opened [OF step [OF w1 3(1)]])
  qed (simp add: directory_flags_def)
  show ?thesis
    unfolding lock_deployment_def Let_def wp_bind [of "catch_io _ _"] wp_catch [of "create_directories _"]
  proof (rule wp_create_directories [OF assms(1,3)], goal_cases)
    case (1 w1)
    note w1 = 1
    show ?case
      unfolding wp_bind [of "or_os_error (sys_open _ _ _) _ _"] wp_or_os_error [of "sys_open _ _ _"]
    proof (rule wp_open_directory [where d = a, OF idle_calm [OF w1]], goal_cases)
      case 1
      then show ?case using assms(3) leads_to_idle [OF w1] by simp
    next
      case (3 n w')
      then show ?case by (intro E' [OF start [OF w1]])
    next
      case (4 w2)
      note w2 = step [OF start [OF w1] 4]
      show ?case
        unfolding wp_bind [of "validate_owner_if_required _ _ ''deployment lock root''"]
      proof (rule wp_validate_owner [OF growsD(5) [OF w2]], goal_cases)
        case (1 e w')
        show ?case by (rule E' [OF w2 1(1)])
      next
        case (2 w3)
        note w3 = step [OF w2 2]
        show ?case
          unfolding wp_bind [of "either_io _ _ _"] wp_either
        proof (rule wp_cong_mono [OF wp_mkdirat_grows [OF growsD(5) [OF w3] growsD(4) [OF w3]]], goal_cases)
          case (1 x w')
          then show ?case
            unfolding wp_return by (intro made grows_trans [OF w3] grows_mono [OF _ locks_name])
        next
          case (2 e w')
          then show ?case
            using made [OF step [OF w3 2]] E' [OF w3 2] by (simp add: wp_simps)
        qed
      qed
    qed (simp add: directory_flags_def)
  next
    case (2 n w')
    then show ?case by (auto simp: wp_bind wp_get wp_fail intro: E start)
  qed
qed

end
