(* ===== verification/Posix_Keeps.thy ===== *)
theory Posix_Keeps
  imports Posix_Facts
begin

text \<open>
  Effects that keep a relation between worlds, for every schedule: \<open>keeps R m\<close>. The locales
  state what the relation must allow (nothing, the passing of time, changes of the file
  system, entries of the log); the composed effects of the code then keep it by
  introduction rules alone.
\<close>

named_theorems keeps_intros \<open>effects that keep a relation\<close>

definition keeps :: "(world \<Rightarrow> world \<Rightarrow> bool) \<Rightarrow> ('e, 'a) io \<Rightarrow> bool" where
  "keeps R m \<longleftrightarrow> (\<forall>w. R w (snd (m w)))"

lemma keepsI: "(\<And>w. R w (snd (m w))) \<Longrightarrow> keeps R m"
  by (simp add: keeps_def)

lemma keepsD: "keeps R m \<Longrightarrow> m w = (r, w') \<Longrightarrow> R w w'"
  unfolding keeps_def by (metis snd_conv)

lemma keeps_wp: "keeps R m \<Longrightarrow> wp m (\<lambda>_. R w) (\<lambda>_. R w) w"
  by (rule wpI) (auto dest: keepsD)

lemma wp_keeps: "(\<And>w. wp m (\<lambda>_. R w) (\<lambda>_. R w) w) \<Longrightarrow> keeps R m"
proof (rule keepsI)
  fix w assume "\<And>w. wp m (\<lambda>_. R w) (\<lambda>_. R w) w"
  then have "wp m (\<lambda>_. R w) (\<lambda>_. R w) w" .
  then show "R w (snd (m w))" by (cases "m w"; cases "fst (m w)") (simp_all add: wp_def)
qed

section \<open>Composition\<close>

locale kept =
  fixes R :: "world \<Rightarrow> world \<Rightarrow> bool"
  assumes refl: "R w w"
    and trans: "R w w' \<Longrightarrow> R w' w'' \<Longrightarrow> R w w''"
begin

lemma keeps_same: "(\<And>w. snd (m w) = w) \<Longrightarrow> keeps R m"
  by (simp add: keeps_def refl)

lemma keeps_return: "keeps R (return_io x)"
  by (rule keeps_same) (simp add: return_io_def)

lemma keeps_fail: "keeps R (fail_io e)"
  by (rule keeps_same) (simp add: fail_io_def)

lemma keeps_lift: "keeps R (lift_io r)"
  by (rule keeps_same) (simp add: lift_io_def)

lemma keeps_get: "keeps R (get_io f)"
  by (rule keeps_same) (simp add: get_io_def)

lemma keeps_os_error: "keeps R (os_error k msg e)"
  by (rule keeps_same) (simp add: os_error_def)

lemma keeps_bind: "keeps R m \<Longrightarrow> (\<And>x. keeps R (f x)) \<Longrightarrow> keeps R (bind_io m f)"
proof (rule keepsI)
  fix w assume a: "keeps R m" "\<And>x. keeps R (f x)"
  obtain r w' where r: "m w = (r, w')" by fastforce
  with a(1) have "R w w'" by (rule keepsD)
  with a(2-) show "R w (snd (bind_io m f w))"
    by (cases r) (auto simp: r bind_io_def keeps_def intro: trans)
qed

lemma keeps_either: "keeps R m \<Longrightarrow> (\<And>e. keeps R (h e)) \<Longrightarrow> (\<And>x. keeps R (f x)) \<Longrightarrow> keeps R (either_io m h f)"
proof (rule keepsI)
  fix w assume a: "keeps R m" "\<And>e. keeps R (h e)" "\<And>x. keeps R (f x)"
  obtain r w' where r: "m w = (r, w')" by fastforce
  with a(1) have "R w w'" by (rule keepsD)
  with a(2-) show "R w (snd (either_io m h f w))"
    by (cases r) (auto simp: r either_io_def keeps_def intro: trans)
qed

lemma keeps_catch: "keeps R m \<Longrightarrow> (\<And>e. keeps R (h e)) \<Longrightarrow> keeps R (catch_io m h)"
proof (rule keepsI)
  fix w assume a: "keeps R m" "\<And>e. keeps R (h e)"
  obtain r w' where r: "m w = (r, w')" by fastforce
  with a(1) have "R w w'" by (rule keepsD)
  with a(2-) show "R w (snd (catch_io m h w))"
    by (cases r) (auto simp: r catch_io_def keeps_def intro: trans)
qed

lemma keeps_or_os_error: "keeps R m \<Longrightarrow> keeps R (or_os_error m k msg)"
  unfolding or_os_error_def by (intro keeps_catch keeps_os_error)

lemma keeps_if: "(c \<Longrightarrow> keeps R m) \<Longrightarrow> (\<not> c \<Longrightarrow> keeps R m') \<Longrightarrow> keeps R (if c then m else m')"
  by simp

lemma keeps_option: "(x = None \<Longrightarrow> keeps R m) \<Longrightarrow> (\<And>y. x = Some y \<Longrightarrow> keeps R (f y)) \<Longrightarrow>
    keeps R (case x of None \<Rightarrow> m | Some y \<Rightarrow> f y)"
  by (cases x) simp_all

lemma keeps_prod: "(\<And>x y. keeps R (f x y)) \<Longrightarrow> keeps R (case p of (x, y) \<Rightarrow> f x y)"
  by (cases p) simp

lemmas composed = keeps_return keeps_fail keeps_lift keeps_get keeps_os_error keeps_bind keeps_either
  keeps_catch keeps_or_os_error keeps_if keeps_option keeps_prod

end

text \<open>An event of the schedule passes.\<close>

locale kept_in_time = kept +
  assumes event: "R w (snd (next_event w))"
begin

lemma keeps_syscall: "(\<And>e. keeps R (body e)) \<Longrightarrow> keeps R (syscall body)"
proof (rule keepsI)
  fix w assume body: "\<And>e. keeps R (body e)"
  obtain e w' where n: "next_event w = (e, w')" by fastforce
  then have "R w w'" using event [of w] by simp
  moreover have "R w' (snd (body e w'))" using body by (simp add: keeps_def)
  ultimately show "R w (snd (syscall body w))"
    using trans n by (auto simp: syscall_def split: option.split)
qed

lemma keeps_stat: "keeps R (sys_stat base p follow)"
  unfolding sys_stat_def by (intro keeps_syscall keeps_same) simp

lemma keeps_lstat: "keeps R (sys_lstat p)"
  unfolding sys_lstat_def by (intro keeps_bind keeps_get keeps_stat)

lemma keeps_fstat: "keeps R (sys_fstat i)"
  unfolding sys_fstat_def by (intro keeps_syscall keeps_same) simp

lemma keeps_read: "keeps R (sys_read i off n)"
  unfolding sys_read_def by (intro keeps_syscall keeps_same) (simp split: option.split node.split)

lemma keeps_openat: "\<not> o_creat flags \<Longrightarrow> keeps R (sys_openat flags base p mode)"
  unfolding sys_openat_def by (intro keeps_syscall keeps_same) (simp add: Let_def split: sum.split)

lemma keeps_open: "\<not> o_creat flags \<Longrightarrow> keeps R (sys_open flags p mode)"
  unfolding sys_open_def by (intro keeps_bind keeps_get keeps_openat)

lemmas reading = composed keeps_stat keeps_lstat keeps_fstat keeps_read keeps_openat keeps_open

end

text \<open>The file system changes.\<close>

locale kept_by_changes = kept_in_time +
  assumes fs_change: "R w (w\<lparr>w_fs := fs\<rparr>)"
begin

lemma keeps_create: "keeps R (create_file d n nd mode)"
  by (rule keepsI) (simp add: create_file_def Let_def fs_change)

lemma keeps_openat_any: "keeps R (sys_openat flags base p mode)"
  unfolding sys_openat_def
proof (rule keeps_syscall, rule keepsI, goal_cases)
  case (1 e w)
  have "R w (snd (create_file d n nd m w))" for d n nd m using keeps_create by (simp add: keeps_def)
  then show ?case by (auto simp: Let_def refl split: sum.split option.split)
qed

lemma keeps_open_any: "keeps R (sys_open flags p mode)"
  unfolding sys_open_def by (intro keeps_bind keeps_get keeps_openat_any)

lemma keeps_write: "keeps R (sys_write i off b)"
  unfolding sys_write_def
  by (rule keeps_syscall, rule keepsI) (simp add: Let_def refl fs_change split: option.split node.split)

lemma keeps_unlinkat: "keeps R (sys_unlinkat d n)"
  unfolding sys_unlinkat_def
  by (rule keeps_syscall, rule keepsI) (simp add: refl fs_change split: option.split)

lemma keeps_mkdirat: "keeps R (sys_mkdirat base p mode)"
  unfolding sys_mkdirat_def
proof (rule keeps_syscall, rule keepsI, goal_cases)
  case (1 e w)
  show ?case
    by (auto simp: Let_def refl fs_change create_file_def split: sum.split option.split)
qed

lemma keeps_chmodat: "keeps R (sys_chmodat base p mode)"
  unfolding sys_chmodat_def by (rule keeps_syscall, rule keepsI) (simp add: refl fs_change split: sum.split)

lemma keeps_chmod: "keeps R (sys_chmod p mode)"
  unfolding sys_chmod_def by (intro keeps_bind keeps_get keeps_chmodat)

lemma keeps_fchmod: "keeps R (sys_fchmod i mode)"
  unfolding sys_fchmod_def by (rule keeps_syscall, rule keepsI) (simp add: fs_change)

lemma keeps_create_prefixes: "keeps R (create_prefixes base ps)"
  by (induction ps) (auto intro!: composed keeps_stat keeps_mkdirat)

lemma keeps_create_directories: "keeps R (create_directories p)"
  unfolding create_directories_def by (intro composed keeps_create_prefixes)

lemmas changing = composed keeps_stat keeps_lstat keeps_fstat keeps_read keeps_openat_any keeps_open_any keeps_write
  keeps_unlinkat keeps_mkdirat keeps_chmod keeps_fchmod keeps_create_directories

end

text \<open>Files are made durable and put in place.\<close>

locale kept_by_commits = kept_by_changes +
  assumes fsync_log: "R w (w\<lparr>w_log := w_log w @ [Log_fsync i]\<rparr>)"
    and rename_log: "R w (w\<lparr>w_log := w_log w @ [Log_rename d a b]\<rparr>)"
begin

lemma keeps_fsync: "keeps R (sys_fsync i)"
  unfolding sys_fsync_def by (rule keeps_syscall, rule keepsI) (simp add: log_io_def fsync_log)

lemma keeps_renameat: "keeps R (sys_renameat d a b)"
  unfolding sys_renameat_def
proof (rule keeps_syscall, rule keepsI, goal_cases)
  case (1 e w)
  have "R w (w\<lparr>w_fs := fs, w_log := w_log w @ [Log_rename d a b]\<rparr>)" for fs
    using trans [OF fs_change rename_log, of w fs] by simp
  then show ?case by (simp add: refl split: option.split)
qed

lemmas committing = changing keeps_fsync keeps_renameat

end

section \<open>The relations\<close>

text \<open>Undisturbed and the file system untouched.\<close>

definition still :: "world \<Rightarrow> world \<Rightarrow> bool" where
  "still w w' \<longleftrightarrow> (calm w \<longrightarrow> evolves w w' \<and> w_fs w' = w_fs w)"

text \<open>Only entries of \<open>P\<close> are logged.\<close>

definition logs :: "(log_entry \<Rightarrow> bool) \<Rightarrow> world \<Rightarrow> world \<Rightarrow> bool" where
  "logs P w w' \<longleftrightarrow> (\<exists>ls. w_log w' = w_log w @ ls \<and> list_all P ls)"

text \<open>Nothing is logged, no reply of another party is used up, and undisturbed no file changes.\<close>

definition silent :: "world \<Rightarrow> world \<Rightarrow> bool" where
  "silent w w' \<longleftrightarrow> w_log w' = w_log w \<and> w_http w' = w_http w \<and> w_procs w' = w_procs w \<and> still w w'"

lemma logs_refl [simp]: "logs P w w"
  by (simp add: logs_def)

lemma logs_trans: "logs P w w' \<Longrightarrow> logs P w' w'' \<Longrightarrow> logs P w w''"
  by (force simp: logs_def)

lemma next_event_rest:
  "w_log (snd (next_event w)) = w_log w" "w_http (snd (next_event w)) = w_http w"
  "w_procs (snd (next_event w)) = w_procs w" "calm w \<Longrightarrow> evolves w (snd (next_event w)) \<and> w_fs (snd (next_event w)) = w_fs w"
  by (cases "w_sched w"; simp add: next_event_def calm_def calm_sched_def evolves_def ctx_def faultless_def)+

interpretation still: kept_in_time still
  by unfold_locales (auto simp: still_def next_event_rest intro: evolves_trans evolves_calm)

interpretation silent: kept_in_time silent
  using still.refl still.trans still.event by unfold_locales (auto simp: silent_def next_event_rest)

interpretation same_log: kept_by_changes "\<lambda>w w'. w_log w' = w_log w"
  by unfold_locales (auto simp: next_event_rest)

end
