(* ===== verification/Deployment_Facts.thy ===== *)
theory Deployment_Facts
  imports Deployment_Lock Posix_Keeps Systemd_Facts
begin

text \<open>
  What the parts of a deployment keep: opening and uploading the archive and checking the
  socket leave the file system alone, only taking and releasing the lock logs lock entries,
  and a dry run does nothing but read.
\<close>

section \<open>Reading the archive\<close>

context kept_in_time
begin

lemma keeps_open_components: "keeps R (open_components max_bytes d names)"
  by (induction names arbitrary: d)
    (auto intro!: reading simp: archive_flags_def directory_flags_def)

lemma keeps_open_staged_image_archive: "keeps R (open_staged_image_archive archive options)"
  unfolding open_staged_image_archive_def
  by (intro reading keeps_open_components) (simp add: directory_flags_def)

lemma keeps_validate_podman_socket: "keeps R (validate_podman_socket target options)"
  unfolding validate_podman_socket_def by (intro reading)

lemma keeps_resolve_uid: "keeps R (resolve_uid uid layout version)"
  by (rule keeps_same) (simp add: resolve_uid_def os_error_def split: prod.split option.split)

lemma keeps_resolve_user: "keeps R (resolve_user name layout version)"
  by (rule keeps_same) (simp add: resolve_user_def os_error_def split: prod.split option.split)

lemma keeps_pread_loop: "keeps R (pread_loop fd off n)"
proof (rule keepsI)
  fix w show "R w (snd (pread_loop fd off n w))"
  proof (induction fd off n w rule: pread_loop.induct)
    case (1 fd off n w)
    obtain r w' where r: "sys_read fd (unat off) (unat n) w = (r, w')" by fastforce
    have "R w w'" using keeps_read r by (rule keepsD)
    with 1 [OF r [symmetric]] r show ?case
      by (cases r) (auto simp: pread_loop.simps [of fd off n w] intro: trans)
  qed
qed

lemma keeps_read_fd_upload: "keeps R (read_fd_upload sz n upload)"
  unfolding read_fd_upload_def by (intro composed keeps_pread_loop)

lemma keeps_upload_loop: "keeps R (upload_loop rs upload sent)"
  by (induction rs arbitrary: upload sent) (auto intro!: composed keeps_read_fd_upload)

end

text \<open>Connections: replies are used up and requests logged.\<close>

locale kept_by_requests = kept_in_time +
  assumes http: "R w (w\<lparr>w_http := h\<rparr>)"
    and http_log: "R w (w\<lparr>w_log := w_log w @ [Log_http p u q]\<rparr>)"
    and upload_log: "R w (w\<lparr>w_log := w_log w @ [Log_upload p u i s]\<rparr>)"
begin

lemma keeps_next_reply: "keeps R next_reply"
  by (rule keepsI) (simp add: next_reply_def refl http split: list.split)

lemma keeps_finish_perform: "keeps R (finish_perform r response rc)"
  unfolding finish_perform_def by (intro composed)

lemma keeps_http_log: "keeps R (log_io (Log_http p u q))" "keeps R (log_io (Log_upload p u i s))"
  by (rule keepsI, simp add: log_io_def http_log upload_log)+

lemma keeps_request: "keeps R (request c req)"
  unfolding request_def Let_def by (intro composed keeps_next_reply keeps_http_log keeps_finish_perform)

lemma keeps_perform: "keeps R (perform c req operation)"
  unfolding perform_def by (intro composed keeps_request)

lemma keeps_load_image_archive_fd: "keeps R (load_image_archive_fd c fd n)"
  unfolding load_image_archive_fd_def Let_def
  by (intro reading keeps_next_reply keeps_http_log keeps_finish_perform keeps_upload_loop)

lemma keeps_load_archive: "keeps R (load_archive options bundle target archive)"
  unfolding load_archive_def Let_def ping_def
  by (intro composed keeps_validate_podman_socket keeps_perform keeps_load_image_archive_fd)

end

abbreviation lock_free :: "log_entry \<Rightarrow> bool" where
  "lock_free l \<equiv> l \<notin> range Log_lock \<union> range Log_unlock"

interpretation still: kept_by_requests still
  by unfold_locales (auto simp: still_def)

interpretation lock_free: kept_by_requests "logs lock_free"
  by unfold_locales (auto simp: logs_def next_event_rest)

interpretation lock_free: kept_by_commits "logs lock_free"
  by unfold_locales (auto simp: logs_def)

lemma talks_still: "talks w w' \<Longrightarrow> still w w'"
  using talksD(1) [of w w'] talks_evolves [of w w'] by (simp add: still_def)

lemma talks_lock_free: "talks w w' \<Longrightarrow> logs lock_free w w'"
  using talksD(7) [of w w'] by (auto simp: logs_def list_all_iff process_entry_def split: log_entry.splits)

section \<open>Installing logs no lock\<close>

context kept_by_commits
begin

lemma keeps_ensure_admin_tree: "keeps R (ensure_admin_tree uid layout)"
  unfolding ensure_admin_tree_def ensure_directory_safe_def secure_directory_def
  by (intro committing)

lemma keeps_write_all: "keeps R (write_all fd off c)"
proof (rule keepsI)
  fix w show "R w (snd (write_all fd off c w))"
  proof (induction fd off c w rule: write_all.induct)
    case (1 fd off c w)
    obtain r w' where r: "sys_write fd off c w = (r, w')" by fastforce
    have "R w w'" using keeps_write r by (rule keepsD)
    with 1 [OF _ r [symmetric]] r show ?case
      by (cases r) (auto simp: write_all.simps [of fd off c w] os_error_def refl intro: trans)
  qed
qed

lemma keeps_open_temp: "keeps R (open_temp dir d mode cs)"
  by (induction cs) (auto intro!: committing)

lemma keeps_atomic_write_file: "keeps R (atomic_write_file p c mode)"
  unfolding atomic_write_file_def Let_def unlink_on_failure_def unlink_on_error_def fsync_directory_def
  by (intro committing keeps_open_temp keeps_write_all)

lemma keeps_unlink_quadlet_file: "keeps R (unlink_quadlet_file p)"
  unfolding unlink_quadlet_file_def Let_def fsync_directory_def
  by (intro committing)

lemma keeps_read_loop: "keeps R (read_loop p fd n acc)"
proof (rule keepsI)
  fix w show "R w (snd (read_loop p fd n acc w))"
  proof (induction p fd n acc w rule: read_loop.induct)
    case (1 p fd n acc w)
    obtain r w' where r: "sys_read fd (length acc) (n - length acc) w = (r, w')" by fastforce
    have "R w w'" using keeps_read r by (rule keepsD)
    with 1 [OF _ r [symmetric]] r show ?case
      by (cases r) (auto simp: read_loop.simps [of p fd n acc w] os_error_def fail_io_def refl intro: trans)
  qed
qed

lemma keeps_read_regular_file: "keeps R (read_regular_file_no_symlink p n)"
  unfolding read_regular_file_no_symlink_def by (intro committing keeps_read_loop)

lemma keeps_snapshot: "keeps R (snapshot_for_user layout uid name)"
  unfolding snapshot_for_user_def Let_def
  by (intro committing keeps_ensure_admin_tree keeps_read_regular_file)

lemma keeps_install: "keeps R (install_for_user layout policy uid q)"
  unfolding install_for_user_def
  by (intro committing keeps_ensure_admin_tree keeps_atomic_write_file)

lemma keeps_restore: "keeps R (restore_for_user layout uid snap)"
  unfolding restore_for_user_def Let_def
  by (intro committing keeps_ensure_admin_tree keeps_atomic_write_file keeps_unlink_quadlet_file)

end

end
