(* ===== verification/Deployment_Rollback.thy ===== *)
theory Deployment_Rollback
  imports Deployment_Facts
begin

text \<open>
  Weakest-precondition rules for the part of \<open>deploy\<close> that changes the Quadlet, for any
  controller that keeps the contract \<open>user_systemd\<close>: what a roll back restores, and when
  nothing can be in its way.
\<close>

section \<open>After an installation\<close>

lemma owner_ok_owners: "owners fs' d = owners fs d \<Longrightarrow> owner_ok fs layout d \<Longrightarrow> owner_ok fs' layout d"
proof -
  assume o: "owners fs' d = owners fs d" and ok: "owner_ok fs layout d"
  from ok obtain nd where nd: "inodes fs d = Some nd" "check_owner layout (stat_of nd) = Inr ()"
    by (auto simp: owner_ok_def)
  with o obtain nd' where nd': "inodes fs' d = Some nd'" "i_uid nd' = i_uid nd" "i_gid nd' = i_gid nd"
    by (auto simp: owners_def)
  then have "st_uid (stat_of nd') = st_uid (stat_of nd)" "st_gid (stat_of nd') = st_gid (stat_of nd)"
    by (simp_all add: stat_of_def)
  then have "check_owner layout (stat_of nd') = check_owner layout (stat_of nd)"
    by (simp only: check_owner_def)
  with nd nd' show "owner_ok fs' layout d" by (simp add: owner_ok_def)
qed

lemma owners_ok_frame:
  assumes "frame u N fs fs'" "owners_ok fs layout a u" "is_dir fs a"
  shows "owners_ok fs' layout a u"
proof -
  have "a < next_ino fs" "u < next_ino fs"
    using assms(1,3) is_dir_less by (auto simp: frame_def)
  then have "owners fs' a = owners fs a" "owners fs' u = owners fs u"
    using assms(1) by (simp_all add: frame_def)
  with assms(2) show ?thesis by (auto simp: owners_ok_def intro: owner_ok_owners)
qed

text \<open>The contents a restore of the snapshot puts back.\<close>

definition snapshot_text :: "quadlet_snapshot \<Rightarrow> string option" where
  "snapshot_text snap = (if qs_existed snap then Some (qs_contents snap) else None)"

lemma restore_not_blocked:
  assumes "faultless w2" "write_done w1 u (qs_file_name snap) c w2" "evolves w1 w2" "ready w1 layout uid a u"
    "owners_ok (w_fs w1) layout a u" "validate_quadlet_file_name (qs_file_name snap) = Inr ()"
    "qs_path snap = quadlet_path layout uid (qs_file_name snap)"
  shows "\<not> restore_blocked w2 layout uid a u snap"
proof -
  let ?n = "qs_file_name snap"
  have f: "frame u {?n} (w_fs w1) (w_fs w2)" and i: "installed w1 u ?n c (w_fs w2)"
    and us: "usable (w_fs w1) u (candidates w1 ?n)"
    using assms(2) by (simp_all add: write_done_def)
  have c: "candidates w2 ?n = candidates w1 ?n" using evolvesD(6) [OF assms(3)] by (simp add: candidates_def)
  have "\<forall>t \<in> set (candidates w1 ?n). entry (w_fs w2) u t = entry (w_fs w1) u t"
  proof
    fix t assume "t \<in> set (candidates w1 ?n)"
    then have "t \<noteq> ?n" unfolding set_candidates using temp_names_self by metis
    with f show "entry (w_fs w2) u t = entry (w_fs w1) u t" by (simp add: frame_def)
  qed
  with us c have us2: "usable (w_fs w2) u (candidates w2 ?n)" using usable_cong by metis
  have plain_file: "\<not> is_dir (w_fs w2) j" if "entry (w_fs w2) u ?n = Some j" for j
    using i that by (auto simp: installed_def is_dir_def dir_entries_def)
  have own: "owners_ok (w_fs w2) layout a u"
    using owners_ok_frame [OF f assms(5)] assms(4) by (simp add: ready_def)
  show ?thesis
    using assms(1,6,7) us2 plain_file own by (auto simp: restore_blocked_def cannot_write_def)
qed

section \<open>The contract at work\<close>

context user_systemd
begin

text \<open>
  A roll back always ends in an error. It leaves the old contents or the new ones, the new ones
  only if the restore was blocked.
\<close>

lemma wp_rollback:
  assumes "calm w" "ready w (qi_layout installer) uid a u"
    and E: "\<And>e w'. evolves w w' \<Longrightarrow>
       frame u (insert (qs_file_name snap) (temp_names w (qs_file_name snap))) (w_fs w) (w_fs w') \<Longrightarrow>
       file_text (w_fs w') u (qs_file_name snap) = snapshot_text snap \<or>
       restore_blocked w (qi_layout installer) uid a u snap \<and>
         file_text (w_fs w') u (qs_file_name snap) = file_text (w_fs w) u (qs_file_name snap) \<Longrightarrow> E e w'"
  shows "wp (rollback_error installer ctl target uid snap unit again original) Q E w"
proof -
  let ?n = "qs_file_name snap"
  have talk: "E e w''" if "evolves w w'" "frame u {?n} (w_fs w) (w_fs w')"
      "file_text (w_fs w') u ?n = snapshot_text snap" "talks w' w''" for e w' w''
    using that talksD(1) [OF that(4)] talks_evolves [OF that(4) evolves_calm [OF that(1)]] evolves_trans
    by (intro E) (auto intro: frame_mono)
  show ?thesis
    unfolding rollback_error_def wp_either
  proof (rule wp_restore [OF assms(1,2)], goal_cases)
    case (1 w1)
    then have t: "file_text (w_fs w1) u ?n = snapshot_text snap"
      by (auto simp: snapshot_text_def file_text_def lookup_def split: if_splits)
    note settled = talk [OF 1(1,3) t]
    show ?case
      unfolding Let_def wp_either
    proof (rule wp_reload, goal_cases)
      case (1 w2)
      show ?case
      proof (cases "again \<and> qs_existed snap")
        case True
        show ?thesis
          unfolding if_P [OF True] wp_either
          by (rule wp_restart) (auto simp: fail_more_def wp_fail wp_if intro!: settled talks_trans [OF 1])
      next
        case False
        show ?thesis unfolding if_not_P [OF False] fail_more_def wp_fail by (rule settled [OF 1])
      qed
    next
      case (2 e w2)
      then show ?case unfolding fail_more_def wp_fail by (rule settled)
    qed
  next
    case (2 e w')
    then show ?case
      unfolding fail_more_def wp_fail by (intro E) (auto simp: snapshot_text_def)
  qed
qed

text \<open>
  From the snapshot on. \<open>w\<close> is the world before: the file changes to the new contents, and stays
  that way only if the deployment succeeds or a call fails.
\<close>

lemma wp_deploy_quadlet:
  assumes "calm w" "ready w (qi_layout installer) (bu_target_uid bundle) a u"
  defines "name \<equiv> qf_file_name (bu_quadlet bundle)" and "c \<equiv> qf_contents (bu_quadlet bundle)"
  assumes Q: "\<And>res inst w'. evolves w w' \<Longrightarrow> frame u {name} (w_fs w) (w_fs w') \<Longrightarrow>
       file_text (w_fs w') u name = Some c \<Longrightarrow>
       expected_install (qi_layout installer) (qi_policy installer) (bu_target_uid bundle) (bu_quadlet bundle) = Inr inst \<Longrightarrow>
       dr_systemd_unit res = iq_systemd_unit inst \<Longrightarrow> dr_installed_quadlet_path res = iq_path inst \<Longrightarrow>
       (do_restart_unit options \<longrightarrow> (\<exists>st. dr_status res = Some st \<and> us_unit st = dr_systemd_unit res \<and>
          deployed_status_is_healthy st)) \<Longrightarrow> Q res w'"
    and E: "\<And>e w'. evolves w w' \<Longrightarrow> frame u (insert name (temp_names w name)) (w_fs w) (w_fs w') \<Longrightarrow>
       file_text (w_fs w') u name = file_text (w_fs w) u name \<or>
       \<not> faultless w \<and> file_text (w_fs w') u name = Some c \<Longrightarrow> E e w'"
  shows "wp (deploy_quadlet installer ctl options bundle target result) Q E w"
proof -
  let ?layout = "qi_layout installer" and ?uid = "bu_target_uid bundle" and ?q = "bu_quadlet bundle"
  let ?N = "insert name (temp_names w name)"
  show ?thesis
    unfolding deploy_quadlet_def wp_bind [of "snapshot_for_user _ _ _"]
  proof (rule wp_snapshot [OF assms(1,2)], goal_cases)
    case (2 e w1)
    then have "file_text (w_fs w1) u name = file_text (w_fs w) u name"
      by (intro file_text_frame) (auto simp: frame_def)
    with 2 show ?case by (intro E) (auto intro: frame_mono)
  next
    case (1 snap w1)
    note e1 = 1(1) and f1 = 1(2) and valid = 1(3) and snap = 1(4,5)
    have r1: "ready w1 ?layout ?uid a u" using ready_frame [OF assms(2) e1 f1] .
    have names: "temp_names w1 name = temp_names w name" using evolvesD(6) [OF e1] by (simp add: temp_names_def)
    have old: "file_text (w_fs w) u name = snapshot_text snap"
      using 1(6) by (auto simp: snapshot_text_def name_def file_text_def split: if_splits)
    have old1: "file_text (w_fs w1) u name = file_text (w_fs w) u name"
      using f1 by (intro file_text_frame) (auto simp: frame_def)
    show ?case
      unfolding wp_bind [of "install_for_user _ _ _ _"]
    proof (rule wp_install [OF evolves_calm [OF e1] r1], goal_cases)
      case (2 e w2)
      note e2 = evolves_trans [OF e1 2(1)]
      from 2(3) show ?case
      proof (elim disjE conjE exE)
        assume f: "frame u (temp_names w1 (qf_file_name ?q)) (w_fs w1) (w_fs w2)"
        then have "file_text (w_fs w2) u name = file_text (w_fs w1) u name"
          by (simp add: name_def frame_temps_text)
        moreover have "frame u ?N (w_fs w) (w_fs w2)"
          by (rule frame_trans [OF frame_mono [OF f1] frame_mono [OF f]]) (auto simp: names name_def [symmetric])
        ultimately show "E e w2" using e2 old1 by (intro E) auto
      next
        fix inst assume f: "\<not> faultless w1" "write_done w1 u (qf_file_name ?q) (qf_contents ?q) w2"
        then have "frame u ?N (w_fs w) (w_fs w2)" "file_text (w_fs w2) u name = Some c" "\<not> faultless w"
          using frame_trans [OF frame_mono [OF f1] frame_mono, of ?N "{name}" "w_fs w2"] evolvesD(13) [OF e1]
          by (auto simp: write_done_def name_def c_def intro: installed_text)
        with e2 show "E e w2" by (intro E) auto
      qed
    next
      case (1 inst w2)
      note e12 = 1(1) and expected = 1(2) and own = 1(3) and written = 1(4)
      note e2 = evolves_trans [OF e1 e12]
      have f12: "frame u {name} (w_fs w1) (w_fs w2)" and t2: "file_text (w_fs w2) u name = Some c"
        using written by (auto simp: write_done_def name_def c_def intro: installed_text)
      have f2: "frame u {name} (w_fs w) (w_fs w2)"
        by (rule frame_trans [OF frame_mono [OF f1] f12]) simp
      have r2: "ready w2 ?layout ?uid a u" using ready_frame [OF r1 e12 f12] .
      have free: "\<not> restore_blocked w2 ?layout ?uid a u snap" if "faultless w"
        by (rule restore_not_blocked [OF _ _ e12 r1 own])
          (use that evolvesD(13) [OF e2] written snap valid in auto)
      have rolled: "wp (rollback_error installer ctl target ?uid snap unit again original) Q' E w3"
        if "talks w2 w3" for unit again original w3 and Q' :: "'b \<Rightarrow> world \<Rightarrow> bool"
      proof -
        note fs = talksD(1) [OF that] and e23 = talks_evolves [OF that evolves_calm [OF e2]]
        have r3: "ready w3 ?layout ?uid a u"
          by (rule ready_frame [OF r2 e23]) (use r2 in \<open>simp add: fs ready_def frame_refl\<close>)
        have block: "restore_blocked w3 = restore_blocked w2" if "faultless w3 = faultless w2"
          using that evolvesD(6) [OF e23] by (intro ext) (simp add: restore_blocked_def cannot_write_def candidates_def fs)
        show ?thesis
        proof (rule wp_rollback [OF evolves_calm [OF e23] r3], goal_cases)
          case (1 e w4)
          have e4: "evolves w w4" using evolves_trans [OF evolves_trans [OF e2 e23] 1(1)] .
          have "temp_names w3 name = temp_names w name"
            using evolvesD(6) [OF evolves_trans [OF e2 e23]] by (simp add: temp_names_def)
          then have f4: "frame u ?N (w_fs w) (w_fs w4)"
            using frame_trans [OF frame_mono [OF f2] 1(2) [unfolded fs]] snap by (simp add: name_def)
          show ?case
            using 1(3) e4 f4 free block talksD(6) [OF that] old t2 snap fs
            by (intro E) (auto simp: name_def)
        qed
      qed
      show ?case
        unfolding Let_def wp_bind [of "catch_io _ _"] wp_catch
      proof (rule wp_reload, goal_cases)
        case (2 e w3)
        then show ?case by (rule rolled)
      next
        case (1 w3)
        note t3 = 1
        have fin: "Q res w4" if "talks w3 w4" "dr_systemd_unit res = iq_systemd_unit inst"
            "dr_installed_quadlet_path res = iq_path inst"
            "do_restart_unit options \<longrightarrow> (\<exists>st. dr_status res = Some st \<and> us_unit st = dr_systemd_unit res \<and>
              deployed_status_is_healthy st)" for res w4
          using that t2 f2 expected talksD(1) talks_evolves [OF talks_trans [OF t3 that(1)] evolves_calm [OF e2]]
            talksD(1) [OF talks_trans [OF t3 that(1)]] evolves_trans [OF e2]
          by (intro Q [of w4 inst]) (auto simp: name_def [symmetric])
        show ?case
        proof (cases "do_restart_unit options")
          case True
          show ?thesis
            unfolding if_P [OF True] wp_bind [of "catch_io _ _"] wp_catch
          proof (rule wp_restart, goal_cases)
            case (1 op w4)
            then show ?case
              using rolled [OF talks_trans [OF t3 1(1)]] True
              by (auto simp: wp_if wp_return intro!: fin)
          next
            case (2 e w4)
            then show ?case by (intro rolled talks_trans [OF t3])
          qed
        next
          case False
          show ?thesis
            unfolding if_not_P [OF False] wp_either
            by (rule wp_status) (use False in \<open>auto simp: wp_return intro!: fin\<close>)
        qed
      qed
    qed
  qed
qed

end

end
