(* ===== verification/Deployment_Properties.thy ===== *)
theory Deployment_Properties
  imports Deployment_Rollback Installer_Properties Systemd_Properties
begin

text \<open>
  The properties of \<open>DeploymentOrchestrator::deploy\<close>.
\<close>

section \<open>Names\<close>

lemma derived_unit_plain:
  assumes "service_unit_name_from_quadlet f = Inr unit"
  shows "CHR ''/'' \<notin> set unit" "CHR 0x00 \<notin> set unit"
proof -
  obtain stem where s: "quadlet_stem stem" "unit = stem @ ''.service''"
    using assms by (rule service_unit_name_Inr)
  then have "\<forall>c \<in> set stem. safe_unit_file_char c" by (simp add: quadlet_stem_def list_all_iff)
  moreover have "\<not> safe_unit_file_char (CHR ''/'')" "\<not> safe_unit_file_char (CHR 0x00)" by code_simp+
  ultimately have "CHR ''/'' \<notin> set stem" "CHR 0x00 \<notin> set stem" by blast+
  then show "CHR ''/'' \<notin> set unit" "CHR 0x00 \<notin> set unit" by (simp_all add: s(2))
qed

lemma lock_name_plain:
  assumes "CHR ''/'' \<notin> set unit" "CHR 0x00 \<notin> set unit"
  shows "plain_name (lock_name uid unit)" "CHR 0x00 \<notin> set (lock_name uid unit)"
  using assms show_nat_plain by (simp_all add: plain_name_def lock_name_def)

lemma lock_names_eq:
  assumes "CHR ''/'' \<notin> set unit" "CHR 0x00 \<notin> set unit"
  shows "lock_names uid unit = {''.locks'', lock_name uid unit}"
  using lock_name_plain [OF assms] by (simp add: lock_names_def)

lemma quadlet_name_not_lock:
  assumes "service_unit_name_from_quadlet f = Inr unit"
  shows "f \<notin> {''.locks'', lock_name uid unit}"
proof -
  obtain stem where "f = stem @ ''.container''" using assms by (rule service_unit_name_Inr)
  then have "last f = CHR ''r''" by simp
  moreover have "last (lock_name uid unit) = CHR ''k''" by (simp add: lock_name_def)
  ultimately show ?thesis by auto
qed

lemma validate_bundle_Inr:
  assumes "validate_deployment_bundle bundle = Inr ()"
  shows "bu_target_uid bundle \<noteq> 0"
    "service_unit_name_from_quadlet (qf_file_name (bu_quadlet bundle)) = Inr (bu_service_name bundle @ ''.service'')"
  using assms unfolding validate_deployment_bundle_def result_simps by auto

section \<open>The phases of a deployment\<close>

lemma wp_still:
  assumes "keeps still m" "calm w"
    "\<And>x w'. evolves w w' \<Longrightarrow> w_fs w' = w_fs w \<Longrightarrow> Q x w'" "\<And>e w'. evolves w w' \<Longrightarrow> w_fs w' = w_fs w \<Longrightarrow> E e w'"
  shows "wp m Q E w"
  by (rule wp_cong_mono [OF keeps_wp [OF assms(1)]]) (use assms(2-4) in \<open>auto simp: still_def\<close>)

text \<open>Nothing but the names \<open>N\<close> of the directory \<open>u\<close> changed, and no file was written over.\<close>

definition others_kept :: "ino \<Rightarrow> string set \<Rightarrow> fs \<Rightarrow> fs \<Rightarrow> bool" where
  "others_kept u N fs fs' \<longleftrightarrow> (\<forall>n. n \<notin> N \<longrightarrow> entry fs' u n = entry fs u n)
     \<and> (\<forall>j < next_ino fs. \<not> is_dir fs j \<longrightarrow> inodes fs' j = inodes fs j)"

lemma others_kept_refl [simp]: "others_kept u N fs fs"
  by (simp add: others_kept_def)

lemma others_kept_extends: "extends M fs fs' \<Longrightarrow> is_dir fs u \<Longrightarrow> M \<subseteq> N \<Longrightarrow> others_kept u N fs fs'"
  unfolding extends_def others_kept_def by blast

lemma others_kept_frame:
  assumes "extends M fs fs1" "is_dir fs u" "frame u K fs1 fs'" "M \<union> K \<subseteq> N"
  shows "others_kept u N fs fs'"
proof -
  have "inodes fs' j = inodes fs j" if "\<not> is_dir fs j" "j < next_ino fs" for j
  proof -
    have j: "inodes fs1 j = inodes fs j" "j < next_ino fs1" using assms(1) that by (simp_all add: extends_def)
    with that have "\<not> is_dir fs1 j" by (simp add: is_dir_def dir_entries_def)
    with assms(3) j show ?thesis by (simp add: frame_def)
  qed
  moreover have "entry fs' u n = entry fs u n" if "n \<notin> N" for n
  proof -
    have "n \<notin> M" "n \<notin> K" using that assms(4) by auto
    then show ?thesis using assms(2) extends_lookup(1) [OF assms(1,2)] assms(3) by (simp add: frame_def)
  qed
  ultimately show ?thesis by (simp add: others_kept_def)
qed

definition deploy_names :: "world \<Rightarrow> deployment_bundle \<Rightarrow> string set" where
  "deploy_names w bundle = insert (qf_file_name (bu_quadlet bundle))
     (temp_names w (qf_file_name (bu_quadlet bundle)) \<union>
      {''.locks'', lock_name (bu_target_uid bundle) (bu_service_name bundle @ ''.service'')})"

context user_systemd
begin

lemma wp_deploy_held:
  assumes "calm w" "ready w (qi_layout installer) (bu_target_uid bundle) a u"
    and w1: "evolves w w1" "extends M (w_fs w) (w_fs w1)"
  defines "name \<equiv> qf_file_name (bu_quadlet bundle)" and "c \<equiv> qf_contents (bu_quadlet bundle)"
  assumes M: "name \<notin> M" "M \<subseteq> deploy_names w bundle"
    and Q: "\<And>res inst w'. evolves w w' \<Longrightarrow> others_kept u (deploy_names w bundle) (w_fs w) (w_fs w') \<Longrightarrow>
       file_text (w_fs w') u name = Some c \<Longrightarrow>
       expected_install (qi_layout installer) (qi_policy installer) (bu_target_uid bundle) (bu_quadlet bundle) = Inr inst \<Longrightarrow>
       dr_systemd_unit res = iq_systemd_unit inst \<Longrightarrow> dr_installed_quadlet_path res = iq_path inst \<Longrightarrow>
       (do_restart_unit options \<longrightarrow> (\<exists>st. dr_status res = Some st \<and> us_unit st = dr_systemd_unit res \<and>
          deployed_status_is_healthy st)) \<Longrightarrow> Q res w'"
    and E: "\<And>e w'. evolves w w' \<Longrightarrow> others_kept u (deploy_names w bundle) (w_fs w) (w_fs w') \<Longrightarrow>
       file_text (w_fs w') u name = file_text (w_fs w) u name \<or>
       \<not> faultless w \<and> file_text (w_fs w') u name = Some c \<Longrightarrow> E e w'"
  shows "wp (holding fd (bind_io (load_archive options bundle target archive) (\<lambda>_.
      deploy_quadlet installer ctl options bundle target result))) Q E w1"
proof -
  have u: "is_dir (w_fs w) u" using assms(2) by (simp add: ready_def)
  have r1: "ready w1 (qi_layout installer) (bu_target_uid bundle) a u" using ready_extends [OF assms(2) w1] .
  have t1: "file_text (w_fs w1) u name = file_text (w_fs w) u name" by (rule extends_lookup [OF w1(2) u M(1)])
  have names: "insert name (temp_names w1 name) \<subseteq> deploy_names w bundle"
    using evolvesD(6) [OF w1(1)] by (auto simp: deploy_names_def name_def temp_names_def)
  have kept: "others_kept u (deploy_names w bundle) (w_fs w) (w_fs w')"
    if "frame u K (w_fs w1) (w_fs w')" "K \<subseteq> insert name (temp_names w1 name)" for w' K
    by (rule others_kept_frame [OF w1(2) u that(1)]) (use M(2) names that(2) in auto)
  show ?thesis
    unfolding holding_def wp_either wp_bind release_lock_def wp_log wp_fail wp_return
  proof (rule wp_still [OF still.keeps_load_archive evolves_calm [OF w1(1)]], goal_cases)
    case (1 x w2)
    note e2 = evolves_trans [OF w1(1) 1(1)] and fs = 1(2)
    have r2: "ready w2 (qi_layout installer) (bu_target_uid bundle) a u"
      by (rule ready_frame [OF r1 1(1)]) (use r1 fs in \<open>simp add: ready_def frame_refl\<close>)
    have tn: "temp_names w2 name = temp_names w1 name" using evolvesD(6) [OF 1(1)] by (simp add: temp_names_def)
    show ?case
    proof (rule wp_deploy_quadlet [OF evolves_calm [OF e2] r2], goal_cases)
      case (1 res inst w')
      then show ?case
        using evolves_trans [OF e2 1(1)] kept [of "{name}" w'] unfolding fs name_def [symmetric] c_def [symmetric]
        by (intro Q [of _ inst]) auto
    next
      case (2 e w')
      then show ?case
        using evolves_trans [OF e2 2(1)] kept [of "insert name (temp_names w1 name)" w'] evolvesD(13) [OF e2] t1
        unfolding fs name_def [symmetric] c_def [symmetric] tn
        by (intro E) auto
    qed
  next
    case (2 e w2)
    then show ?case
      using evolves_trans [OF w1(1) 2(1)] t1 others_kept_extends [OF w1(2) u M(2)] by (intro E) auto
  qed
qed

lemma wp_deploy:
  assumes "calm w" "ready w (qi_layout installer) (bu_target_uid bundle) a u" "\<not> do_dry_run options"
  defines "name \<equiv> qf_file_name (bu_quadlet bundle)" and "c \<equiv> qf_contents (bu_quadlet bundle)"
  assumes Q: "\<And>res inst w'. evolves w w' \<Longrightarrow> others_kept u (deploy_names w bundle) (w_fs w) (w_fs w') \<Longrightarrow>
       file_text (w_fs w') u name = Some c \<Longrightarrow>
       expected_install (qi_layout installer) (qi_policy installer) (bu_target_uid bundle) (bu_quadlet bundle) = Inr inst \<Longrightarrow>
       dr_systemd_unit res = iq_systemd_unit inst \<Longrightarrow> dr_installed_quadlet_path res = iq_path inst \<Longrightarrow>
       (do_restart_unit options \<longrightarrow> (\<exists>st. dr_status res = Some st \<and> us_unit st = dr_systemd_unit res \<and>
          deployed_status_is_healthy st)) \<Longrightarrow> Q res w'"
    and E: "\<And>e w'. evolves w w' \<Longrightarrow> others_kept u (deploy_names w bundle) (w_fs w) (w_fs w') \<Longrightarrow>
       file_text (w_fs w') u name = file_text (w_fs w) u name \<or>
       \<not> faultless w \<and> file_text (w_fs w') u name = Some c \<Longrightarrow> E e w'"
  shows "wp (deploy installer (Some ctl) options bundle) Q E w"
proof -
  let ?layout = "qi_layout installer" and ?uid = "bu_target_uid bundle" and ?q = "bu_quadlet bundle"
  have u: "is_dir (w_fs w) u" using assms(2) by (simp add: ready_def)
  have same: "E e w'" if "evolves w w'" "w_fs w' = w_fs w" for e w'
    by (rule E [OF that(1)]) (simp_all add: that(2))
  show ?thesis
  proof (cases "validate_deployment_bundle bundle")
    case (Inl e)
    with assms(1) show ?thesis by (simp add: deploy_def wp_bind wp_lift verify_def same)
  next
    case (Inr x)
    then have valid: "validate_deployment_bundle bundle = Inr ()" by simp
    note unit = validate_bundle_Inr(2) [OF valid]
    note plain = derived_unit_plain [OF unit]
    note M = quadlet_name_not_lock [OF unit, of ?uid]
    show ?thesis
      unfolding deploy_def option.case wp_bind [of "lift_io _"]
        wp_lift verify_def valid sum.case wp_bind [of "resolve_uid _ _ _"]
    proof (rule wp_still [OF still.keeps_resolve_uid assms(1)], goal_cases)
      case (1 target w1)
      note w1 = 1
      show ?case
      proof (cases "expected_install ?layout (qi_policy installer) ?uid ?q")
        case (Inl e)
        with w1 same show ?thesis by (simp add: wp_bind wp_lift)
      next
        case (Inr inst)
        have iu: "iq_systemd_unit inst = bu_service_name bundle @ ''.service''"
          using expected_install_Inr(5) [OF Inr] unit by simp
        let ?M = "lock_names ?uid (bu_service_name bundle @ ''.service'')"
        have M': "name \<notin> ?M" "?M \<subseteq> deploy_names w bundle"
          using M unfolding lock_names_eq [OF plain] by (auto simp: deploy_names_def name_def)
        show ?thesis
          unfolding wp_bind [of "lift_io _"] wp_lift Inr sum.case Let_def iu
            wp_bind [of "case_option _ _ _"] if_not_P [OF assms(3)]
        proof (rule wp_still, goal_cases)
          case 1
          show ?case
            by (auto intro!: still.composed still.keeps_open_staged_image_archive split: option.split)
        next
          case 2
          show ?case using w1 evolves_calm by blast
        next
          case (3 archive w2)
          note e2 = evolves_trans [OF w1(1) 3(1)]
          have fs: "w_fs w2 = w_fs w" using 3(2) w1(2) by simp
          have r2: "ready w2 ?layout ?uid a u"
            by (rule ready_frame [OF assms(2) e2]) (use assms(2) fs in \<open>simp add: ready_def frame_refl\<close>)
          note lead = ready_leads(1) [OF r2]
          show ?case
            unfolding wp_bind [of "lock_deployment _ _ _"]
          proof (rule wp_lock_deployment [OF evolves_calm [OF e2] _ lead], goal_cases)
            case 1
            show ?case using r2 by (simp add: ready_def)
          next
            case (2 e w3)
            note g = growsD(1,2) [OF 2]
            show ?case
              using evolves_trans [OF e2 g(1)] others_kept_extends [OF g(2) _ M'(2), of u]
                extends_lookup(2) [OF g(2) _ M'(1), of u] u
              by (intro E) (auto simp: fs)
          next
            case (3 fd w3)
            note g = growsD(1,2) [OF 3]
            show ?case
              by (rule wp_deploy_held [OF assms(1,2) _ _ M' [unfolded name_def] Q E])
                (use evolves_trans [OF e2 g(1)] g(2) fs in \<open>auto simp: name_def c_def\<close>)
          qed
        next
          case (4 e w2)
          then show ?case using evolves_trans [OF w1(1) 4(1)] w1(2) by (intro same) auto
        qed
      qed
    next
      case (2 e w1)
      then show ?case by (rule same)
    qed
  qed
qed

end

section \<open>The outcome of a deployment\<close>

text \<open>
  C1: The outcome of a deployment, with any controller that keeps the contract, whatever calls and
  processes fail. When \<open>deploy\<close> succeeds, the new Quadlet is in place and, if a restart was asked
  for, the unit is loaded and active. When it fails for any reason, the file is as it was before
  (rolled back if need be); the new contents can stay only if a call on the file system failed
  as well. Nothing else in the directory changes but temporary files and the lock, and no
  existing file is written over.
\<close>

theorem deploy_outcome:
  assumes "user_systemd ctl" "calm w" "ready w (qi_layout installer) (bu_target_uid bundle) a u"
    "\<not> do_dry_run options" "deploy installer (Some ctl) options bundle w = (r, w')"
  defines "name \<equiv> qf_file_name (bu_quadlet bundle)" and "contents \<equiv> qf_contents (bu_quadlet bundle)"
  shows "(\<forall>res. r = Inr res \<longrightarrow> file_text (w_fs w') u name = Some contents \<and>
      service_unit_name_from_quadlet name = Inr (dr_systemd_unit res) \<and>
      (do_restart_unit options \<longrightarrow> (\<exists>st. dr_status res = Some st \<and> us_unit st = dr_systemd_unit res \<and>
         us_load_state st = ''loaded'' \<and> us_active_state st = ''active''))) \<and>
    (\<forall>e. r = Inl e \<longrightarrow> file_text (w_fs w') u name = file_text (w_fs w) u name \<or>
      \<not> faultless w \<and> file_text (w_fs w') u name = Some contents) \<and>
    others_kept u (deploy_names w bundle) (w_fs w) (w_fs w')"
proof -
  have "wp (deploy installer (Some ctl) options bundle)
      (\<lambda>res w'. others_kept u (deploy_names w bundle) (w_fs w) (w_fs w') \<and> file_text (w_fs w') u name = Some contents \<and>
        service_unit_name_from_quadlet name = Inr (dr_systemd_unit res) \<and>
        (do_restart_unit options \<longrightarrow> (\<exists>st. dr_status res = Some st \<and> us_unit st = dr_systemd_unit res \<and>
           deployed_status_is_healthy st)))
      (\<lambda>e w'. others_kept u (deploy_names w bundle) (w_fs w) (w_fs w') \<and>
        (file_text (w_fs w') u name = file_text (w_fs w) u name \<or>
         \<not> faultless w \<and> file_text (w_fs w') u name = Some contents)) w"
    unfolding name_def contents_def
    by (rule user_systemd.wp_deploy [OF assms(1-4)]) (auto simp: expected_install_Inr(5))
  note this [THEN wp_Inr] this [THEN wp_Inl]
  with assms(5) show ?thesis by (cases r) (auto simp: deployed_status_is_healthy_def)
qed

definition sample_deploy_world :: "event list \<Rightarrow> proc_reply list \<Rightarrow> world" where
  "sample_deploy_world s ps = (sample_world s)\<lparr>w_procs := ps,
     w_getpwuid := (\<lambda>u. (0, Some \<lparr>pw_uid = u, pw_name = ''alice''\<rparr>))\<rparr>"

definition sample_installer :: quadlet_installer where
  "sample_installer = \<lparr>qi_layout = sample_layout, qi_policy = default_policy\<rparr>"

definition sample_bundle :: deployment_bundle where
  "sample_bundle = \<lparr>bu_target_uid = 1000, bu_service_name = ''demo'', bu_image_archive = None,
     bu_quadlet = sample_quadlet, bu_revision = ''1''\<rparr>"

lemma ready_update [simp]:
  "ready (w\<lparr>w_procs := ps\<rparr>) layout uid a u = ready w layout uid a u"
  "ready (w\<lparr>w_getpwuid := f\<rparr>) layout uid a u = ready w layout uid a u"
  by (simp_all add: ready_def anchored_walks start_of_def)

lemma sample_deploy_ready:
  "ready (sample_deploy_world s ps) (qi_layout sample_installer) (bu_target_uid sample_bundle) 2 3"
  using sample_ready by (simp add: sample_deploy_world_def sample_installer_def sample_bundle_def)

lemma sample_deploy_calm: "calm (sample_deploy_world [] ps)"
  by (simp add: sample_deploy_world_def sample_world_def calm_def calm_sched_def)

text \<open>The unit does not come up: the program \<open>systemctl show\<close> reports no state.\<close>

definition sample_failing :: "proc_reply list" where
  "sample_failing = [sample_proc 0 [], sample_proc 0 [], sample_proc 0 [''LoadState=loaded'']]"

theorem deploy_outcome_witness:
  "let w = sample_deploy_world [] sample_failing;
       (r, w') = deploy sample_installer (Some (systemctl_controller False)) default_deployment_options sample_bundle w
   in file_text (w_fs w) 3 ''demo.container'' = Some ''old'' \<and>
      (case r of Inl e \<Rightarrow> file_text (w_fs w') 3 ''demo.container'' = Some ''old''
       | Inr res \<Rightarrow> file_text (w_fs w') 3 ''demo.container'' = Some (qf_contents sample_quadlet)
           \<and> dr_systemd_unit res = ''demo.service'')"
proof -
  let ?w = "sample_deploy_world [] sample_failing"
  let ?r = "deploy sample_installer (Some (systemctl_controller False)) default_deployment_options sample_bundle ?w"
  have old: "file_text (w_fs ?w) 3 ''demo.container'' = Some ''old''" by code_simp
  have n: "qf_file_name sample_quadlet = ''demo.container''" "bu_quadlet sample_bundle = sample_quadlet"
    by (simp_all add: sample_bundle_def sample_quadlet_def quadlet_of_def)
  have unit: "service_unit_name_from_quadlet ''demo.container'' = Inr ''demo.service''" by code_simp
  have e: "?r = (fst ?r, snd ?r)" by simp
  have live: "\<not> do_dry_run default_deployment_options" by (simp add: default_deployment_options_def)
  have fine: "faultless ?w" by (simp add: sample_deploy_world_def sample_world_def faultless_def)
  from deploy_outcome [OF systemctl.user_systemd_axioms sample_deploy_calm sample_deploy_ready live e]
  show ?thesis
    unfolding Let_def case_prod_beta n old unit using fine by (cases "fst ?r") simp_all
qed

text \<open>
  An installation that fails is not rolled back: whatever \<open>install_for_user\<close> has left behind when it
  returns an error stays, and neither the old Quadlet is restored nor systemd told to reload. In
  the witness the synchronisation of the directory fails after the new file was put in place.
\<close>

theorem failed_install_not_rolled_back:
  assumes "snapshot_for_user (qi_layout installer) (bu_target_uid bundle) (qf_file_name (bu_quadlet bundle)) w = (Inr snap, w1)"
    "install_for_user (qi_layout installer) (qi_policy installer) (bu_target_uid bundle) (bu_quadlet bundle) w1 = (Inl e, w2)"
  shows "deploy_quadlet installer systemd options bundle target result w = (Inl e, w2)"
  using assms by (simp add: deploy_quadlet_def bind_io_def)

definition late_failure :: "event list" where
  "late_failure = replicate 27 quiet_event @ [\<lparr>ev_fault = Some 5, ev_count = None, ev_env = (\<lambda>fs. fs)\<rparr>]"

theorem failed_install_not_rolled_back_witness:
  "\<exists>e w'. deploy_quadlet sample_installer (systemctl_controller False) default_deployment_options sample_bundle
      sample_target \<lparr>dr_installed_quadlet_path = [], dr_systemd_unit = [], dr_job_path = None, dr_status = None,
        dr_status_error = None, dr_dry_run = False, dr_rolled_back = False\<rparr> (sample_deploy_world late_failure [])
      = (Inl e, w')
    \<and> file_text sample_fs 3 ''demo.container'' = Some ''old''
    \<and> file_text (w_fs w') 3 ''demo.container'' = Some (qf_contents sample_quadlet)"
proof -
  let ?s = "snapshot_for_user (qi_layout sample_installer) (bu_target_uid sample_bundle)
     (qf_file_name (bu_quadlet sample_bundle)) (sample_deploy_world late_failure [])"
  let ?i = "install_for_user (qi_layout sample_installer) (qi_policy sample_installer) (bu_target_uid sample_bundle)
     (bu_quadlet sample_bundle)"
  have "case ?s of (r, w1) \<Rightarrow> \<not> isl r \<and> (case ?i w1 of (r', w2) \<Rightarrow>
      isl r' \<and> file_text (w_fs w2) 3 ''demo.container'' = Some (qf_contents sample_quadlet))" by code_simp
  then obtain snap w1 e w2 where "?s = (Inr snap, w1)" "?i w1 = (Inl e, w2)"
      "file_text (w_fs w2) 3 ''demo.container'' = Some (qf_contents sample_quadlet)"
    unfolding case_prod_beta by (metis eq_of_fst sum.collapse)
  moreover have "file_text sample_fs 3 ''demo.container'' = Some ''old''" by code_simp
  ultimately show ?thesis using failed_install_not_rolled_back by blast
qed

section \<open>What is refused\<close>

definition acceptable :: "deployment_bundle \<Rightarrow> bool" where
  "acceptable b \<longleftrightarrow> bu_target_uid b \<noteq> 0 \<and> quadlet_stem (bu_service_name b) \<and>
     qf_file_name (bu_quadlet b) = bu_service_name b @ ''.container'' \<and>
     (\<forall>archive. bu_image_archive b = Some archive \<longrightarrow> ia_path archive \<noteq> [])"

text \<open>
  C39: A bundle is refused, before anything is read or written, unless it is for another user than
  root, its service has the name of its Quadlet file, and an archive it names has a path.
\<close>

theorem refused_without_effect:
  "(validate_deployment_bundle b = Inr () \<longleftrightarrow> acceptable b) \<and>
   (\<not> acceptable b \<longrightarrow> (\<exists>e. deploy installer (Some ctl) options b w = (Inl e, w)))"
proof -
  have unit: "service_unit_name_from_quadlet f = Inr (name @ ''.service'') \<longleftrightarrow>
      quadlet_stem name \<and> f = name @ ''.container''" for f name
    using service_unit_name_Inr service_unit_name_stem by (metis append_same_eq)
  have v: "validate_deployment_bundle b = Inr () \<longleftrightarrow> acceptable b"
    unfolding validate_deployment_bundle_def acceptable_def result_simps
    using unit [of "qf_file_name (bu_quadlet b)" "bu_service_name b"]
    by (auto simp: quadlet_stem_def result_simps split: option.splits)
  moreover have "\<exists>e. deploy installer (Some ctl) options b w = (Inl e, w)" if "validate_deployment_bundle b = Inl e" for e
    using that by (simp add: deploy_def bind_io_def lift_io_def verify_def)
  ultimately show ?thesis by (cases "validate_deployment_bundle b") auto
qed

theorem refused_without_effect_witness:
  "\<exists>e. deploy sample_installer (Some (systemctl_controller False)) default_deployment_options
      (sample_bundle\<lparr>bu_target_uid := 0\<rparr>) (sample_world []) = (Inl e, sample_world [])"
  using refused_without_effect [of "sample_bundle\<lparr>bu_target_uid := 0\<rparr>"] by (simp add: acceptable_def)

end
