(* ===== verification/Deployment_Order.thy ===== *)
theory Deployment_Order
  imports Deployment_Properties
begin

text \<open>
  The order of the effects of \<open>deploy\<close>, for every schedule and every interference: the lock is
  taken before the Quadlet is touched and released at the end, and a dry run has no effects.
  Deployments that run at the same time then exclude each other.
\<close>

section \<open>Pieces that keep a relation\<close>

lemma wp_keeps_bind:
  assumes "keeps R m" "\<And>x w'. R w w' \<Longrightarrow> wp (f x) Q E w'" "\<And>e w'. R w w' \<Longrightarrow> E e w'"
  shows "wp (bind_io m f) Q E w"
  unfolding wp_bind by (rule wp_cong_mono [OF keeps_wp [OF assms(1)]]) (use assms(2,3) in auto)

abbreviation same_log :: "world \<Rightarrow> world \<Rightarrow> bool" where
  "same_log w w' \<equiv> w_log w' = w_log w"

context user_systemd
begin

lemma keeps_controller:
  assumes "\<And>w w'. talks w w' \<Longrightarrow> R w w'"
  shows "keeps R (sc_daemon_reload ctl target)" "keeps R (sc_restart_unit ctl target unit)"
    "keeps R (sc_status ctl target unit)"
  using assms by (auto intro!: wp_keeps wp_reload wp_restart wp_status)

lemma keeps_rollback: "keeps (logs lock_free) (rollback_error installer ctl target uid snap unit again original)"
  unfolding rollback_error_def Let_def fail_more_def
  by (intro lock_free.composed lock_free.keeps_restore keeps_controller talks_lock_free)

lemma keeps_deploy_quadlet: "keeps (logs lock_free) (deploy_quadlet installer ctl options bundle target result)"
  unfolding deploy_quadlet_def Let_def
  by (intro lock_free.composed lock_free.keeps_snapshot lock_free.keeps_install keeps_rollback keeps_controller
      talks_lock_free)

end

section \<open>Taking the lock\<close>

lemma wp_flock_logs:
  assumes "\<And>w'. w_log w' = w_log w @ [Log_lock fd] \<Longrightarrow> Q fd w'" "\<And>e w'. same_log w w' \<Longrightarrow> E e w'"
  shows "wp (flock_loop name fd) Q E w"
  using assms
proof (induction name fd w rule: flock_loop.induct)
  case (1 name fd w)
  obtain ev w1 where n: "next_event w = (ev, w1)" by fastforce
  then have l: "same_log w w1" using next_event_rest(1) [of w] by simp
  show ?case
  proof (cases "fault_of ev")
    case None
    with n have "sys_flock fd w = (Inr (), w1\<lparr>w_log := w_log w1 @ [Log_lock fd]\<rparr>)"
      by (simp add: sys_flock_def syscall_def log_io_def)
    with "1.prems"(1) l show ?thesis by (simp add: wp_def flock_loop.simps [of name fd w])
  next
    case (Some e)
    with n have r: "sys_flock fd w = (Inl e, w1)" by (simp add: sys_flock_def syscall_def)
    show ?thesis
    proof (cases "e = EINTR")
      case True
      have "wp (flock_loop name fd) Q E w1"
        by (rule "1.IH" [OF r [symmetric] refl True]) (use "1.prems" l in auto)
      with r True show ?thesis by (simp add: wp_def flock_loop.simps [of name fd w])
    next
      case False
      with r "1.prems"(2) l show ?thesis
        by (simp add: wp_def flock_loop.simps [of name fd w] os_error_def)
    qed
  qed
qed

lemma wp_lock_logs:
  assumes "\<And>fd w'. w_log w' = w_log w @ [Log_lock fd] \<Longrightarrow> Q fd w'" "\<And>e w'. same_log w w' \<Longrightarrow> E e w'"
  shows "wp (lock_deployment layout uid unit) Q E w"
proof -
  have lock: "wp (flock_loop name fd) Q E w'" if "same_log w w'" for name fd w'
    by (rule wp_flock_logs) (use assms that in auto)
  show ?thesis
    unfolding lock_deployment_def Let_def validate_owner_if_required_def
    by ((rule wp_keeps_bind [where R = same_log], (intro same_log.changing)[1])+)
      (auto intro!: lock assms(2))
qed

section \<open>The critical section\<close>

text \<open>One lock is held over everything logged in between, or nothing is logged.\<close>

definition critical :: "log_entry list \<Rightarrow> bool" where
  "critical ls \<longleftrightarrow> ls = [] \<or>
     (\<exists>fd mid. ls = Log_lock fd # mid @ [Log_unlock fd] \<and> list_all lock_free mid)"

lemma critical_Nil [simp]: "critical []"
  by (simp add: critical_def)

lemma wp_holding_critical:
  assumes "keeps (logs lock_free) m" "w_log w1 = w_log w @ [Log_lock fd]"
  shows "wp (holding fd m) (\<lambda>_ w'. \<exists>ls. w_log w' = w_log w @ ls \<and> critical ls)
    (\<lambda>_ w'. \<exists>ls. w_log w' = w_log w @ ls \<and> critical ls) w1"
proof -
  have shape: "\<exists>ls. w_log w2 @ [Log_unlock fd] = w_log w @ ls \<and> critical ls" if only: "logs lock_free w1 w2" for w2
  proof -
    obtain mid where "w_log w2 = w_log w1 @ mid" "list_all lock_free mid" using only unfolding logs_def by blast
    with assms(2) show ?thesis
      unfolding critical_def by (intro exI [of _ "Log_lock fd # mid @ [Log_unlock fd]"]) auto
  qed
  show ?thesis
    unfolding holding_def wp_either wp_bind release_lock_def wp_log wp_fail wp_return
    by (rule wp_cong_mono [OF keeps_wp [OF assms(1)]]) (use shape in auto)
qed

context user_systemd
begin

lemma wp_deploy_critical:
  "wp (deploy installer (Some ctl) options bundle) (\<lambda>_ w'. \<exists>ls. w_log w' = w_log w @ ls \<and> critical ls)
    (\<lambda>_ w'. \<exists>ls. w_log w' = w_log w @ ls \<and> critical ls) w"
proof -
  let ?R = "\<lambda>w'. \<exists>ls. w_log w' = w_log w @ ls \<and> critical ls"
  have quiet: "?R w'" if "same_log w w'" for w'
    using that by auto
  have held: "wp (holding fd (bind_io (load_archive options bundle target archive)
      (\<lambda>_. deploy_quadlet installer ctl options bundle target result))) (\<lambda>_. ?R) (\<lambda>_. ?R) w1"
    if "w_log w1 = w_log w @ [Log_lock fd]" for fd target archive result w1
    by (rule wp_holding_critical [OF _ that])
      (intro lock_free.composed lock_free.keeps_load_archive keeps_deploy_quadlet)
  show ?thesis
    unfolding deploy_def option.case Let_def
    by ((rule wp_keeps_bind [where R = same_log],
          (intro same_log.changing same_log.keeps_resolve_uid same_log.keeps_open_staged_image_archive)[1])+)
      (auto simp: wp_if wp_return wp_bind intro!: quiet wp_lock_logs held)
qed

end


text \<open>
  C11: What a deployment does to files, processes and connections lies in one critical section: the
  log of \<open>deploy\<close> is empty, or it begins with taking a lock and ends with releasing that lock,
  with no other lock entry in between. This holds on every path, errors included, for every
  schedule and whatever other processes do meanwhile.
\<close>

theorem deploy_critical_section:
  assumes "user_systemd ctl" "deploy installer (Some ctl) options b w = (r, w')"
  shows "\<exists>ls. w_log w' = w_log w @ ls \<and> (ls = [] \<or>
    (\<exists>fd mid. ls = Log_lock fd # mid @ [Log_unlock fd] \<and>
       (\<forall>l \<in> set mid. l \<notin> range Log_lock \<union> range Log_unlock)))"
proof -
  note run = user_systemd.wp_deploy_critical [OF assms(1), of installer options b w]
  show ?thesis
    using wp_Inr [OF run] wp_Inl [OF run] assms(2)
    by (cases r) (fastforce simp: critical_def list_all_iff)+
qed

theorem deploy_critical_section_witness:
  "\<exists>ls. w_log (snd (deploy sample_installer (Some (systemctl_controller False)) default_deployment_options sample_bundle
      (sample_deploy_world late_failure []))) = ls \<and> (ls = [] \<or> (\<exists>fd mid. ls = Log_lock fd # mid @ [Log_unlock fd]))"
proof -
  have "w_log (sample_deploy_world late_failure []) = []" by (simp add: sample_deploy_world_def sample_world_def)
  with deploy_critical_section [OF systemctl.user_systemd_axioms prod.collapse [symmetric]] show ?thesis
    by (metis append_Nil)
qed

lemma wp_dry_run:
  assumes "do_dry_run options"
  shows "wp (deploy installer ctl options b)
      (\<lambda>res w'. silent w w' \<and> dr_dry_run res \<and> dr_status res = None \<and> dr_systemd_unit res = bu_service_name b @ ''.service'')
      (\<lambda>e w'. silent w w') w"
proof -
  have names: "iq_systemd_unit inst = bu_service_name b @ ''.service''"
    if "validate_deployment_bundle b = Inr ()"
      "expected_install (qi_layout installer) (qi_policy installer) (bu_target_uid b) (bu_quadlet b) = Inr inst" for inst
    using validate_bundle_Inr(2) [OF that(1)] expected_install_Inr(5) [OF that(2)] by simp
  show ?thesis
  proof (cases ctl)
    case None
    then show ?thesis by (simp add: deploy_def wp_fail silent.refl)
  next
    case (Some c)
    show ?thesis
    proof (cases "validate_deployment_bundle b")
      case (Inl e)
      then show ?thesis by (simp add: Some deploy_def wp_bind wp_lift verify_def silent.refl)
    next
      case (Inr x)
      then have valid: "validate_deployment_bundle b = Inr ()" by simp
      have tail: "wp (bind_io (case bu_image_archive b of None \<Rightarrow> return_io None
            | Some archive \<Rightarrow> if do_load_image_archive options
                then bind_io (open_staged_image_archive archive options) (\<lambda>opened. return_io (Some opened))
                else return_io None)
          (\<lambda>archive. return_io res))
          (\<lambda>res w'. silent w w' \<and> P res) (\<lambda>e w'. silent w w') w1"
        if "silent w w1" "P res" for res w1 and P :: "deployment_result \<Rightarrow> bool"
        by (rule wp_keeps_bind [where R = silent])
          (use assms that silent.trans [OF that(1)] in
            \<open>auto intro!: silent.composed silent.keeps_open_staged_image_archive simp: wp_return\<close>)
      show ?thesis
        unfolding Some deploy_def option.case Let_def wp_bind [of "lift_io _"] wp_lift verify_def valid sum.case
      proof (rule wp_keeps_bind [OF silent.keeps_resolve_uid], goal_cases)
        case (1 target w1)
        then show ?case
          by (cases "expected_install (qi_layout installer) (qi_policy installer) (bu_target_uid b) (bu_quadlet b)")
            (auto simp: wp_bind [of "lift_io _"] wp_lift assms names [OF valid] intro!: tail)
      qed
    qed
  qed
qed

lemma silent_dry_run: "do_dry_run options \<Longrightarrow> keeps silent (deploy installer ctl options b)"
  by (rule wp_keeps, rule wp_cong_mono [OF wp_dry_run]) auto

text \<open>
  C13: A dry run has no effects: it reads, and returns what would be installed and started. Nothing is
  logged, no reply of Podman or \<open>systemctl\<close> is used up and, undisturbed, no file changes. This
  holds for any controller, without assuming its contract.
\<close>

theorem dry_run_is_silent:
  assumes "do_dry_run options" "deploy installer ctl options b w = (r, w')"
  shows "w_log w' = w_log w \<and> w_http w' = w_http w \<and> w_procs w' = w_procs w \<and>
    (calm w \<longrightarrow> w_fs w' = w_fs w) \<and>
    (\<forall>res. r = Inr res \<longrightarrow> dr_dry_run res \<and> dr_status res = None \<and>
       dr_systemd_unit res = bu_service_name b @ ''.service'')"
proof -
  note wp_dry_run [OF assms(1), of installer ctl b w, THEN wp_Inr] wp_dry_run [OF assms(1), of installer ctl b w, THEN wp_Inl]
  with assms(2) show ?thesis by (cases r) (auto simp: silent_def still_def)
qed

theorem dry_run_is_silent_witness:
  "let w = sample_deploy_world [] sample_failing;
       (r, w') = deploy sample_installer None (default_deployment_options\<lparr>do_dry_run := True\<rparr>) sample_bundle w
   in w_procs w' = sample_failing \<and> w_fs w' = sample_fs"
proof -
  let ?w = "sample_deploy_world [] sample_failing"
  have "w_procs ?w = sample_failing" "w_fs ?w = sample_fs" by (simp_all add: sample_deploy_world_def sample_world_def)
  with dry_run_is_silent [OF _ prod.collapse [symmetric], of "default_deployment_options\<lparr>do_dry_run := True\<rparr>"
      sample_installer None sample_bundle ?w] sample_deploy_calm
  show ?thesis by (simp add: Let_def case_prod_beta)
qed

section \<open>Deployments that run at the same time\<close>

lemma upto_dash:
  "CHR ''-'' \<notin> set s \<Longrightarrow> takeWhile (\<lambda>c. c \<noteq> CHR ''-'') (s @ CHR ''-'' # t) = s"
  "CHR ''-'' \<notin> set s \<Longrightarrow> dropWhile (\<lambda>c. c \<noteq> CHR ''-'') (s @ CHR ''-'' # t) = CHR ''-'' # t"
  by (induction s) auto

text \<open>
  Different targets or units have different locks: the name of the lock determines both.
\<close>

theorem lock_name_injective:
  "lock_name uid unit = lock_name uid' unit' \<longleftrightarrow> uid = uid' \<and> unit = unit'"
proof
  have digits: "CHR ''-'' \<notin> set (show_nat n)" for n
    using show_nat_digits [of "CHR ''-''" n] by (auto simp: ctype_defs)
  have parts: "takeWhile (\<lambda>c. c \<noteq> CHR ''-'') (lock_name uid unit) = show_nat (unat uid)"
      "dropWhile (\<lambda>c. c \<noteq> CHR ''-'') (lock_name uid unit) = ''-'' @ unit @ ''.lock''" for uid unit
    unfolding lock_name_def using digits by (simp_all add: upto_dash)
  assume e: "lock_name uid unit = lock_name uid' unit'"
  have "show_nat (unat uid) = show_nat (unat uid')"
    using parts(1) [of uid unit] parts(1) [of uid' unit'] e by simp
  moreover have "''-'' @ unit @ ''.lock'' = ''-'' @ unit' @ ''.lock''"
    using parts(2) [of uid unit] parts(2) [of uid' unit'] e by simp
  ultimately show "uid = uid' \<and> unit = unit'" by (simp add: word_unat_eq_iff)
qed simp

text \<open>
  Processes that share a kernel. Each has a list of the entries it is still going to log; an
  exclusive \<open>flock\<close> is granted when nobody holds the lock.
\<close>

record lock_state =
  holder :: "ino \<Rightarrow> nat option"
  todo :: "nat \<Rightarrow> log_entry list"

inductive lock_step :: "lock_state \<Rightarrow> nat \<times> log_entry \<Rightarrow> lock_state \<Rightarrow> bool" where
  acquire: "todo s p = Log_lock fd # ls \<Longrightarrow> holder s fd = None \<Longrightarrow>
    lock_step s (p, Log_lock fd) (s\<lparr>holder := (holder s)(fd \<mapsto> p), todo := (todo s)(p := ls)\<rparr>)"
| release: "todo s p = Log_unlock fd # ls \<Longrightarrow>
    lock_step s (p, Log_unlock fd)
      (s\<lparr>holder := (if holder s fd = Some p then (holder s)(fd := None) else holder s), todo := (todo s)(p := ls)\<rparr>)"
| effect: "todo s p = l # ls \<Longrightarrow> lock_free l \<Longrightarrow> lock_step s (p, l) (s\<lparr>todo := (todo s)(p := ls)\<rparr>)"

inductive interleaving :: "lock_state \<Rightarrow> (nat \<times> log_entry) list \<Rightarrow> lock_state \<Rightarrow> bool" where
  start: "interleaving s [] s"
| step: "interleaving s tr s' \<Longrightarrow> lock_step s' l s'' \<Longrightarrow> interleaving s (tr @ [l]) s''"

text \<open>What is left to do between taking and releasing the lock \<open>fd\<close>.\<close>

definition inside :: "log_entry list \<Rightarrow> ino \<Rightarrow> bool" where
  "inside ls fd \<longleftrightarrow> (\<exists>mid. ls = mid @ [Log_unlock fd] \<and> list_all lock_free mid)"

definition lock_invariant :: "lock_state \<Rightarrow> bool" where
  "lock_invariant s \<longleftrightarrow>
     (\<forall>p. (critical (todo s p) \<or> (\<exists>fd. inside (todo s p) fd)) \<and>
        (\<forall>fd. inside (todo s p) fd \<longrightarrow> holder s fd = Some p))"

text \<open>What a run of \<open>deploy\<close> logs.\<close>

definition deployment_log :: "log_entry list \<Rightarrow> bool" where
  "deployment_log ls \<longleftrightarrow> (\<exists>ctl installer options b w. user_systemd ctl \<and>
     w_log (snd (deploy installer (Some ctl) options b w)) = w_log w @ ls)"

lemma deployment_log_critical: "deployment_log ls \<Longrightarrow> critical ls"
proof -
  assume "deployment_log ls"
  then obtain ctl installer options b w where d: "user_systemd ctl"
      "w_log (snd (deploy installer (Some ctl) options b w)) = w_log w @ ls" by (auto simp: deployment_log_def)
  obtain r w' where out: "deploy installer (Some ctl) options b w = (r, w')" by fastforce
  note run = user_systemd.wp_deploy_critical [OF d(1), of installer options b w]
  from d(2) wp_Inr [OF run] wp_Inl [OF run] out show ?thesis by (cases r) auto
qed

lemma critical_Cons:
  "critical (l # ls) \<longleftrightarrow> (\<exists>fd. l = Log_lock fd \<and> inside ls fd)"
  by (auto simp: critical_def inside_def)

lemma inside_Cons:
  "inside (l # ls) fd \<longleftrightarrow> l = Log_unlock fd \<and> ls = [] \<or> lock_free l \<and> inside ls fd"
  by (auto simp: inside_def Cons_eq_append_conv)

lemma inside_unique: "inside ls fd \<Longrightarrow> inside ls fd' \<Longrightarrow> fd' = fd"
  by (auto simp: inside_def)

lemma lock_invariant_step:
  assumes "lock_invariant s" "critical ls \<or> (\<exists>fd. inside ls fd)" "\<And>fd. inside ls fd \<Longrightarrow> h fd = Some p"
    "\<And>q fd. q \<noteq> p \<Longrightarrow> holder s fd = Some q \<Longrightarrow> h fd = Some q"
  shows "lock_invariant (s\<lparr>holder := h, todo := (todo s)(p := ls)\<rparr>)"
  using assms unfolding lock_invariant_def by auto

lemma lock_step_invariant:
  assumes "lock_step s pl s'" "lock_invariant s"
  shows "lock_invariant s'"
proof -
  have at: "critical (todo s p) \<or> (\<exists>fd. inside (todo s p) fd)"
    and held: "inside (todo s p) fd \<Longrightarrow> holder s fd = Some p" for p fd
    using assms(2) by (auto simp: lock_invariant_def)
  from assms(1) show ?thesis
  proof cases
    case (acquire p fd ls)
    then have i: "inside ls fd" using at [of p] by (auto simp: critical_Cons inside_Cons)
    have only: "((holder s)(fd \<mapsto> p)) fd' = Some p" if "inside ls fd'" for fd'
      using inside_unique [OF i that] by simp
    show ?thesis
      unfolding acquire(2)
      by (rule lock_invariant_step [OF assms(2) _ only]) (use i acquire(4) in auto)
  next
    case (release p fd ls)
    then have l: "ls = []" "holder s fd = Some p"
      using at [of p] held [of p fd] by (auto simp: critical_Cons inside_Cons)
    show ?thesis
      unfolding release(2)
      by (rule lock_invariant_step [OF assms(2)]) (use l in \<open>auto simp: inside_def\<close>)
  next
    case (effect p l ls)
    then obtain fd where i: "inside ls fd" "holder s fd = Some p"
      using at [of p] held [of p] by (auto simp: critical_Cons inside_Cons)
    have only: "holder s fd' = Some p" if "inside ls fd'" for fd'
      using inside_unique [OF i(1) that] i(2) by simp
    have "lock_invariant (s\<lparr>holder := holder s, todo := (todo s)(p := ls)\<rparr>)"
      by (rule lock_invariant_step [OF assms(2) _ only]) (use i(1) in auto)
    then show ?thesis unfolding effect(2) by simp
  qed
qed

text \<open>
  C4: Deployments exclude each other: let any number of processes run \<open>deploy\<close> at the same time, with
  their effects interleaved in any order the exclusive lock allows. Then never are two of them
  inside their critical sections with the same lock; in particular not two deployments of one
  unit of one user.
\<close>

theorem deployments_exclude_each_other:
  assumes "\<And>p. deployment_log (todo s0 p)" "interleaving s0 trace s"
    "inside (todo s p) fd" "inside (todo s q) fd"
  shows "p = q"
proof -
  have start: "lock_invariant s0"
  proof -
    have "\<not> inside ls fd" if "critical ls" for ls fd
      using that by (cases ls) (auto simp: critical_Cons inside_Cons, auto simp: inside_def)
    with deployment_log_critical [OF assms(1)] show ?thesis by (auto simp: lock_invariant_def)
  qed
  from assms(2) this have "lock_invariant s"
    by (induction rule: interleaving.induct) (auto intro: lock_step_invariant)
  then have "holder s fd = Some p" "holder s fd = Some q"
    using assms(3,4) unfolding lock_invariant_def by blast+
  then show ?thesis by simp
qed

text \<open>A deployment that fails at its first call after taking the lock.\<close>

definition tiny_world :: world where
  "tiny_world =
     \<lparr>w_fs = \<lparr>inodes =
        [1 \<mapsto> mk_inode (Dir [''q'' \<mapsto> 2]),
         2 \<mapsto> mk_inode (Dir [''1'' \<mapsto> 3, ''.locks'' \<mapsto> 4]),
         3 \<mapsto> mk_inode (Dir Map.empty),
         4 \<mapsto> mk_inode (Dir Map.empty)],
      next_ino = 5\<rparr>, w_root = 1, w_cwd = 1, w_euid = 0, w_egid = 0, w_umask = 0, w_pid = 7,
      w_sched = replicate 9 quiet_event @ [\<lparr>ev_fault = Some 5, ev_count = None, ev_env = (\<lambda>fs. fs)\<rparr>],
      w_strerror = (\<lambda>e. []), w_getpwuid = (\<lambda>u. (0, Some \<lparr>pw_uid = u, pw_name = ''a''\<rparr>)),
      w_getpwnam = (\<lambda>u. (0, None)), w_http = [], w_curl_strerror = (\<lambda>c. []), w_procs = [], w_log = []\<rparr>"

definition tiny_installer :: quadlet_installer where
  "tiny_installer = \<lparr>qi_layout = sample_layout\<lparr>required_owner_uid := None\<rparr>,
     qi_policy = default_policy\<lparr>require_managed_label := False\<rparr>\<rparr>"

definition tiny_bundle :: deployment_bundle where
  "tiny_bundle = \<lparr>bu_target_uid = 1, bu_service_name = ''a'', bu_image_archive = None,
     bu_quadlet = \<lparr>qf_file_name = ''a.container'', qf_contents = ''[Container]'' @ CHR 0x0A # ''Image=a''\<rparr>,
     bu_revision = []\<rparr>"

lemma tiny_log: "deployment_log [Log_lock 5, Log_unlock 5]"
proof -
  have "w_log (snd (deploy tiny_installer (Some (systemctl_controller False)) default_deployment_options tiny_bundle
      tiny_world)) = [Log_lock 5, Log_unlock 5]" by code_simp
  moreover have "w_log tiny_world = []" by (simp add: tiny_world_def)
  ultimately show ?thesis
    unfolding deployment_log_def using systemctl.user_systemd_axioms by (metis append_Nil)
qed

text \<open>Two of them; the first has taken the lock.\<close>

theorem deployments_exclude_each_other_witness:
  "let ls = [Log_lock 5, Log_unlock 5];
       s = \<lparr>holder = [5 \<mapsto> 0], todo = (\<lambda>p. ls)(0 := [Log_unlock 5])\<rparr>
   in interleaving \<lparr>holder = Map.empty, todo = (\<lambda>p. ls)\<rparr> [(0, Log_lock 5)] s \<and> inside (todo s 0) 5
      \<and> \<not> inside (todo s 1) 5"
proof -
  let ?ls = "[Log_lock 5, Log_unlock 5]"
  let ?before = "\<lparr>holder = Map.empty, todo = (\<lambda>p. ?ls)\<rparr>"
  let ?after = "\<lparr>holder = [5 \<mapsto> 0], todo = (\<lambda>p. ?ls)(0 := [Log_unlock 5])\<rparr>"
  have taken: "lock_step ?before (0, Log_lock 5) ?after"
    using lock_step.acquire [of ?before 0 5 "[Log_unlock 5]"] by simp
  then have run: "interleaving ?before [(0, Log_lock 5)] ?after"
    using interleaving.step [OF interleaving.start taken] by simp
  have i: "inside (todo ?after 0) 5" by (simp add: inside_def)
  have "deployment_log (todo ?before p)" for p by (simp add: tiny_log)
  with deployments_exclude_each_other [OF _ run i, of 1] have "\<not> inside (todo ?after 1) 5" by auto
  with run i show ?thesis by (simp add: Let_def)
qed

end
