(* ===== verification/Deployment_Success.thy ===== *)
theory Deployment_Success
  imports Deployment_Properties
begin

text \<open>
  When a deployment succeeds: what has to be in place for the lock, the snapshot and the
  installation, what the processes have to do, and that this is enough.
\<close>

section \<open>Calls that do not fail\<close>

lemma wp_openat_directory:
  assumes "calm w" "plain_name n" "CHR 0x00 \<notin> set n" "length n \<le> 255"
    and i: "entry (w_fs w) d n = Some i" "is_dir (w_fs w) i"
    and E: "\<And>e w'. idle w w' \<Longrightarrow> \<not> faultless w \<Longrightarrow> E e w'"
    and Q: "\<And>w'. idle w w' \<Longrightarrow> Q i w'"
  shows "wp (sys_openat directory_flags d n mode) Q E w"
proof -
  obtain es where n: "node_at (w_fs w) i = Some (Dir es)" using i(2) by (auto simp: is_dir_node)
  have r: "resolve w d n False = Inr i"
    by (rule resolve_entry [OF _ _ _ n]) (use assms(2-4) i(1) in simp_all)
  have o: "open_existing directory_flags (w_fs w) i = Inr i"
    using n by (auto simp: open_existing_def directory_flags_def node_at_def)
  show ?thesis
    by (rule wp_openat_found [OF assms(1) _ _ r o]) (simp_all add: directory_flags_def E Q)
qed

lemma wp_open_lock:
  assumes "calm w" "plain_name n" "CHR 0x00 \<notin> set n" "length n \<le> 255" "is_dir (w_fs w) d"
    and "\<And>i. entry (w_fs w) d n = Some i \<Longrightarrow> \<exists>s. node_at (w_fs w) i = Some (Reg s)"
  shows "wp (sys_openat lock_flags d n mode) (\<lambda>_ _. True) (\<lambda>_ _. \<not> faultless w) w"
  unfolding sys_openat_def
proof (rule wp_syscall [OF assms(1)], goal_cases)
  case (2 e w')
  obtain es where es: "dir_entries (w_fs w) d = Some es" using assms(5) by (auto simp: is_dir_def)
  show ?case
  proof (cases "es n")
    case None
    with 2 es assms(2-4) show ?thesis
      by (simp add: wp_def lock_flags_def Let_def idleD(1) create_file_def)
  next
    case (Some i)
    then obtain s where "node_at (w_fs w) i = Some (Reg s)"
      using assms(6) es by (auto simp: entry_def)
    then obtain nd where "inodes (w_fs w) i = Some nd" "i_node nd = Reg s"
      by (auto simp: node_at_def)
    with 2 es Some assms(2-4) show ?thesis
      by (simp add: wp_def lock_flags_def Let_def idleD(1) open_existing_def)
  qed
qed simp

lemma wp_mkdirat_entry:
  assumes "calm w" "fs_wf (w_fs w)" "plain_name n" "CHR 0x00 \<notin> set n" "length n \<le> 255" "is_dir (w_fs w) d"
  shows "wp (sys_mkdirat d n mode)
    (\<lambda>_ w'. entry (w_fs w) d n = None \<and> (\<exists>i. entry (w_fs w') d n = Some i \<and> is_dir (w_fs w') i \<and>
        owners (w_fs w') i = Some (w_euid w, w_egid w) \<and> (\<forall>m. m \<notin> {''.'', ''..''} \<longrightarrow> entry (w_fs w') i m = None)))
    (\<lambda>e w'. if e = EEXIST then entry (w_fs w) d n \<noteq> None else \<not> faultless w) w"
  unfolding sys_mkdirat_def
proof (rule wp_syscall [OF assms(1)], goal_cases)
  case (2 e w')
  obtain es where es: "dir_entries (w_fs w) d = Some es" using assms(6) by (auto simp: is_dir_def)
  have d: "d \<noteq> next_ino (w_fs w)" using is_dir_less [OF assms(2,6)] by simp
  show ?case
  proof (cases "es n")
    case None
    with 2 es assms(3-5) d show ?thesis
      using evolvesD(3,4) [OF idleD(2) [OF 2]]
      by (simp add: wp_def Let_def idleD(1) create_file_def entry_def is_dir_def owners_def plain_name_def)
  next
    case (Some i)
    with 2 es assms(3-5) show ?thesis by (simp add: wp_def Let_def idleD(1) entry_def)
  qed
qed simp

section \<open>The lock can be taken\<close>

text \<open>Whether the directory \<open>.locks\<close> and the lock in it are what \<open>lock_deployment\<close> expects.\<close>

definition locks_ok :: "fs \<Rightarrow> quadlet_install_layout \<Rightarrow> ino \<Rightarrow> string \<Rightarrow> bool" where
  "locks_ok fs layout a name \<longleftrightarrow> (\<exists>d. entry fs a ''.locks'' = Some d \<and> is_dir fs d \<and> owner_ok fs layout d
     \<and> (\<forall>i. entry fs d name = Some i \<longrightarrow> (\<exists>s. node_at fs i = Some (Reg s))))"

definition lockable :: "world \<Rightarrow> quadlet_install_layout \<Rightarrow> ino \<Rightarrow> string \<Rightarrow> bool" where
  "lockable w layout a name \<longleftrightarrow> length name \<le> 255 \<and> owner_ok (w_fs w) layout a
     \<and> (if entry (w_fs w) a ''.locks'' = None
        then required_owner_uid layout \<in> {None, Some (w_euid w)} \<and> required_owner_gid layout \<in> {None, Some (w_egid w)}
        else locks_ok (w_fs w) layout a name)"

text \<open>From the opened lock on, \<open>E\<close> being impossible.\<close>

lemma wp_take_lock:
  assumes "calm w" "faultless w" "is_dir (w_fs w) d" "plain_name name" "CHR 0x00 \<notin> set name" "length name \<le> 255"
    and "\<And>i. entry (w_fs w) d name = Some i \<Longrightarrow> \<exists>s. node_at (w_fs w) i = Some (Reg s)"
    and "fs_wf (w_fs w)"
  shows "wp (bind_io (or_os_error (sys_openat lock_flags d name mode_0644) Filesystem msg)
      (\<lambda>lock_fd. flock_loop name lock_fd)) (\<lambda>_ _. True) (\<lambda>_ _. False) w"
  unfolding wp_bind wp_or_os_error
proof (rule wp_cong_mono [OF wp_conj [OF wp_open_lock [OF assms(1,4,5,6,3,7)]
      wp_openat_creat_grows [OF assms(1,8)]]], goal_cases)
  case (3 fd w1)
  then have e: "evolves w w1" by (simp add: grows_def)
  show ?case
    by (rule wp_flock_loop [OF evolves_calm [OF e]]) (use evolvesD(13) [OF e assms(2)] in auto)
qed (use assms(2) in \<open>auto simp: lock_flags_def\<close>)

lemma locks_plain: "plain_name ''.locks''" "CHR 0x00 \<notin> set ''.locks''" "length ''.locks'' \<le> 255"
  "last (path_names (c_str ''.locks'')) = ''.locks''"
  by (simp_all add: plain_name_def)

lemma wp_use_locks:
  assumes "calm w" "faultless w" "fs_wf (w_fs w)" "locks_ok (w_fs w) layout a name"
    and name: "plain_name name" "CHR 0x00 \<notin> set name" "length name \<le> 255"
  shows "wp (bind_io (or_os_error (sys_openat directory_flags a ''.locks'' 0) Filesystem msg) (\<lambda>d.
      bind_io (validate_owner_if_required d layout what) (\<lambda>_.
      bind_io (or_os_error (sys_fchmod d mode_0755) Filesystem msg2) (\<lambda>_.
      bind_io (or_os_error (sys_openat lock_flags d name mode_0644) Filesystem msg3)
        (\<lambda>lock_fd. flock_loop name lock_fd))))) (\<lambda>_ _. True) (\<lambda>_ _. False) w"
proof -
  obtain d where d: "entry (w_fs w) a ''.locks'' = Some d" "is_dir (w_fs w) d" "owner_ok (w_fs w) layout d"
      "\<And>i. entry (w_fs w) d name = Some i \<Longrightarrow> \<exists>s. node_at (w_fs w) i = Some (Reg s)"
    using assms(4) by (auto simp: locks_ok_def)
  show ?thesis
    unfolding wp_bind [of "or_os_error (sys_openat directory_flags _ _ _) _ _"]
      wp_or_os_error [of "sys_openat directory_flags _ _ _"]
  proof (rule wp_openat_directory [OF assms(1) locks_plain(1,2,3) d(1,2)], goal_cases)
    case (2 w1)
    note f1 = evolvesD(13) [OF idleD(2) [OF 2] assms(2)]
    show ?case
      unfolding wp_bind [of "validate_owner_if_required _ _ _"]
    proof (rule wp_validate_owner [OF idle_calm [OF 2]], goal_cases)
      case (2 w2)
      note i2 = idle_trans [OF \<open>idle w w1\<close> 2]
      show ?case
        unfolding wp_bind [of "or_os_error (sys_fchmod _ _) _ _"] wp_or_os_error [of "sys_fchmod _ _"]
      proof (rule wp_fchmod [OF idle_calm [OF 2]], goal_cases)
        case (2 w3)
        note i3 = idle_trans [OF i2 2]
        show ?case
          by (rule wp_take_lock)
            (use d idleD(1) [OF i2] idle_calm [OF 2] evolvesD(13) [OF idleD(2) [OF i3] assms(2)] name assms(3) in auto)
      qed (use evolvesD(13) [OF idleD(2) [OF i2] assms(2)] in simp)
    qed (use f1 d(3) idleD(1) [OF 2] in auto)
  qed (use assms(2) in simp)
qed

lemma wp_make_locks:
  assumes "calm w" "faultless w" "fs_wf (w_fs w)" "is_dir (w_fs w) a" "lockable w layout a name"
    "name \<notin> {''.'', ''..''}"
  shows "wp (either_io (sys_mkdirat a ''.locks'' mode_0755)
      (\<lambda>e. if e \<noteq> EEXIST then os_error Filesystem msg e else return_io ()) return_io)
    (\<lambda>_ w'. calm w' \<and> faultless w' \<and> fs_wf (w_fs w') \<and> locks_ok (w_fs w') layout a name) (\<lambda>_ _. False) w"
  unfolding wp_either
proof (rule wp_cong_mono [OF wp_conj [OF wp_mkdirat_entry [OF assms(1,3) locks_plain(1,2,3) assms(4)]
      wp_mkdirat_grows [OF assms(1,3)]]], goal_cases)
  case (1 u w')
  note g = 1 [THEN conjunct2, unfolded locks_plain(4)] and new = 1 [THEN conjunct1, THEN conjunct1]
  from 1 obtain d where d: "entry (w_fs w') a ''.locks'' = Some d" "is_dir (w_fs w') d"
      "owners (w_fs w') d = Some (w_euid w, w_egid w)" "\<And>m. m \<notin> {''.'', ''..''} \<Longrightarrow> entry (w_fs w') d m = None"
    by blast
  have "required_owner_uid layout \<in> {None, Some (w_euid w)} \<and> required_owner_gid layout \<in> {None, Some (w_egid w)}"
    using assms(5) new unfolding lockable_def by (simp only: if_True simp_thms)
  then have own: "owner_ok (w_fs w') layout d"
    using d(3) by (auto simp: owner_ok_def owners_def check_owner_Inr stat_of_def)
  have "locks_ok (w_fs w') layout a name"
    unfolding locks_ok_def using d(1,2) own d(4) [OF assms(6)] by (intro exI [of _ d] conjI allI impI) simp_all
  then show ?case
    using growsD(4,5) [OF g] evolvesD(13) [OF growsD(1) [OF g] assms(2)] by (simp add: wp_return)
next
  case (2 e w')
  then have i: "idle w w'" by simp
  have ex: "e = EEXIST" "entry (w_fs w) a ''.locks'' \<noteq> None" using 2 assms(2) by (auto split: if_splits)
  then have "locks_ok (w_fs w') layout a name"
    using assms(5) unfolding lockable_def idleD(1) [OF i] by (simp only: if_False simp_thms)
  then show ?case
    using ex(1) i evolvesD(13) [OF idleD(2) [OF i] assms(2)] assms(3) idleD(1) [OF i]
    by (simp add: wp_return idle_calm)
qed

lemma wp_lock_succeeds:
  assumes "calm w" "faultless w" "fs_wf (w_fs w)" "leads_to w (admin_user_root layout) a"
    "lockable w layout a (lock_name uid unit)" "CHR ''/'' \<notin> set unit" "CHR 0x00 \<notin> set unit"
  shows "wp (lock_deployment layout uid unit) (\<lambda>_ _. True) (\<lambda>_ _. False) w"
proof -
  let ?name = "lock_name uid unit"
  have name: "plain_name ?name" "CHR 0x00 \<notin> set ?name" "?name \<notin> {''.'', ''..''}" "length ?name \<le> 255"
    using lock_name_plain [OF assms(6,7)] assms(5) last_appendR [of "''.lock''"]
    by (auto simp: lockable_def lock_name_def)
  have a: "is_dir (w_fs w) a" using assms(4) by (simp add: leads_to_def)
  have later: "faultless w'" if "idle w w'" for w' using evolvesD(13) [OF idleD(2) [OF that] assms(2)] .
  show ?thesis
    unfolding lock_deployment_def Let_def wp_bind [of "catch_io _ _"] wp_catch [of "create_directories _"]
  proof (rule wp_create_directories [OF assms(1,4)], goal_cases)
    case (1 w1)
    note i1 = 1
    show ?case
      unfolding wp_bind [of "or_os_error (sys_open _ _ _) _ _"] wp_or_os_error [of "sys_open _ _ _"]
    proof (rule wp_open_directory [where d = a, OF idle_calm [OF i1]], goal_cases)
      case 1
      then show ?case using assms(4) leads_to_idle [OF i1] by simp
    next
      case (4 w2)
      note i2 = idle_trans [OF i1 4]
      show ?case
        unfolding wp_bind [of "validate_owner_if_required _ _ ''deployment lock root''"]
      proof (rule wp_validate_owner [OF idle_calm [OF i2]], goal_cases)
        case (2 w3)
        note i3 = idle_trans [OF i2 2]
        have "lockable w3 layout a ?name = lockable w layout a ?name"
          by (simp only: lockable_def idleD(1) [OF i3] evolvesD(3,4) [OF idleD(2) [OF i3]])
        then have l: "lockable w3 layout a ?name" using assms(5) by (rule iffD2)
        show ?case
          unfolding wp_bind [of "either_io _ _ _"]
          by (rule wp_cong_mono [OF wp_make_locks [OF idle_calm [OF i3] later [OF i3] _ _ l name(3)]])
            (use assms(3) a idleD(1) [OF i3] name in \<open>auto intro: wp_use_locks\<close>)
      qed (use later [OF i2] assms(5) idleD(1) [OF i2] in \<open>auto simp: lockable_def\<close>)
    qed (use later [OF i1] in \<open>auto simp: directory_flags_def\<close>)
  qed (use assms(2) in simp)
qed

section \<open>Processes that do what they are asked\<close>

definition exits_well :: "proc_reply \<Rightarrow> bool" where
  "exits_well p \<longleftrightarrow> pr_spawn_rc p = 0 \<and> list_all (\<lambda>e. e = EINTR) (pr_waits p) \<and> exited_zero (pr_status p)"

text \<open>What is read from the pipe until its end.\<close>

fun captured :: "(errno + string) list \<Rightarrow> string option" where
  "captured [] = Some []"
| "captured (Inr s # rs) = (if s = [] then Some [] else map_option ((@) s) (captured rs))"
| "captured (Inl e # rs) = (if e = EINTR then captured rs else None)"

definition reports :: "proc_reply \<Rightarrow> string \<Rightarrow> bool" where
  "reports p out \<longleftrightarrow> exits_well p \<and> pr_pipe p = None \<and> captured (pr_reads p) = Some out"

lemma capture_loop_captured: "captured rs = Some out \<Longrightarrow> capture_loop acc rs w = (Inr (acc @ out), w)"
  by (induction rs arbitrary: acc out rule: captured.induct)
    (auto simp: return_io_def split: if_splits)

lemma wait_for_child_well:
  "list_all (\<lambda>e. e = EINTR) es \<Longrightarrow> wp (wait_for_child es status) (\<lambda>s w'. s = status \<and> w_procs w' = w_procs w) (\<lambda>_ _. False) w"
  by (induction es) (auto simp: wp_simps)

lemma wp_run_process_well:
  assumes "args \<noteq> []" "w_procs w = p # ps" "exits_well p"
  shows "wp (run_process args) (\<lambda>_ w'. w_procs w' = ps) (\<lambda>_ _. False) w"
  unfolding run_process_def if_not_P [OF assms(1)] wp_bind wp_next_proc assms(2) list.case posix_spawnp_def
  using assms(3) by (auto simp: exits_well_def wp_simps wp_lift intro!: wp_cong_mono [OF wait_for_child_well])

lemma wp_run_process_capture_well:
  assumes "args \<noteq> []" "w_procs w = p # ps" "reports p out"
  shows "wp (run_process_capture args) (\<lambda>s w'. s = out \<and> w_procs w' = ps) (\<lambda>_ _. False) w"
proof -
  have c: "capture_loop [] (pr_reads p) w' = (Inr out, w')" for w'
    using capture_loop_captured [of "pr_reads p" out "[]"] assms(3) by (simp add: reports_def)
  have "wp (capture_loop [] (pr_reads p)) Q E w' = Q out w'" for Q E w' by (simp add: wp_def c)
  then show ?thesis
    unfolding run_process_capture_def if_not_P [OF assms(1)] wp_bind wp_next_proc assms(2) list.case posix_spawnp_def
    using assms(3) by (auto simp: reports_def exits_well_def wp_simps wp_lift intro!: wp_cong_mono [OF wait_for_child_well])
qed

section \<open>The controller over \<open>systemctl\<close>\<close>

lemma systemctl_reload_well:
  assumes "pt_user_name target \<noteq> []" "w_procs w = p # ps" "exits_well p"
  shows "wp (systemctl_daemon_reload False target) (\<lambda>_ w'. w_procs w' = ps) (\<lambda>_ _. False) w"
proof -
  have "safe_systemd_value ''daemon-reload''" by code_simp
  then have "build_systemctl_user_args target ''daemon-reload'' None = Inr (user_args target ''daemon-reload'')"
    using assms(1) by (simp add: build_args_Inr)
  then show ?thesis
    unfolding systemctl_daemon_reload_def wp_bind wp_lift
    using wp_run_process_well [OF _ assms(2,3)] by (simp add: user_args_def)
qed

lemma systemctl_restart_well:
  assumes "pt_user_name target \<noteq> []" "safe_systemd_unit unit" "w_procs w = p # q # ps" "exits_well p" "reports q out"
  shows "wp (systemctl_operation ''restart'' False target unit)
    (\<lambda>op _. uo_final_status op = parse_show_status unit out) (\<lambda>_ _. False) w"
proof -
  have "safe_systemd_value ''restart''" "safe_systemd_value ''show''" by code_simp+
  then have args: "build_systemctl_user_args target ''restart'' (Some unit) = Inr (user_args target ''restart'' @ [unit])"
      "build_systemctl_user_args target ''show'' (Some unit) = Inr (user_args target ''show'' @ [unit])"
    using assms(1,2) by (simp_all add: build_args_Inr)
  have v: "validate_systemd_unit_name unit = Inr ()" using assms(2) by (simp add: validate_unit_Inr)
  have show_ok: "wp (completed_operation False target unit)
      (\<lambda>op _. uo_final_status op = parse_show_status unit out) (\<lambda>_ _. False) w1" if "w_procs w1 = q # ps" for w1
    unfolding completed_operation_def systemctl_status_def wp_bind wp_lift v args sum.case
    by (simp add: wp_bind wp_lift, rule wp_cong_mono [OF wp_run_process_capture_well [OF _ that assms(5)]])
      (auto simp: wp_return)
  show ?thesis
    unfolding systemctl_operation_def wp_bind wp_lift args sum.case
    by (simp add: wp_bind, rule wp_cong_mono [OF wp_run_process_well [OF _ assms(3,4)]])
      (auto intro: show_ok)
qed

text \<open>What the processes of a deployment have to do.\<close>

definition unit_comes_up :: "bool \<Rightarrow> string \<Rightarrow> proc_reply list \<Rightarrow> bool" where
  "unit_comes_up restart unit ps \<longleftrightarrow> (\<exists>reload rest. ps = reload # rest \<and> exits_well reload \<and>
     (restart \<longrightarrow> (\<exists>start status tail out. rest = start # status # tail \<and> exits_well start \<and> reports status out \<and>
        deployed_status_is_healthy (parse_show_status unit out))))"

section \<open>The rest of the deployment\<close>

lemma keeps_flock_loop: "keeps (\<lambda>w w'. w_procs w' = w_procs w) (flock_loop name fd)"
proof (rule keepsI)
  fix w show "w_procs (snd (flock_loop name fd w)) = w_procs w"
  proof (induction name fd w rule: flock_loop.induct)
    case (1 name fd w)
    obtain r w' where r: "sys_flock fd w = (r, w')" by fastforce
    then have "w_procs w' = w_procs w"
      using next_event_rest(3) [of w] by (auto simp: sys_flock_def syscall_def log_io_def split: prod.splits option.splits)
    with 1 [OF r [symmetric]] r show ?case
      by (cases r) (auto simp: flock_loop.simps [of name fd w] os_error_def)
  qed
qed

interpretation same_procs: kept_by_commits "\<lambda>w w'. w_procs w' = w_procs w"
  by unfold_locales (auto simp: next_event_rest)

lemma keeps_lock_deployment: "keeps (\<lambda>w w'. w_procs w' = w_procs w) (lock_deployment layout uid unit)"
  unfolding lock_deployment_def validate_owner_if_required_def Let_def
  by (intro same_procs.changing keeps_flock_loop)

text \<open>What has to be the case in the directory of the user \<open>u\<close>.\<close>

definition writable :: "world \<Rightarrow> quadlet_install_layout \<Rightarrow> ino \<Rightarrow> ino \<Rightarrow> string \<Rightarrow> bool" where
  "writable w layout a u name \<longleftrightarrow> owners_ok (w_fs w) layout a u \<and> usable (w_fs w) u (candidates w name)
     \<and> (lookup (w_fs w) u name = None \<or>
        (\<exists>s. file_text (w_fs w) u name = Some s \<and> length s \<le> max_quadlet_bytes layout))"

lemma writable_can_write:
  assumes "writable w layout a u name" "faultless w"
  shows "\<not> cannot_write w u name" "validate_quadlet_file_name name = Inr () \<Longrightarrow> \<not> snapshot_blocked w layout a u name"
proof -
  have "\<not> is_dir (w_fs w) i" if "entry (w_fs w) u name = Some i" for i
    using assms(1) that
    by (auto simp: writable_def lookup_def file_text_def is_dir_def dir_entries_def split: option.splits node.splits)
  with assms show "\<not> cannot_write w u name" by (auto simp: writable_def cannot_write_def)
  assume "validate_quadlet_file_name name = Inr ()"
  with assms show "\<not> snapshot_blocked w layout a u name" by (auto simp: writable_def snapshot_blocked_def)
qed

text \<open>From the reload on.\<close>

lemma wp_bring_up:
  fixes bad :: "unit_operation_result \<Rightarrow> (error, 'a) io"
  assumes target: "pt_user_name target \<noteq> []" and unit: "safe_systemd_unit unit"
    and procs: "unit_comes_up (do_restart_unit options) unit (w_procs w)"
  shows "wp (bind_io (catch_io (sc_daemon_reload (systemctl_controller False) target) h) (\<lambda>_.
      if do_restart_unit options then
        bind_io (catch_io (sc_restart_unit (systemctl_controller False) target unit) h') (\<lambda>op.
          if \<not> deployed_status_is_healthy (uo_final_status op) then bad op else return_io (good op))
      else either_io (sc_status (systemctl_controller False) target unit) (\<lambda>e. return_io (res e)) (\<lambda>st. return_io (res' st))))
      (\<lambda>_ _. True) (\<lambda>_ _. False) w"
proof -
  obtain p rest where ps: "w_procs w = p # rest" "exits_well p"
    and run: "do_restart_unit options \<longrightarrow> (\<exists>s q tail out. rest = s # q # tail \<and> exits_well s \<and> reports q out \<and>
        deployed_status_is_healthy (parse_show_status unit out))"
    using procs unfolding unit_comes_up_def by blast
  have reload: "wp (sc_daemon_reload (systemctl_controller False) target) (\<lambda>_ w'. w_procs w' = rest) (\<lambda>_ _. False) w"
    using systemctl_reload_well [OF target ps] by (simp add: systemctl_controller_def)
  show ?thesis
    unfolding wp_bind [of "catch_io _ _"] wp_catch
  proof (rule wp_cong_mono [OF reload], goal_cases)
    case (1 x w1)
    show ?case
    proof (cases "do_restart_unit options")
      case True
      then obtain s q tail out where r: "rest = s # q # tail" "exits_well s" "reports q out"
          "deployed_status_is_healthy (parse_show_status unit out)" using run by blast
      have "wp (sc_restart_unit (systemctl_controller False) target unit)
          (\<lambda>op _. uo_final_status op = parse_show_status unit out) (\<lambda>_ _. False) w1"
        using systemctl_restart_well [OF target unit _ r(2,3)] 1 r(1) by (simp add: systemctl_controller_def)
      then show ?thesis
        unfolding if_P [OF True] wp_bind wp_catch
        by (rule wp_cong_mono) (use r(4) in \<open>auto simp: wp_return\<close>)
    next
      case False
      show ?thesis
        unfolding if_not_P [OF False] wp_either
        by (rule wpI) (simp_all add: wp_return)
    qed
  qed simp
qed

lemma wp_deploy_quadlet_succeeds:
  assumes "calm w" "faultless w" "ready w (qi_layout installer) (bu_target_uid bundle) a u"
    and wr: "writable w (qi_layout installer) a u (qf_file_name (bu_quadlet bundle))"
    and inst: "expected_install (qi_layout installer) (qi_policy installer) (bu_target_uid bundle) (bu_quadlet bundle) = Inr inst"
    and target: "pt_user_name target \<noteq> []"
    and procs: "unit_comes_up (do_restart_unit options) (iq_systemd_unit inst) (w_procs w)"
  shows "wp (deploy_quadlet installer (systemctl_controller False) options bundle target result) (\<lambda>_ _. True) (\<lambda>_ _. False) w"
proof -
  let ?layout = "qi_layout installer" and ?uid = "bu_target_uid bundle" and ?q = "bu_quadlet bundle"
  let ?name = "qf_file_name ?q"
  note valid = expected_install_Inr(2) [OF inst]
  have unit: "safe_systemd_unit (iq_systemd_unit inst)"
    using derived_unit_is_accepted [OF expected_install_Inr(5) [OF inst]] by (simp add: validate_unit_Inr)
  note free = writable_can_write [OF wr assms(2)] and own = wr [unfolded writable_def, THEN conjunct1]
  have snap: "wp (snapshot_for_user ?layout ?uid ?name)
      (\<lambda>_ w'. evolves w w' \<and> frame u {} (w_fs w) (w_fs w')) (\<lambda>_ _. False) w"
    by (rule wp_snapshot [OF assms(1,3)]) (use free(2) [OF valid] in auto)
  show ?thesis
    unfolding deploy_quadlet_def wp_bind [of "snapshot_for_user _ _ _"] wp_bind [of "install_for_user _ _ _ _"] Let_def
  proof (rule wp_cong_mono [OF wp_conj [OF snap keeps_wp [OF same_procs.keeps_snapshot]]], goal_cases)
    case (1 snap w1)
    then have w1: "evolves w w1" "frame u {} (w_fs w) (w_fs w1)" "w_procs w1 = w_procs w" by auto
    have r1: "ready w1 ?layout ?uid a u" using ready_frame [OF assms(3) w1(1,2)] .
    have own1: "owners_ok (w_fs w1) ?layout a u"
      using owners_ok_frame [OF w1(2) own] assms(3) by (simp add: ready_def)
    have wr1: "\<not> cannot_write w1 u ?name"
      using after_ensure(5) [OF assms(3) w1(1,2)] free(1) by blast
    have install: "wp (install_for_user ?layout (qi_policy installer) ?uid ?q) (\<lambda>i w'. i = inst) (\<lambda>_ _. False) w1"
      by (rule wp_install [OF evolves_calm [OF w1(1)] r1]) (use inst own1 wr1 in auto)
    show ?case
    proof (rule wp_cong_mono [OF wp_conj [OF install keeps_wp [OF same_procs.keeps_install]]], goal_cases)
      case (1 i w2)
      then have i: "i = inst" and p: "w_procs w2 = w_procs w" using w1(3) by auto
      show ?case unfolding i by (rule wp_bring_up [OF target unit]) (use procs p in simp)
    qed simp
  qed simp
qed

section \<open>The whole deployment\<close>

lemma temp_names_not_lock:
  assumes "CHR ''/'' \<notin> set unit" "CHR 0x00 \<notin> set unit"
  shows "temp_names w name \<inter> lock_names uid unit = {}"
proof -
  have "isdigit (last t)" if "t \<in> temp_names w name" for t
    using that show_nat_digits [OF last_in_set, OF show_nat_nonempty] by (auto simp: temp_names_def temp_name_def)
  moreover have "\<not> isdigit (last t)" if "t \<in> lock_names uid unit" for t
  proof -
    have "t = ''.locks'' \<or> t = lock_name uid unit"
      using that unfolding lock_names_eq [OF assms] by (simp only: insert_iff empty_iff simp_thms)
    then show ?thesis by (rule disjE) (simp_all add: lock_name_def isdigit_def)
  qed
  ultimately show ?thesis by blast
qed

lemma writable_extends:
  assumes "writable w layout a u name" "evolves w w'" "extends M (w_fs w) (w_fs w')" "is_dir (w_fs w) a" "is_dir (w_fs w) u"
    "name \<notin> M" "temp_names w name \<inter> M = {}"
  shows "writable w' layout a u name"
proof -
  have wf: "fs_wf (w_fs w)" using assms(3) by (simp add: extends_def)
  have "a < next_ino (w_fs w)" "u < next_ino (w_fs w)" using is_dir_less [OF wf] assms(4,5) by auto
  then have "owners (w_fs w') a = owners (w_fs w) a" "owners (w_fs w') u = owners (w_fs w) u"
    using assms(3) by (simp_all add: extends_def)
  then have own: "owners_ok (w_fs w') layout a u"
    using assms(1) by (auto simp: writable_def owners_ok_def intro: owner_ok_owners)
  have "candidates w' name = candidates w name" using evolvesD(6) [OF assms(2)] by (simp add: candidates_def)
  moreover have "\<forall>c \<in> set (candidates w name). entry (w_fs w') u c = entry (w_fs w) u c"
    using extends_lookup(1) [OF assms(3,5)] assms(7) by (auto simp: set_candidates)
  ultimately have "usable (w_fs w') u (candidates w' name)"
    using assms(1) usable_cong by (metis writable_def)
  with own assms(1) extends_lookup(2,3) [OF assms(3,5,6)] show ?thesis by (simp add: writable_def)
qed

lemma wp_deploy_succeeds:
  assumes "calm w" "faultless w" "ready w (qi_layout installer) (bu_target_uid bundle) a u"
    and valid: "validate_deployment_bundle bundle = Inr ()"
    and inst: "expected_install (qi_layout installer) (qi_policy installer) (bu_target_uid bundle) (bu_quadlet bundle) = Inr inst"
    and user: "w_getpwuid w (bu_target_uid bundle) = (0, Some pw)" "pw_name pw \<noteq> []"
    and live: "\<not> do_dry_run options" "bu_image_archive bundle = None \<or> \<not> do_load_image_archive options"
    and lock: "lockable w (qi_layout installer) a (lock_name (bu_target_uid bundle) (iq_systemd_unit inst))"
    and wr: "writable w (qi_layout installer) a u (qf_file_name (bu_quadlet bundle))"
    and procs: "unit_comes_up (do_restart_unit options) (iq_systemd_unit inst) (w_procs w)"
  shows "wp (deploy installer (Some (systemctl_controller False)) options bundle) (\<lambda>_ _. True) (\<lambda>_ _. False) w"
proof -
  let ?layout = "qi_layout installer" and ?uid = "bu_target_uid bundle" and ?q = "bu_quadlet bundle"
  let ?unit = "iq_systemd_unit inst" and ?name = "qf_file_name (bu_quadlet bundle)"
  let ?target = "make_target (pw_uid pw) (pw_name pw) (do_runtime_layout options) (do_api_version options)"
  note unit = expected_install_Inr(5) [OF inst]
  note plain = derived_unit_plain [OF unit]
  note r = assms(3) [unfolded ready_def]
  have resolve: "wp (resolve_uid ?uid (do_runtime_layout options) (do_api_version options)) Q E w = Q ?target w" for Q E
    using user(1) by (simp add: wp_def resolve_uid_def)
  have none: "(case bu_image_archive bundle of
       Some archive \<Rightarrow> if do_load_image_archive options then
           bind_io (open_staged_image_archive archive options) (\<lambda>opened. return_io (Some opened)) else return_io None
     | None \<Rightarrow> return_io None) = return_io None"
    using live(2) by (auto split: option.split)
  have load: "load_archive options bundle target None = return_io ()" for target
    using live(2) by (auto simp: load_archive_def bind_io_def return_io_def)
  have locked: "wp (lock_deployment ?layout ?uid ?unit)
      (\<lambda>_ w'. evolves w w' \<and> extends (lock_names ?uid ?unit) (w_fs w) (w_fs w')) (\<lambda>_ _. True) w"
    by (rule wp_lock_deployment [OF assms(1) _ ready_leads(1) [OF assms(3)]])
      (use r growsD(1,2) in auto)
  have inside: "wp (holding fd (bind_io (load_archive options bundle ?target None) (\<lambda>_.
        deploy_quadlet installer (systemctl_controller False) options bundle ?target result)))
      (\<lambda>_ _. True) (\<lambda>_ _. False) w1"
    if w1: "evolves w w1" "extends (lock_names ?uid ?unit) (w_fs w) (w_fs w1)" "w_procs w1 = w_procs w" for w1 fd result
    unfolding holding_def load wp_either wp_bind wp_return release_lock_def wp_log wp_fail
  proof (rule wp_deploy_quadlet_succeeds [OF evolves_calm [OF w1(1)]])
    show "faultless w1" using evolvesD(13) [OF w1(1) assms(2)] .
    show "ready w1 ?layout ?uid a u" using ready_extends [OF assms(3) w1(1,2)] .
    show "writable w1 ?layout a u ?name"
      by (rule writable_extends [OF wr w1(1,2)])
        (use r quadlet_name_not_lock [OF unit] temp_names_not_lock [OF plain] lock_names_eq [OF plain] in auto)
  qed (use inst user(2) procs w1(3) in \<open>simp_all add: make_target_def\<close>)
  show ?thesis
    unfolding deploy_def option.case wp_bind [of "lift_io _"] wp_lift verify_def valid sum.case
      wp_bind [of "resolve_uid _ _ _"] resolve inst none Let_def wp_bind [of "return_io _"] wp_return
      if_not_P [OF live(1)] wp_bind [of "lock_deployment _ _ _"]
  proof (rule wp_cong_mono [OF wp_conj [OF wp_conj [OF locked wp_lock_succeeds [OF assms(1,2) _ ready_leads(1) [OF assms(3)]
          lock plain]] keeps_wp [OF keeps_lock_deployment]]], goal_cases)
    case 1
    then show ?case using r by simp
  next
    case (2 fd w1)
    then show ?case by (intro inside) simp_all
  qed simp
qed

text \<open>
  C2: A deployment without an archive to load succeeds when nothing is in its way: the bundle and its
  Quadlet are valid, the user exists, the directories have the required owners, the lock is
  absent or a regular file in a directory with the required owner and its name fits, one of the
  temporary names is free, an installed Quadlet is a regular file within the bound, no call
  fails (transfers may be cut short), and \<open>systemctl\<close> reloads, restarts the unit and reports it
  loaded and active. The new Quadlet is then in place and the result says so.
\<close>

theorem deploy_succeeds:
  assumes "calm w" "faultless w" "ready w (qi_layout installer) (bu_target_uid bundle) a u"
    and "validate_deployment_bundle bundle = Inr ()"
    and "expected_install (qi_layout installer) (qi_policy installer) (bu_target_uid bundle) (bu_quadlet bundle) = Inr inst"
    and "w_getpwuid w (bu_target_uid bundle) = (0, Some pw)" "pw_name pw \<noteq> []"
    and "\<not> do_dry_run options" "bu_image_archive bundle = None \<or> \<not> do_load_image_archive options"
    and "lockable w (qi_layout installer) a (lock_name (bu_target_uid bundle) (iq_systemd_unit inst))"
    and "writable w (qi_layout installer) a u (qf_file_name (bu_quadlet bundle))"
    and "unit_comes_up (do_restart_unit options) (iq_systemd_unit inst) (w_procs w)"
  shows "\<exists>res w'. deploy installer (Some (systemctl_controller False)) options bundle w = (Inr res, w') \<and>
    file_text (w_fs w') u (qf_file_name (bu_quadlet bundle)) = Some (qf_contents (bu_quadlet bundle)) \<and>
    dr_installed_quadlet_path res = iq_path inst \<and> dr_systemd_unit res = iq_systemd_unit inst \<and>
    (do_restart_unit options \<longrightarrow> (\<exists>st. dr_status res = Some st \<and> us_unit st = iq_systemd_unit inst \<and>
       deployed_status_is_healthy st))"
proof -
  have "wp (deploy installer (Some (systemctl_controller False)) options bundle)
      (\<lambda>res w'. file_text (w_fs w') u (qf_file_name (bu_quadlet bundle)) = Some (qf_contents (bu_quadlet bundle)) \<and>
        dr_installed_quadlet_path res = iq_path inst \<and> dr_systemd_unit res = iq_systemd_unit inst \<and>
        (do_restart_unit options \<longrightarrow> (\<exists>st. dr_status res = Some st \<and> us_unit st = iq_systemd_unit inst \<and>
           deployed_status_is_healthy st))) (\<lambda>_ _. True) w"
    by (rule systemctl.wp_deploy [OF assms(1,3,8)]) (use assms(5) in auto)
  from wp_conj [OF this wp_deploy_succeeds [OF assms(1-12)]]
  show ?thesis
    by (cases "deploy installer (Some (systemctl_controller False)) options bundle w"; cases "fst
      (deploy installer (Some (systemctl_controller False)) options bundle w)") (auto simp: wp_def)
qed

definition sample_working :: "proc_reply list" where
  "sample_working = [sample_proc 0 [], sample_proc 0 [],
     sample_proc 0 [''LoadState=loaded'', [CHR 0x0A] @ ''ActiveState=active'', [CHR 0x0A]]]"

theorem deploy_succeeds_witness:
  "\<exists>res w'. deploy sample_installer (Some (systemctl_controller False)) default_deployment_options sample_bundle
      (sample_deploy_world [] sample_working) = (Inr res, w') \<and>
    file_text (w_fs w') 3 ''demo.container'' = Some (qf_contents sample_quadlet)"
proof -
  let ?w = "sample_deploy_world [] sample_working"
  let ?inst = sample_installed
  have ok: "validate_deployment_bundle sample_bundle = Inr ()" by code_simp
  have inst: "expected_install (qi_layout sample_installer) (qi_policy sample_installer) (bu_target_uid sample_bundle)
      (bu_quadlet sample_bundle) = Inr ?inst"
    using sample_expected by (simp add: sample_installer_def sample_bundle_def)
  have unit: "iq_systemd_unit ?inst = ''demo.service''" by (simp add: sample_installed_def)
  have opts: "\<not> do_dry_run default_deployment_options" "do_restart_unit default_deployment_options"
    by (simp_all add: default_deployment_options_def)
  have pw: "w_getpwuid ?w (bu_target_uid sample_bundle) = (0, Some \<lparr>pw_uid = bu_target_uid sample_bundle, pw_name = ''alice''\<rparr>)"
    by (simp add: sample_deploy_world_def)
  have none: "bu_image_archive sample_bundle = None" by (simp add: sample_bundle_def)
  have own: "owners_ok (w_fs ?w) (qi_layout sample_installer) 2 3"
    using sample_owners by (simp add: sample_deploy_world_def sample_world_def sample_installer_def)
  have free: "entry (w_fs ?w) 2 ''.locks'' = None" by code_simp
  have len: "length (lock_name (bu_target_uid sample_bundle) (iq_systemd_unit ?inst)) \<le> 255" by code_simp
  have "required_owner_uid (qi_layout sample_installer) \<in> {None, Some (w_euid ?w)} \<and>
      required_owner_gid (qi_layout sample_installer) \<in> {None, Some (w_egid ?w)}"
    by (simp add: sample_installer_def sample_layout_def sample_deploy_world_def sample_world_def)
  with len own have lock: "lockable ?w (qi_layout sample_installer) 2
      (lock_name (bu_target_uid sample_bundle) (iq_systemd_unit ?inst))"
    unfolding lockable_def if_P [OF free] owners_ok_def by blast
  have old: "file_text (w_fs ?w) 3 (qf_file_name (bu_quadlet sample_bundle)) = Some ''old''"
    and bound: "length ''old'' \<le> max_quadlet_bytes (qi_layout sample_installer)"
    and temp: "entry (w_fs ?w) 3 (temp_name (qf_file_name (bu_quadlet sample_bundle)) 7 0) = None"
      "length (temp_name (qf_file_name (bu_quadlet sample_bundle)) 7 0) \<le> 255" by code_simp+
  have "candidates ?w n = temp_name n 7 0 # map (temp_name n 7) [1..<100]" for n
    by (simp add: candidates_def sample_deploy_world_def sample_world_def upt_conv_Cons)
  with temp have free_temp: "usable (w_fs ?w) 3 (candidates ?w (qf_file_name (bu_quadlet sample_bundle)))" by simp
  have wr: "writable ?w (qi_layout sample_installer) 2 3 (qf_file_name (bu_quadlet sample_bundle))"
    unfolding writable_def using own old free_temp bound by blast
  have "w_procs ?w = sample_working" by (simp add: sample_deploy_world_def)
  moreover have "unit_comes_up True ''demo.service'' sample_working"
  proof -
    let ?out = "concat [''LoadState=loaded'', [CHR 0x0A] @ ''ActiveState=active'', [CHR 0x0A]]"
    have "exits_well (sample_working ! 0)" "exits_well (sample_working ! 1)" "reports (sample_working ! 2) ?out"
      "deployed_status_is_healthy (parse_show_status ''demo.service'' ?out)" by code_simp+
    moreover have "sample_working = [sample_working ! 0, sample_working ! 1, sample_working ! 2]"
      by (simp add: sample_working_def)
    ultimately show ?thesis unfolding unit_comes_up_def by metis
  qed
  ultimately have procs: "unit_comes_up (do_restart_unit default_deployment_options) (iq_systemd_unit ?inst) (w_procs ?w)"
    unfolding unit using opts(2) by simp
  have fine: "faultless ?w" by (simp add: sample_deploy_world_def sample_world_def faultless_def)
  have names: "bu_quadlet sample_bundle = sample_quadlet" "qf_file_name sample_quadlet = ''demo.container''"
    by (simp_all add: sample_bundle_def sample_quadlet_def quadlet_of_def)
  obtain res w' where "deploy sample_installer (Some (systemctl_controller False)) default_deployment_options sample_bundle
      ?w = (Inr res, w')"
    "file_text (w_fs w') 3 (qf_file_name (bu_quadlet sample_bundle)) = Some (qf_contents (bu_quadlet sample_bundle))"
    using deploy_succeeds [OF sample_deploy_calm fine sample_deploy_ready ok inst pw _ opts(1) disjI1 [OF none] lock wr procs]
    by fastforce
  then show ?thesis unfolding names by blast
qed

end
