(* ===== verification/Target_Properties.thy ===== *)
theory Target_Properties
  imports Target Installer_Properties
begin

text \<open>The validation of the socket of a target: what it accepts, exactly.\<close>

lemma podman_socket_default:
  "podman_socket_for default_runtime_layout uid = ''/run/user/'' @ show_nat (unat uid) @ ''/podman/podman.sock''"
proof -
  have digits: "c \<in> set (show_nat n) \<Longrightarrow> c \<noteq> CHR ''/''" for c n
    using show_nat_digits [of c n] by (auto simp: isdigit_def)
  have "\<not> is_absolute (show_nat n)" "last (show_nat n) \<noteq> CHR ''/''" for n
    using digits [of "last (show_nat n)" n] digits [of "hd (show_nat n)" n] show_nat_nonempty [of n]
    by (cases "show_nat n"; auto simp: is_absolute_def starts_with_def)+
  then show ?thesis
    by (simp add: podman_socket_for_def runtime_dir_for_def default_runtime_layout_def path_append_def)
      (simp add: is_absolute_def starts_with_def)
qed

text \<open>
  C22: With the default options and when no call fails, a target passes the validation exactly if
  its socket path is, lexically normalised, \<open>/run/user/UID/podman/podman.sock\<close> for its own UID
  and the file there is a socket, not a symbolic link to one, that is owned by that UID.
\<close>

theorem socket_validation_exact:
  assumes "calm w" "faultless w"
  shows "fst (validate_podman_socket target default_socket_options w) = Inr () \<longleftrightarrow>
    pt_socket_path target \<noteq> [] \<and>
    path_eq (lexically_normal (pt_socket_path target))
      (lexically_normal (''/run/user/'' @ show_nat (unat (pt_uid target)) @ ''/podman/podman.sock'')) \<and>
    (\<exists>i nd. resolve w (w_cwd w) (pt_socket_path target) False = Inr i \<and> inodes (w_fs w) i = Some nd \<and>
       i_node nd = Sock \<and> i_uid nd = pt_uid target)"
proof (cases "check_socket_path target default_socket_options")
  case (Inl e)
  then show ?thesis
    by (auto simp: validate_podman_socket_def bind_io_def lift_io_def check_socket_path_def bind_result_def guard_def
      default_socket_options_def podman_socket_default Let_def split: if_splits)
next
  case (Inr u)
  let ?i = "resolve w (w_cwd w) (pt_socket_path target) False"
  have path: "pt_socket_path target \<noteq> [] \<and> path_eq (lexically_normal (pt_socket_path target))
      (lexically_normal (''/run/user/'' @ show_nat (unat (pt_uid target)) @ ''/podman/podman.sock''))"
    using Inr by (auto simp: check_socket_path_def bind_result_def guard_def
      default_socket_options_def podman_socket_default Let_def split: if_splits)
  let ?ok = "\<exists>i nd. ?i = Inr i \<and> inodes (w_fs w) i = Some nd \<and> i_node nd = Sock \<and> i_uid nd = pt_uid target"
  have "wp (validate_podman_socket target default_socket_options) (\<lambda>_ w'. ?ok) (\<lambda>_ w'. \<not> ?ok) w"
    unfolding validate_podman_socket_def wp_bind wp_lift Inr sum.case wp_or_os_error
  proof (rule wp_lstat [OF assms(1)], goal_cases)
    case (4 i nd w')
    then show ?case
      by (cases "i_node nd") (auto simp: check_socket_stat_def bind_result_def guard_def default_socket_options_def stat_of_def)
  qed (use assms(2) in auto)
  note run = this [THEN wp_Inr] this [THEN wp_Inl]
  obtain r w' where r: "validate_podman_socket target default_socket_options w = (r, w')" by fastforce
  show ?thesis
  proof (cases r)
    case (Inl e)
    with run(2) r path show ?thesis by auto
  next
    case (Inr u)
    with run(1) r path show ?thesis by auto
  qed
qed

definition socket_fs :: fs where
  "socket_fs =
     \<lparr>inodes =
        [1 \<mapsto> mk_inode (Dir [''run'' \<mapsto> 2]), 2 \<mapsto> mk_inode (Dir [''user'' \<mapsto> 3]),
         3 \<mapsto> mk_inode (Dir [''1000'' \<mapsto> 4]), 4 \<mapsto> mk_inode (Dir [''podman'' \<mapsto> 5]),
         5 \<mapsto> mk_inode (Dir [''podman.sock'' \<mapsto> 6]), 6 \<mapsto> (mk_inode Sock)\<lparr>i_uid := 1000\<rparr>],
      next_ino = 7\<rparr>"

theorem socket_validation_exact_witness:
  "fst (validate_podman_socket (make_target 1000 ''alice'' default_runtime_layout ''5.0.0'') default_socket_options
     ((sample_world [])\<lparr>w_fs := socket_fs\<rparr>)) = Inr ()"
proof -
  let ?w = "(sample_world [])\<lparr>w_fs := socket_fs\<rparr>" and ?t = "make_target 1000 ''alice'' default_runtime_layout ''5.0.0''"
  have w: "calm ?w" "faultless ?w" by (simp_all add: calm_def calm_sched_def faultless_def sample_world_def)
  have t: "pt_socket_path ?t = ''/run/user/'' @ show_nat (unat (pt_uid ?t)) @ ''/podman/podman.sock''" "pt_uid ?t = 1000"
    by (simp_all add: make_target_def podman_socket_default)
  have "resolve ?w (w_cwd ?w) (pt_socket_path ?t) False = Inr 6" by code_simp
  moreover have "inodes (w_fs ?w) 6 = Some ((mk_inode Sock)\<lparr>i_uid := 1000\<rparr>)" by (simp add: socket_fs_def)
  moreover have "path_eq p p" for p by (simp add: path_eq_def)
  ultimately show ?thesis
    unfolding socket_validation_exact [OF w] t(2) by (auto simp: t mk_inode_def)
qed

end
