(* ===== verification/Json.thy ===== *)
theory Json
  imports Container_Spec Http
begin

text \<open>
  JSON as a reference for the texts the code prints: values, how they are printed without white
  space, and a reader after RFC 8259 that is independent of the printer. The reader takes
  fuel, and the length of the text is enough. Fractions, exponents and escapes of characters
  beyond ASCII, none of which the code prints, are not read.
\<close>

section \<open>Values\<close>

datatype json = J_string string | J_int int | J_bool bool | J_array "json list" | J_object "(string \<times> json) list"

fun join_comma :: "string list \<Rightarrow> string" where
  "join_comma [] = []"
| "join_comma [x] = x"
| "join_comma (x # xs) = x @ CHR '','' # join_comma xs"

fun print_json :: "json \<Rightarrow> string" where
  "print_json (J_string s) = json_string s"
| "print_json (J_int i) = show_int i"
| "print_json (J_bool b) = (if b then ''true'' else ''false'')"
| "print_json (J_array vs) = CHR ''['' # join_comma (map print_json vs) @ '']''"
| "print_json (J_object kvs) =
     CHR ''{'' # join_comma (map (\<lambda>(k, v). json_string k @ CHR '':'' # print_json v) kvs) @ ''}''"

abbreviation print_field :: "string \<times> json \<Rightarrow> string" where
  "print_field \<equiv> \<lambda>(k, v). json_string k @ CHR '':'' # print_json v"

section \<open>The reader\<close>

definition unescape :: "char \<Rightarrow> char option" where
  "unescape c =
     (if c = CHR 0x22 \<or> c = CHR 0x5C \<or> c = CHR ''/'' then Some c
      else if c = CHR ''b'' then Some (CHR 0x08) else if c = CHR ''f'' then Some (CHR 0x0C)
      else if c = CHR ''n'' then Some (CHR 0x0A) else if c = CHR ''r'' then Some (CHR 0x0D)
      else if c = CHR ''t'' then Some (CHR 0x09) else None)"

definition unescape_ascii :: "string \<Rightarrow> char option" where
  "unescape_ascii ds =
     (case ds of
        [a, b, h, l] \<Rightarrow>
          if a = CHR ''0'' \<and> b = CHR ''0'' \<and> 0 \<le> hex_value h \<and> hex_value h < 8 \<and> 0 \<le> hex_value l
          then Some (char_of (nat (16 * hex_value h + hex_value l))) else None
      | _ \<Rightarrow> None)"

definition put_char :: "char \<Rightarrow> (string \<times> string) option \<Rightarrow> (string \<times> string) option" where
  "put_char c r = map_option (\<lambda>(s, rest). (c # s, rest)) r"

text \<open>The characters of a string up to the closing quotation mark, and what follows it.\<close>

function read_chars :: "string \<Rightarrow> (string \<times> string) option" where
  "read_chars s =
     (case s of
        [] \<Rightarrow> None
      | c # s \<Rightarrow>
          if c = CHR 0x22 then Some ([], s)
          else if c = CHR 0x5C then
            (case s of
               [] \<Rightarrow> None
             | e # s \<Rightarrow>
                 if e = CHR ''u'' then
                   (case unescape_ascii (take 4 s) of None \<Rightarrow> None
                    | Some d \<Rightarrow> put_char d (read_chars (drop 4 s)))
                 else (case unescape e of None \<Rightarrow> None | Some d \<Rightarrow> put_char d (read_chars s)))
          else if byte_of c < 0x20 then None
          else put_char c (read_chars s))"
  by pat_completeness auto
termination
  by (relation "measure length") (auto split: list.splits)

declare read_chars.simps [simp del]

definition read_number :: "string \<Rightarrow> (json \<times> string) option" where
  "read_number s =
     (let negative = (s \<noteq> [] \<and> hd s = CHR ''-'');
          t = (if negative then tl s else s);
          ds = takeWhile isdigit t
      in if ds = [] \<or> hd ds = CHR ''0'' \<and> length ds > 1 then None
         else Some (J_int (if negative then - int (read_nat ds) else int (read_nat ds)), dropWhile isdigit t))"

fun read_value :: "nat \<Rightarrow> string \<Rightarrow> (json \<times> string) option"
  and read_items :: "nat \<Rightarrow> string \<Rightarrow> (json list \<times> string) option"
  and read_fields :: "nat \<Rightarrow> string \<Rightarrow> ((string \<times> json) list \<times> string) option" where
  "read_value 0 s = None"
| "read_value (Suc n) s =
     (case s of
        [] \<Rightarrow> None
      | c # t \<Rightarrow>
          if c = CHR 0x22 then map_option (\<lambda>(v, r). (J_string v, r)) (read_chars t)
          else if c = CHR ''['' then
            (if t \<noteq> [] \<and> hd t = CHR '']'' then Some (J_array [], tl t)
             else map_option (\<lambda>(vs, r). (J_array vs, r)) (read_items n t))
          else if c = CHR ''{'' then
            (if t \<noteq> [] \<and> hd t = CHR ''}'' then Some (J_object [], tl t)
             else map_option (\<lambda>(vs, r). (J_object vs, r)) (read_fields n t))
          else if starts_with s ''true'' then Some (J_bool True, drop 4 s)
          else if starts_with s ''false'' then Some (J_bool False, drop 5 s)
          else read_number s)"
| "read_items 0 s = None"
| "read_items (Suc n) s =
     (case read_value n s of
        Some (v, c # r) \<Rightarrow>
          if c = CHR '','' then map_option (\<lambda>(vs, q). (v # vs, q)) (read_items n r)
          else if c = CHR '']'' then Some ([v], r) else None
      | _ \<Rightarrow> None)"
| "read_fields 0 s = None"
| "read_fields (Suc n) s =
     (if s = [] \<or> hd s \<noteq> CHR 0x22 then None
      else case read_chars (tl s) of
        Some (k, c # t) \<Rightarrow>
          if c \<noteq> CHR '':'' then None
          else (case read_value n t of
                  Some (v, d # r) \<Rightarrow>
                    if d = CHR '','' then map_option (\<lambda>(kvs, q). ((k, v) # kvs, q)) (read_fields n r)
                    else if d = CHR ''}'' then Some ([(k, v)], r) else None
                | _ \<Rightarrow> None)
      | _ \<Rightarrow> None)"

definition read_json :: "string \<Rightarrow> json option" where
  "read_json s = (case read_value (length s) s of Some (v, []) \<Rightarrow> Some v | _ \<Rightarrow> None)"

section \<open>Reading what was printed\<close>

lemma read_chars_end [simp]: "read_chars (CHR 0x22 # s) = Some ([], s)"
  by (simp add: read_chars.simps [of "CHR 0x22 # s"])

lemma hex_lower_value: "d < 16 \<Longrightarrow> hex_value (hex_lower d) = int d"
  by (auto simp: hex_lower_def hex_value_def byte_of_char_of)

lemma read_escaped: "read_chars (json_escape_char c @ s) = put_char c (read_chars s)"
proof -
  consider "c \<in> {CHR 0x22, CHR 0x5C, CHR 0x08, CHR 0x0C, CHR 0x0A, CHR 0x0D, CHR 0x09}"
    | "c \<notin> {CHR 0x22, CHR 0x5C, CHR 0x08, CHR 0x0C, CHR 0x0A, CHR 0x0D, CHR 0x09}" "byte_of c < 0x20"
    | "c \<notin> {CHR 0x22, CHR 0x5C, CHR 0x08, CHR 0x0C, CHR 0x0A, CHR 0x0D, CHR 0x09}" "\<not> byte_of c < 0x20"
    by blast
  then show ?thesis
  proof cases
    case 1
    then show ?thesis
      by (auto simp: json_escape_char_def unescape_def read_chars.simps [of "_ # _"])
  next
    case 2
    have h: "byte_of c div 16 < 8" "byte_of c mod 16 < 16" using 2(2) by auto
    have "16 * int (byte_of c div 16) + int (byte_of c mod 16) = int (byte_of c)"
      by (metis mult_div_mod_eq of_nat_add of_nat_mult of_nat_numeral)
    then have v: "nat (16 * int (byte_of c div 16) + int (byte_of c mod 16)) = byte_of c" by simp
    have "unescape_ascii [CHR ''0'', CHR ''0'', hex_lower (byte_of c div 16), hex_lower (byte_of c mod 16)] = Some c"
      using h hex_lower_value [of "byte_of c div 16"] hex_lower_value [of "byte_of c mod 16"] v
      by (simp add: unescape_ascii_def)
    with 2 show ?thesis
      by (simp add: json_escape_char_def read_chars.simps [of "CHR 0x5C # _"])
  next
    case 3
    then show ?thesis by (simp add: json_escape_char_def read_chars.simps [of "c # s"])
  qed
qed

lemma read_json_chars: "read_chars (concat (map json_escape_char v) @ CHR 0x22 # s) = Some (v, s)"
  by (induction v) (simp_all add: read_escaped put_char_def)

lemma read_json_string: "read_chars (tl (json_string v) @ s) = Some (v, s)"
  by (simp add: json_string_def append_json_string_def read_json_chars)

lemma json_string_head: "json_string v = CHR 0x22 # tl (json_string v)"
  by (simp add: json_string_def append_json_string_def)

lemma show_nat_head: "hd (show_nat n) = CHR ''0'' \<Longrightarrow> n = 0"
proof (induction n rule: show_nat.induct)
  case (1 n)
  show ?case
  proof (cases "n < 10")
    case True
    have z: "d < 10 \<Longrightarrow> digit_char d = CHR ''0'' \<Longrightarrow> d = 0" for d
      using digit_char_props(1) [of d] by (simp add: digit_value_def)
    with 1 True show ?thesis by (simp add: show_nat.simps [of n])
  next
    case False
    then have "hd (show_nat (n div 10)) = CHR ''0''" using "1.prems" by (simp add: show_nat.simps [of n])
    with 1 False show ?thesis by simp
  qed
qed

lemma show_nat_ok: "\<not> (hd (show_nat n) = CHR ''0'' \<and> length (show_nat n) > 1)"
proof
  assume "hd (show_nat n) = CHR ''0'' \<and> length (show_nat n) > 1"
  with show_nat_head [of n] show False by (auto simp: show_nat.simps [of 0])
qed

definition no_digit :: "string \<Rightarrow> bool" where
  "no_digit s \<longleftrightarrow> s = [] \<or> \<not> isdigit (hd s)"

lemma take_digits:
  "no_digit rest \<Longrightarrow> takeWhile isdigit (show_nat n @ rest) = show_nat n"
  "no_digit rest \<Longrightarrow> dropWhile isdigit (show_nat n @ rest) = rest"
  using show_nat_digits [of _ n]
  by (auto simp: takeWhile_append2 dropWhile_append2 takeWhile_eq_Nil_iff dropWhile_eq_self_iff no_digit_def)

lemma show_nat_sign: "hd (show_nat n @ rest) \<noteq> CHR ''-''"
proof
  assume "hd (show_nat n @ rest) = CHR ''-''"
  then have "CHR ''-'' \<in> set (show_nat n)" using hd_in_set [OF show_nat_nonempty [of n]] by simp
  then show False using show_nat_digits [of "CHR ''-''" n] by (simp add: ctype_defs)
qed

lemma read_shown_int:
  assumes "no_digit rest"
  shows "read_number (show_int i @ rest) = Some (J_int i, rest)"
proof (cases "i < 0")
  case True
  with assms show ?thesis using show_nat_ok [of "nat (- i)"]
    by (simp add: read_number_def show_int_def take_digits Let_def)
next
  case False
  with assms show ?thesis using show_nat_ok [of "nat i"] show_nat_sign [of "nat i" rest]
    by (simp add: read_number_def show_int_def take_digits Let_def)
qed

lemma show_int_head: "\<exists>c t. show_int i = c # t \<and> (c = CHR ''-'' \<or> isdigit c)"
proof (cases "show_nat (nat i)")
  case (Cons c t)
  then have "isdigit c" using show_nat_digits [of c "nat i"] by simp
  with Cons show ?thesis by (simp add: show_int_def)
qed simp

lemma read_value_int: "no_digit rest \<Longrightarrow> read_value (Suc n) (show_int i @ rest) = Some (J_int i, rest)"
proof -
  assume rest: "no_digit rest"
  obtain c t where c: "show_int i = c # t" "c = CHR ''-'' \<or> isdigit c" using show_int_head by blast
  have ne: "c \<noteq> CHR 0x22" "c \<noteq> CHR ''[''" "c \<noteq> CHR ''{''" "c \<noteq> CHR ''t''" "c \<noteq> CHR ''f''"
    using c(2) by (auto simp: isdigit_def)
  then have "\<not> starts_with (c # t @ rest) ''true''" "\<not> starts_with (c # t @ rest) ''false''"
    by (simp_all add: starts_with_def)
  with ne read_shown_int [OF rest, of i] show ?thesis
    unfolding c(1) append_Cons read_value.simps list.case by (simp only: if_False)
qed

section \<open>The round trip\<close>

text \<open>Nested values read back when there is fuel for their length.\<close>

definition reads_back :: "json \<Rightarrow> bool" where
  "reads_back v \<longleftrightarrow> (\<forall>rest n. no_digit rest \<longrightarrow> length (print_json v) \<le> n \<longrightarrow>
     read_value n (print_json v @ rest) = Some (v, rest))"

lemma no_digit_simps [simp]:
  "no_digit (CHR '','' # s)" "no_digit (CHR '']'' # s)" "no_digit (CHR ''}'' # s)" "no_digit []"
  by (simp_all add: no_digit_def isdigit_def)

lemma join_comma_Cons: "join_comma (x # xs) = (if xs = [] then x else x @ CHR '','' # join_comma xs)"
  by (cases xs) simp_all

lemma read_items_print:
  assumes "\<forall>v \<in> set vs. reads_back v" "vs \<noteq> []" "length (join_comma (map print_json vs)) < n"
  shows "read_items n (join_comma (map print_json vs) @ CHR '']'' # rest) = Some (vs, rest)"
  using assms
proof (induction vs arbitrary: n)
  case (Cons v vs)
  then obtain m where n: "n = Suc m" by (cases n) auto
  have v: "length (print_json v) \<le> m" using Cons.prems(3) by (simp add: n join_comma_Cons split: if_splits)
  show ?case
  proof (cases "vs = []")
    case True
    with Cons.prems v show ?thesis by (simp add: n reads_back_def)
  next
    case False
    have "read_items m (join_comma (map print_json vs) @ CHR '']'' # rest) = Some (vs, rest)"
      using Cons False by (intro Cons.IH) (simp_all add: n join_comma_Cons)
    with Cons.prems(1) v False show ?thesis by (simp add: n reads_back_def join_comma_Cons)
  qed
qed simp

lemma read_fields_print:
  assumes "\<forall>(k, v) \<in> set kvs. reads_back v" "kvs \<noteq> []" "length (join_comma (map print_field kvs)) < n"
  shows "read_fields n (join_comma (map print_field kvs) @ CHR ''}'' # rest) = Some (kvs, rest)"
  using assms
proof (induction kvs arbitrary: n)
  case (Cons kv kvs)
  obtain k v where kv: "kv = (k, v)" by fastforce
  obtain m where n: "n = Suc m" using Cons.prems(3) by (cases n) auto
  have v: "length (print_json v) \<le> m"
    using Cons.prems(3) by (simp add: n kv join_comma_Cons split: if_splits)
  have key: "hd (json_string k @ s) = CHR 0x22" "json_string k \<noteq> []" "read_chars (tl (json_string k @ s)) = Some (k, s)" for s
  proof -
    obtain t where t: "json_string k = CHR 0x22 # t" using json_string_head by blast
    with read_json_string [of k s] show "hd (json_string k @ s) = CHR 0x22" "json_string k \<noteq> []"
      "read_chars (tl (json_string k @ s)) = Some (k, s)" by simp_all
  qed
  show ?case
  proof (cases "kvs = []")
    case True
    with Cons.prems v key show ?thesis by (simp add: n kv reads_back_def)
  next
    case False
    have "read_fields m (join_comma (map print_field kvs) @ CHR ''}'' # rest) = Some (kvs, rest)"
      using Cons False by (intro Cons.IH) (auto simp: n kv join_comma_Cons)
    with Cons.prems(1) v False key show ?thesis by (simp add: n kv reads_back_def join_comma_Cons)
  qed
qed simp

lemma json_string_nonempty [simp]: "json_string s \<noteq> []"
  by (simp add: json_string_def append_json_string_def)

lemma join_comma_head:
  assumes "xs \<noteq> []" "hd xs \<noteq> []"
  shows "\<exists>c t. hd xs = c # t \<and> hd (join_comma xs @ s) = c \<and> join_comma xs \<noteq> []"
  using assms by (cases xs; cases "hd xs") (auto simp: join_comma_Cons)

lemma print_json_head: "\<exists>c t. print_json v = c # t \<and> c \<noteq> CHR '']'' \<and> c \<noteq> CHR ''}''"
proof (cases v)
  case (J_string s)
  obtain t where "json_string s = CHR 0x22 # t" using json_string_head by blast
  with J_string show ?thesis by simp
next
  case (J_int i)
  then show ?thesis using show_int_head [of i] by (auto simp: isdigit_def)
next
  case (J_bool b)
  then show ?thesis by (cases b) simp_all
qed simp_all

lemma print_json_nonempty [simp]: "print_json v \<noteq> []"
  using print_json_head [of v] by auto

lemma reads_back_string: "reads_back (J_string s)"
  unfolding reads_back_def
proof (intro allI impI)
  fix rest n
  assume n: "length (print_json (J_string s)) \<le> n"
  obtain t where t: "json_string s = CHR 0x22 # t" using json_string_head by blast
  with n obtain m where "n = Suc m" by (cases n) auto
  with read_json_string [of s rest] t show "read_value n (print_json (J_string s) @ rest) = Some (J_string s, rest)"
    by simp
qed

lemma reads_back_array: "\<forall>v \<in> set vs. reads_back v \<Longrightarrow> reads_back (J_array vs)"
  unfolding reads_back_def [of "J_array vs"]
proof (intro allI impI)
  fix rest n
  assume vs: "\<forall>v \<in> set vs. reads_back v" and n: "length (print_json (J_array vs)) \<le> n"
  then obtain m where m: "n = Suc m" by (cases n) auto
  show "read_value n (print_json (J_array vs) @ rest) = Some (J_array vs, rest)"
  proof (cases "vs = []")
    case True
    then show ?thesis by (simp add: m)
  next
    case False
    let ?t = "join_comma (map print_json vs)"
    obtain c t where "hd (map print_json vs) = c # t" "hd (?t @ CHR '']'' # rest) = c" "?t \<noteq> []"
      using join_comma_head [of "map print_json vs" "CHR '']'' # rest"] False by (auto simp: hd_map)
    then have "hd (?t @ CHR '']'' # rest) \<noteq> CHR '']''" using print_json_head [of "hd vs"] False by (auto simp: hd_map)
    moreover have "read_items m (?t @ CHR '']'' # rest) = Some (vs, rest)"
      using n False vs by (intro read_items_print) (simp_all add: m)
    ultimately show ?thesis by (simp add: m)
  qed
qed

lemma reads_back_object: "\<forall>(k, v) \<in> set kvs. reads_back v \<Longrightarrow> reads_back (J_object kvs)"
  unfolding reads_back_def [of "J_object kvs"]
proof (intro allI impI)
  fix rest n
  assume kvs: "\<forall>(k, v) \<in> set kvs. reads_back v" and n: "length (print_json (J_object kvs)) \<le> n"
  then obtain m where m: "n = Suc m" by (cases n) auto
  show "read_value n (print_json (J_object kvs) @ rest) = Some (J_object kvs, rest)"
  proof (cases "kvs = []")
    case True
    then show ?thesis by (simp add: m)
  next
    case False
    let ?t = "join_comma (map print_field kvs)"
    obtain k v where hd: "hd kvs = (k, v)" by fastforce
    obtain u where "json_string k = CHR 0x22 # u" using json_string_head by blast
    then have "hd (?t @ CHR ''}'' # rest) = CHR 0x22"
      using join_comma_head [of "map print_field kvs" "CHR ''}'' # rest"] False hd by (auto simp: hd_map)
    moreover have "read_fields m (?t @ CHR ''}'' # rest) = Some (kvs, rest)"
      using n False kvs by (intro read_fields_print) (simp_all add: m)
    ultimately show ?thesis by (simp add: m)
  qed
qed

lemma reads_back: "reads_back v"
proof (induction v)
  case (J_int i)
  show ?case
    unfolding reads_back_def
  proof (intro allI impI)
    fix rest n assume "no_digit rest" "length (print_json (J_int i)) \<le> n"
    moreover obtain m where "n = Suc m" using calculation show_int_head [of i] by (cases n) auto
    ultimately show "read_value n (print_json (J_int i) @ rest) = Some (J_int i, rest)"
      using read_value_int by simp
  qed
next
  case (J_bool b)
  show ?case
    unfolding reads_back_def
  proof (intro allI impI)
    fix rest n assume "length (print_json (J_bool b)) \<le> n"
    then obtain m where "n = Suc m" by (cases n) (auto split: if_splits)
    then show "read_value n (print_json (J_bool b) @ rest) = Some (J_bool b, rest)"
      by (simp add: starts_with_def)
  qed
next
  case (J_array vs)
  then show ?case by (intro reads_back_array) auto
next
  case (J_object kvs)
  then show ?case by (intro reads_back_object) (force simp: snds.simps)
qed (rule reads_back_string)

theorem read_print_json: "read_json (print_json v) = Some v"
  using reads_back [of v] unfolding reads_back_def
  by (simp add: read_json_def) (metis append_Nil2 no_digit_simps(4) option.simps(5) order_refl prod.case list.case(1))

section \<open>What the code prints\<close>

lemma array_loop_conv:
  "array_loop out first vs = out @ (if first \<or> vs = [] then [] else '','') @ join_comma (map json_string vs)"
  by (induction out first vs rule: array_loop.induct)
    (auto simp: json_string_def append_json_string_def join_comma_Cons)

lemma json_string_array_conv: "json_string_array vs = print_json (J_array (map J_string vs))"
  by (simp add: json_string_array_def array_loop_conv comp_def)

lemma map_loop_conv:
  "map_loop out first kvs = out @ (if first \<or> kvs = [] then [] else '','')
     @ join_comma (map (\<lambda>(k, v). json_string k @ CHR '':'' # json_string v) kvs)"
  by (induction out first kvs rule: map_loop.induct)
    (auto simp: json_string_def append_json_string_def join_comma_Cons)

lemma json_string_map_conv: "json_string_map kvs = print_json (J_object (map (\<lambda>(k, v). (k, J_string v)) kvs))"
  by (simp add: json_string_map_def map_loop_conv comp_def case_prod_unfold)

text \<open>The buffer of an object after the fields \<open>kvs\<close>.\<close>

definition buffer :: "(string \<times> json) list \<Rightarrow> string \<times> bool" where
  "buffer kvs = (CHR ''{'' # join_comma (map print_field kvs), kvs = [])"

lemma buffer_Nil: "(''{'', True) = buffer []"
  by (simp add: buffer_def)

lemma join_comma_snoc: "join_comma (xs @ [x]) = (if xs = [] then x else join_comma xs @ CHR '','' # x)"
  by (induction xs) (auto simp: join_comma_Cons)

lemma append_field_conv: "append_field (buffer kvs) k (print_json v) = buffer (kvs @ [(k, v)])"
  by (simp add: append_field_def buffer_def join_comma_snoc json_string_def append_json_string_def)

definition optional :: "string \<Rightarrow> json option \<Rightarrow> (string \<times> json) list" where
  "optional k x = (case x of None \<Rightarrow> [] | Some v \<Rightarrow> [(k, v)])"

lemma append_optional_conv: "append_optional_field (buffer kvs) k (map_option print_json x) = buffer (kvs @ optional k x)"
  by (cases x) (simp_all add: append_optional_field_def optional_def append_field_conv)

lemma close_buffer: "fst (buffer kvs) @ ''}'' = print_json (J_object kvs)"
  by (simp add: buffer_def)

end
