(* ===== verification/Podman_Properties.thy ===== *)
theory Podman_Properties
  imports Json Podman_Client Systemd_Properties
begin

text \<open>
  The properties of the container specification and of the Podman client: the JSON it sends
  means the specification, names stay in their part of the URL, and what a reply becomes.
\<close>

section \<open>The specification as JSON\<close>

definition i64_json :: "i64 \<Rightarrow> json" where
  "i64_json v = J_int (sint v)"

definition strings_json :: "string list \<Rightarrow> json option" where
  "strings_json vs = (if vs = [] then None else Some (J_array (map J_string vs)))"

definition string_map_json :: "string_map \<Rightarrow> json option" where
  "string_map_json kvs = (if kvs = [] then None else Some (J_object (map (\<lambda>(k, v). (k, J_string v)) kvs)))"

definition cpu_spec :: "cpu_limits \<Rightarrow> json" where
  "cpu_spec cpu = J_object (optional ''period'' (map_option i64_json (cpu_period cpu))
     @ optional ''quota'' (map_option i64_json (cpu_quota cpu))
     @ optional ''shares'' (map_option i64_json (cpu_shares cpu))
     @ optional ''cpus'' (map_option J_string (cpu_cpus cpu)))"

definition memory_spec :: "memory_limits \<Rightarrow> json" where
  "memory_spec m = J_object (optional ''limit'' (map_option i64_json (mem_limit m))
     @ optional ''swap'' (map_option i64_json (mem_swap m)))"

definition limits_spec :: "resource_limits \<Rightarrow> json" where
  "limits_spec l = J_object (optional ''cpu'' (map_option cpu_spec (rl_cpu l))
     @ optional ''memory'' (map_option memory_spec (rl_memory l))
     @ optional ''pids'' (map_option (\<lambda>p. J_object (optional ''limit'' (map_option i64_json (pids_limit p)))) (rl_pids l)))"

text \<open>The value a specification stands for; empty lists and absent limits have no field.\<close>

definition spec_json :: "container_spec \<Rightarrow> json" where
  "spec_json spec = J_object
     ([(''name'', J_string (cs_name spec)), (''image'', J_string (cs_image spec))]
      @ optional ''command'' (strings_json (cs_command spec))
      @ optional ''env'' (string_map_json (cs_env spec))
      @ optional ''labels'' (string_map_json (cs_labels spec))
      @ [(''read_only_filesystem'', J_bool (cs_read_only_filesystem spec))]
      @ optional ''cap_drop'' (strings_json (cs_cap_drop spec))
      @ optional ''security_opt'' (strings_json (cs_security_opt spec))
      @ optional ''resource_limits'' (map_option limits_spec (cs_resource_limits spec)))"

lemma show_i64_conv: "map_option show_i64 x = map_option print_json (map_option i64_json x)"
  by (cases x) (simp_all add: show_i64_def i64_json_def)

lemma json_string_conv: "map_option json_string x = map_option print_json (map_option J_string x)"
  by (cases x) simp_all

lemma nonempty_array_conv: "nonempty json_string_array vs = map_option print_json (strings_json vs)"
  by (simp add: nonempty_def strings_json_def json_string_array_conv del: print_json.simps)

lemma nonempty_map_conv: "nonempty json_string_map kvs = map_option print_json (string_map_json kvs)"
  by (simp add: nonempty_def string_map_json_def json_string_map_conv del: print_json.simps)

lemmas field_conv = buffer_Nil append_field_conv append_optional_conv close_buffer show_i64_conv
  json_string_conv nonempty_array_conv nonempty_map_conv

lemma cpu_json_conv: "cpu_json cpu = print_json (cpu_spec cpu)"
  by (simp add: cpu_json_def cpu_spec_def Let_def field_conv del: print_json.simps)

lemma memory_json_conv: "memory_json m = print_json (memory_spec m)"
  by (simp add: memory_json_def memory_spec_def Let_def field_conv del: print_json.simps)

lemma pids_json_conv: "pids_json p = print_json (J_object (optional ''limit'' (map_option i64_json (pids_limit p))))"
  by (simp add: pids_json_def field_conv del: print_json.simps)

lemma map_option_conv: "(\<And>x. f x = print_json (g x)) \<Longrightarrow> map_option f y = map_option print_json (map_option g y)"
  by (cases y) simp_all

lemma resource_limits_json_conv: "resource_limits_json l = print_json (limits_spec l)"
  by (simp add: resource_limits_json_def limits_spec_def Let_def field_conv map_option_conv [OF cpu_json_conv]
      map_option_conv [OF memory_json_conv] map_option_conv [OF pids_json_conv] del: print_json.simps)

lemma create_json_conv:
  "to_podman_create_json spec = bind_result (validate_container_spec spec) (\<lambda>_. Inr (print_json (spec_json spec)))"
proof -
  have b: "(if b then ''true'' else ''false'') = print_json (J_bool b)" for b by simp
  have s: "json_string v = print_json (J_string v)" for v by simp
  have f: "append_field (buffer kvs) k (json_string v) = buffer (kvs @ [(k, J_string v)])" for kvs k v
    unfolding s by (rule append_field_conv)
  show ?thesis
    unfolding to_podman_create_json_def Let_def b
    by (simp add: field_conv f map_option_conv [OF resource_limits_json_conv] spec_json_def del: print_json.simps)
qed

text \<open>
  C19: The JSON that \<open>create_container\<close> sends reads back, with a reader for RFC 8259, as exactly the
  specification: every name, string, map entry and 64-bit limit, whatever characters occur.
\<close>

theorem create_json_reads_back:
  assumes "to_podman_create_json spec = Inr text"
  shows "read_json text = Some (spec_json spec)"
  using assms unfolding create_json_conv by (auto simp: bind_result_Inr read_print_json)

definition sample_spec :: container_spec where
  "sample_spec = default_container_spec\<lparr>cs_name := ''web-1'', cs_image := ''quay.io/x:1'',
     cs_command := [''sh'', ''-c'', [CHR 0x22, CHR 0x0A, CHR 0x5C]], cs_env := [(''A'', ''1'')],
     cs_resource_limits := Some \<lparr>rl_cpu = None, rl_memory = Some \<lparr>mem_limit = Some 67108864, mem_swap = None\<rparr>,
       rl_pids = None\<rparr>\<rparr>"

theorem create_json_reads_back_witness:
  "\<exists>text. to_podman_create_json sample_spec = Inr text \<and> read_json text = Some (spec_json sample_spec)"
proof -
  have "validate_container_spec sample_spec = Inr ()" by code_simp
  then have "to_podman_create_json sample_spec = Inr (print_json (spec_json sample_spec))"
    by (simp add: create_json_conv)
  with create_json_reads_back [OF this] show ?thesis by blast
qed

section \<open>Requests\<close>

definition first_reply :: "world \<Rightarrow> http_reply" where
  "first_reply w = (case w_http w of [] \<Rightarrow> no_reply | r # rs \<Rightarrow> r)"

lemma next_reply_conv: "next_reply w = (Inr (first_reply w), w\<lparr>w_http := tl (w_http w)\<rparr>)"
  by (cases "w_http w") (simp_all add: next_reply_def first_reply_def)

definition request_entry :: "podman_client \<Rightarrow> http_request \<Rightarrow> log_entry" where
  "request_entry c req = Log_http (c_str (pt_socket_path (pc_target c))) (c_str (co_base_url (pc_options c) @ req_path req))
     (req\<lparr>req_method := c_str (req_method req), req_headers := map c_str (req_headers req)\<rparr>)"

lemma perform_conv:
  "perform c req operation w =
     (let r = first_reply w;
          w' = w\<lparr>w_http := tl (w_http w), w_log := w_log w @ (if hr_init r then [request_entry c req] else [])\<rparr>
      in (if \<not> hr_init r then Inl (err Transport ''curl_easy_init failed'')
          else if hr_code r \<noteq> 0 then
            Inl (make_error Transport (''curl request failed: '' @ w_curl_strerror w (hr_code r)) 0 0 (hr_code r))
          else require_success operation ((response_argument r)\<lparr>rsp_status := hr_status r\<rparr>), w'))"
  by (simp add: perform_def request_def bind_io_def next_reply_conv fail_io_def log_io_def finish_perform_def
      get_io_def return_io_def lift_io_def request_entry_def Let_def)

text \<open>
  C21: What a request to Podman becomes. One connection is made to the socket of the target, and the
  file system is not touched. A transfer that libcurl ends with an error is a transport error
  with its code; a status outside 200 to 299 is an HTTP error with that status; otherwise the
  status is returned. The pieces of the body, put together, and the header fields are returned
  if the compiler evaluates the transfer before it moves the response into the same call, and
  are lost if it does not.
\<close>

theorem request_outcome:
  assumes "perform c req operation w = (r, w')" "hr_init (first_reply w)"
  shows "w_log w' = w_log w @ [request_entry c req] \<and> w_fs w' = w_fs w \<and> w_procs w' = w_procs w \<and>
    (case r of
       Inr response \<Rightarrow> hr_code (first_reply w) = 0 \<and> 200 \<le> rsp_status response \<and> rsp_status response < 300 \<and>
         rsp_status response = hr_status (first_reply w) \<and>
         (if hr_perform_first (first_reply w)
          then rsp_body response = concat (hr_body (first_reply w)) \<and>
            rsp_headers response = foldl write_header [] (hr_headers (first_reply w))
          else rsp_body response = [] \<and> rsp_headers response = [])
     | Inl e \<Rightarrow>
         if hr_code (first_reply w) \<noteq> 0 then kind e = Transport \<and> transport_code e = hr_code (first_reply w)
         else kind e = Http \<and> http_status e = hr_status (first_reply w) \<and>
           \<not> (200 \<le> http_status e \<and> http_status e < 300))"
proof -
  have body: "foldl write_body acc xs = acc @ concat xs" for acc xs
    by (induction xs arbitrary: acc) (simp_all add: write_body_def)
  show ?thesis
    using assms unfolding perform_conv Let_def
    by (auto simp: require_success_def response_argument_def received_def body make_error_def split: if_splits sum.splits)
qed

definition ok_reply :: "int \<Rightarrow> string list \<Rightarrow> http_reply" where
  "ok_reply status body = \<lparr>hr_init = True, hr_perform_first = True, hr_reads = [], hr_code = 0, hr_status = status, hr_headers = [], hr_body = body\<rparr>"

lemma ok_reply_fields [simp]:
  "hr_init (ok_reply st b)" "hr_perform_first (ok_reply st b)" "hr_code (ok_reply st b) = 0" "hr_status (ok_reply st b) = st" "hr_body (ok_reply st b) = b"
  by (simp_all add: ok_reply_def)

definition sample_client :: podman_client where
  "sample_client = \<lparr>pc_target = sample_target, pc_options = default_client_options\<rparr>"

definition sample_http_world :: "http_reply list \<Rightarrow> world" where
  "sample_http_world rs = (sample_bus_world [])\<lparr>w_http := rs\<rparr>"

lemma first_reply_sample [simp]: "first_reply (sample_http_world (r # rs)) = r"
  by (simp add: first_reply_def sample_http_world_def)

theorem request_outcome_witness:
  "\<exists>response. fst (perform sample_client default_request ''ping'' (sample_http_world [ok_reply 204 [''a'', ''b'']]))
     = Inr response \<and> rsp_body response = ''ab'' \<and>
   (\<exists>response. fst (perform sample_client default_request ''ping''
      (sample_http_world [(ok_reply 204 [''a'', ''b''])\<lparr>hr_perform_first := False\<rparr>]))
     = Inr response \<and> rsp_body response = [])"
proof -
  let ?early = "(ok_reply 204 [''a'', ''b''])\<lparr>hr_perform_first := False\<rparr>"
  let ?w = "sample_http_world [ok_reply 204 [''a'', ''b'']]" and ?v = "sample_http_world [?early]"
  have "fst (perform sample_client default_request ''ping'' ?w)
      = Inr ((response_argument (ok_reply 204 [''a'', ''b'']))\<lparr>rsp_status := 204\<rparr>)"
    "fst (perform sample_client default_request ''ping'' ?v) = Inr ((response_argument ?early)\<lparr>rsp_status := 204\<rparr>)"
    by (simp_all add: perform_conv require_success_def response_argument_def Let_def)
  with request_outcome [OF prod.collapse [symmetric], of ?w sample_client default_request "''ping''"]
    request_outcome [OF prod.collapse [symmetric], of ?v sample_client default_request "''ping''"]
  show ?thesis by simp
qed

section \<open>Names in paths\<close>

definition create_request :: "podman_client \<Rightarrow> string \<Rightarrow> http_request" where
  "create_request c body = default_request\<lparr>req_method := ''POST'',
     req_path := versioned_path c ''/libpod/containers/create'',
     req_headers := [''Content-Type: application/json''], req_body := Some body\<rparr>"

text \<open>What a specification must satisfy, in words: the pattern of names and positive limits.\<close>

definition positive :: "i64 option \<Rightarrow> bool" where
  "positive x \<longleftrightarrow> (\<forall>v. x = Some v \<longrightarrow> 0 < sint v)"

definition limits_ok :: "resource_limits \<Rightarrow> bool" where
  "limits_ok l \<longleftrightarrow>
     (\<forall>cpu. rl_cpu l = Some cpu \<longrightarrow> positive (cpu_period cpu) \<and> positive (cpu_quota cpu) \<and> positive (cpu_shares cpu) \<and>
        (\<forall>s. cpu_cpus cpu = Some s \<longrightarrow> s \<noteq> [] \<and> (\<forall>d \<in> set s. isdigit d \<or> d \<in> {CHR '','', CHR ''-''}))) \<and>
     (\<forall>m. rl_memory l = Some m \<longrightarrow> positive (mem_limit m) \<and> positive (mem_swap m)) \<and>
     (\<forall>p. rl_pids l = Some p \<longrightarrow> positive (pids_limit p))"

definition key_ok :: "string \<Rightarrow> bool" where
  "key_ok k \<longleftrightarrow> k \<noteq> [] \<and> (\<forall>d \<in> set k. 0x20 \<le> byte_of d)"

definition name_ok :: "string \<Rightarrow> bool" where
  "name_ok n \<longleftrightarrow> (\<exists>c cs. n = c # cs \<and> length cs \<le> 127 \<and> isalnum c \<and>
     (\<forall>d \<in> set cs. isalnum d \<or> d \<in> {CHR ''_'', CHR ''.'', CHR ''-''}))"

definition spec_ok :: "container_spec \<Rightarrow> bool" where
  "spec_ok spec \<longleftrightarrow> name_ok (cs_name spec) \<and> key_ok (cs_image spec)
     \<and> (\<forall>(k, v) \<in> set (cs_env spec) \<union> set (cs_labels spec). key_ok k)
     \<and> (\<forall>l. cs_resource_limits spec = Some l \<longrightarrow> limits_ok l)"

lemma require_positive_Inr: "require_positive x f = Inr () \<longleftrightarrow> positive x"
  by (cases x) (auto simp: require_positive_def positive_def guard_def)

lemma validate_cpu_Inr: "validate_cpu cpu = Inr () \<longleftrightarrow>
    positive (cpu_period cpu) \<and> positive (cpu_quota cpu) \<and> positive (cpu_shares cpu) \<and>
    (\<forall>s. cpu_cpus cpu = Some s \<longrightarrow> s \<noteq> [] \<and> (\<forall>d \<in> set s. isdigit d \<or> d \<in> {CHR '','', CHR ''-''}))"
  unfolding validate_cpu_def result_simps
  by (auto simp: require_positive_Inr valid_cpuset_def list_all_iff split: option.splits)

lemma option_check_Inr:
  "(case x of None \<Rightarrow> Inr () | Some y \<Rightarrow> f y) = Inr () \<longleftrightarrow> (\<forall>y. x = Some y \<longrightarrow> f y = Inr ())"
  by (cases x) simp_all

lemma validate_limits_Inr: "validate_limits l = Inr () \<longleftrightarrow> limits_ok l"
proof -
  have m: "validate_memory m = Inr () \<longleftrightarrow> positive (mem_limit m) \<and> positive (mem_swap m)" for m
    by (simp add: validate_memory_def bind_result_Inr require_positive_Inr)
  show ?thesis
    unfolding validate_limits_def limits_ok_def by (simp add: bind_result_Inr option_check_Inr m validate_cpu_Inr require_positive_Inr)
qed

lemma valid_key_iff: "valid_key k \<longleftrightarrow> key_ok k" "k \<noteq> [] \<and> \<not> has_control k \<longleftrightarrow> key_ok k"
  by (auto simp: valid_key_def key_ok_def has_control_def list_ex_iff not_less)

lemma valid_name_iff: "valid_container_name n \<longleftrightarrow> name_ok n"
  by (cases n) (auto simp: valid_container_name_def name_ok_def list_all_iff)

lemma check_keys_Inr:
  "check_all (\<lambda>(k, v). guard (valid_key k) e) kvs = Inr () \<longleftrightarrow> (\<forall>(k, v) \<in> set kvs. key_ok k)"
  by (auto simp: check_all_Inr guard_Inr valid_key_iff(1))

lemma validate_spec_Inr: "validate_container_spec spec = Inr () \<longleftrightarrow> spec_ok spec"
  unfolding validate_container_spec_def spec_ok_def
  by (simp add: bind_result_Inr guard_Inr check_keys_Inr valid_name_iff valid_key_iff(2) option_check_Inr
      validate_limits_Inr ball_Un conj_assoc)

text \<open>Checks that only fail with these kinds of error.\<close>

definition refuses :: "unit Result \<Rightarrow> bool" where
  "refuses r \<longleftrightarrow> (\<forall>e. r = Inl e \<longrightarrow> kind e \<in> {Invalid_argument, Policy})"

lemma refuses_guard: "k \<in> {Invalid_argument, Policy} \<Longrightarrow> refuses (guard c (err k msg))"
  by (simp add: refuses_def guard_Inl)

lemma refuses_bind: "refuses r \<Longrightarrow> (\<And>x. refuses (f x)) \<Longrightarrow> refuses (bind_result r f)"
  unfolding refuses_def bind_result_Inl by blast

lemma refuses_option: "refuses r \<Longrightarrow> (\<And>y. refuses (h y)) \<Longrightarrow> refuses (case x of None \<Rightarrow> r | Some y \<Rightarrow> h y)"
  by (cases x) simp_all

lemma refuses_pair: "(\<And>a b. refuses (p a b)) \<Longrightarrow> refuses (case z of (a, b) \<Rightarrow> p a b)"
  by (cases z) simp

lemma refuses_none: "refuses (Inr ())"
  by (simp add: refuses_def)

lemmas refuses_intros = refuses_guard refuses_bind refuses_option refuses_pair refuses_none

lemma refuses_all: "(\<And>x. refuses (g x)) \<Longrightarrow> refuses (check_all g xs)"
  by (induction xs) (simp_all add: refuses_none refuses_bind)

lemma validate_spec_Inl: "refuses (validate_container_spec spec)"
  unfolding validate_container_spec_def validate_limits_def validate_cpu_def validate_memory_def require_positive_def
  by (intro refuses_intros refuses_all) simp_all

text \<open>
  C20: \<open>create_container\<close> sends nothing unless the specification is acceptable: the name matches
  \<open>[A-Za-z0-9][A-Za-z0-9_.-]{0,127}\<close>, the image, environment and label keys are not empty and have no
  control characters, and every limit given is positive as a signed 64-bit number. Otherwise it
  makes exactly one request, with a JSON body that means the specification.
\<close>

theorem create_container_request:
  "(\<not> spec_ok spec \<longrightarrow> (\<exists>e. create_container c spec w = (Inl e, w) \<and> kind e \<in> {Invalid_argument, Policy})) \<and>
   (spec_ok spec \<longrightarrow> (\<exists>text. read_json text = Some (spec_json spec) \<and>
      create_container c spec w = perform c (create_request c text) ''create container'' w))"
proof (cases "validate_container_spec spec")
  case (Inl e)
  then have "\<not> spec_ok spec" by (simp flip: validate_spec_Inr)
  with Inl validate_spec_Inl [of spec] show ?thesis
    by (simp add: refuses_def create_container_def create_json_conv bind_io_def lift_io_def)
next
  case (Inr u)
  then have "spec_ok spec" by (simp flip: validate_spec_Inr)
  with Inr show ?thesis
    by (simp add: create_container_def create_json_conv bind_io_def lift_io_def create_request_def read_print_json
        exI [of _ "print_json (spec_json spec)"])
qed

theorem create_container_request_witness:
  "(\<exists>text. read_json text = Some (spec_json sample_spec) \<and>
      create_container sample_client sample_spec (sample_http_world []) =
        perform sample_client (create_request sample_client text) ''create container'' (sample_http_world [])) \<and>
   (\<exists>e. create_container sample_client (sample_spec\<lparr>cs_name := ''-x''\<rparr>) (sample_http_world []) = (Inl e, sample_http_world []))"
proof -
  have "validate_container_spec sample_spec = Inr ()" by code_simp
  then have "spec_ok sample_spec" by (simp add: validate_spec_Inr)
  moreover have "\<not> spec_ok (sample_spec\<lparr>cs_name := ''-x''\<rparr>)" by (simp add: spec_ok_def name_ok_def ctype_defs)
  ultimately show ?thesis using create_container_request by blast
qed

lemma decode_encoded: "url_decode_component (url_encode_component s) p = Inr s"
  using decode_encode_loop [of p "[]" s "[]"] by (simp add: url_decode_component_def)

text \<open>
  The segments of a path up to the query. libcurl, which is not told to leave paths as they are
  (\<open>CURLOPT_PATH_AS_IS\<close>), removes a segment that is a dot or, with the one before it, a dot-dot,
  escaped or not, as RFC 3986 says; a path without such segments is sent unchanged.
\<close>

definition url_segments :: "path \<Rightarrow> string list" where
  "url_segments p = split_on (CHR ''/'') (takeWhile (\<lambda>d. d \<noteq> CHR ''?'') p)"

definition dot_segment :: "string \<Rightarrow> bool" where
  "dot_segment s \<longleftrightarrow> url_decode_component s False \<in> {Inr ''.'', Inr ''..''}"

text \<open>
  \<open>seg\<close> is a segment between those of the collection of containers and \<open>rest\<close>, and none of the
  others is removed.
\<close>

definition in_segment :: "podman_client \<Rightarrow> string \<Rightarrow> string list \<Rightarrow> path \<Rightarrow> bool" where
  "in_segment c seg rest p \<longleftrightarrow>
     url_segments p = url_segments (versioned_path c ''/libpod/containers'') @ seg # rest
     \<and> (\<forall>s \<in> set (url_segments (versioned_path c ''/libpod/containers'') @ rest). \<not> dot_segment s)"

lemma encode_unreserved: "\<forall>d \<in> set s. unreserved d \<Longrightarrow> url_encode_component s = s"
  by (induction s) simp_all

lemma dot_segment_encoded: "dot_segment (url_encode_component s) \<longleftrightarrow> s = ''.'' \<or> s = ''..''"
  unfolding dot_segment_def decode_encoded by (simp only: insert_iff empty_iff sum.inject simp_thms)

lemma dot_segment_unreserved: "\<forall>d \<in> set s. unreserved d \<Longrightarrow> dot_segment s \<longleftrightarrow> s = ''.'' \<or> s = ''..''"
  using dot_segment_encoded [of s] by (simp add: encode_unreserved)

lemma unreserved_plain: "unreserved d \<Longrightarrow> d \<noteq> CHR ''/'' \<and> d \<noteq> CHR ''?''"
  by (auto simp: unreserved_def ctype_defs)

lemma url_segments_plain:
  assumes "\<forall>d \<in> set a. unreserved d \<or> d = CHR ''%''"
  shows "url_segments (a @ CHR ''/'' # p) = a # url_segments p" "url_segments a = [a]"
    "url_segments (a @ CHR ''?'' # p) = [a]"
proof -
  have no: "CHR ''/'' \<notin> set a" "\<forall>d \<in> set a. d \<noteq> CHR ''?''" using assms unreserved_plain by fastforce+
  then show "url_segments (a @ CHR ''/'' # p) = a # url_segments p" "url_segments a = [a]"
    "url_segments (a @ CHR ''?'' # p) = [a]"
    by (simp_all add: url_segments_def takeWhile_append2 split_on_append split_on_single takeWhile_eq_all_conv [THEN iffD2])
qed

text \<open>The path of an operation on a container: the version, the collection, and what follows.\<close>

lemma versioned_segments:
  assumes "\<forall>d \<in> set (pt_api_version (pc_target c)). unreserved d"
  obtains pre where "\<And>p. url_segments (versioned_path c (CHR ''/'' # p)) = pre @ url_segments p"
    "\<forall>s \<in> set pre. \<not> dot_segment s"
proof -
  define v where "v = (case pt_api_version (pc_target c) of [] \<Rightarrow> [] | d # ds \<Rightarrow> if d = CHR ''v'' then ds else d # ds)"
  have "set v \<subseteq> set (pt_api_version (pc_target c))" by (cases "pt_api_version (pc_target c)") (auto simp: v_def)
  moreover have "unreserved (CHR ''v'')" by code_simp
  ultimately have v: "\<forall>d \<in> set (CHR ''v'' # v). unreserved d" using assms by auto
  have path: "versioned_path c (CHR ''/'' # p) = (if v = [] then [] else CHR ''/'' # CHR ''v'' # v) @ CHR ''/'' # p" for p
    by (simp add: versioned_path_def v_def Let_def)
  let ?pre = "if v = [] then [[]] else [[], CHR ''v'' # v]"
  have empty: "url_segments (CHR ''/'' # p) = [] # url_segments p" for p
    using url_segments_plain(1) [of "[]" p] by simp
  have "url_segments (CHR ''v'' # v @ CHR ''/'' # p) = (CHR ''v'' # v) # url_segments p" for p
    using url_segments_plain(1) [of "CHR ''v'' # v" p] v by simp
  then have "url_segments (versioned_path c (CHR ''/'' # p)) = ?pre @ url_segments p" for p
    unfolding path by (simp add: empty)
  moreover have "\<not> dot_segment []" using dot_segment_unreserved [of "[]"] by simp
  moreover have "\<not> dot_segment (CHR ''v'' # v)" using dot_segment_unreserved [OF v] by simp
  ultimately show thesis by (intro that [of ?pre]) auto
qed

lemma in_segment_name:
  assumes "\<forall>d \<in> set (pt_api_version (pc_target c)). unreserved d" "\<forall>d \<in> set seg. unreserved d \<or> d = CHR ''%''"
  shows "in_segment c seg [''start''] (versioned_path c (''/libpod/containers/'' @ seg @ ''/start''))"
    "in_segment c seg [''stop''] (versioned_path c (''/libpod/containers/'' @ seg @ ''/stop?timeout='' @ q))"
    "in_segment c seg [] (versioned_path c (''/libpod/containers/'' @ seg @ ''?force='' @ q))"
proof -
  obtain pre where pre: "\<And>p. url_segments (versioned_path c (CHR ''/'' # p)) = pre @ url_segments p"
      "\<forall>s \<in> set pre. \<not> dot_segment s"
    using versioned_segments [OF assms(1)] by blast
  have letters: "\<forall>d \<in> set ''libpod''. unreserved d" "\<forall>d \<in> set ''containers''. unreserved d"
    "\<forall>d \<in> set ''start''. unreserved d" "\<forall>d \<in> set ''stop''. unreserved d" by code_simp+
  have word: "\<not> dot_segment ''libpod''" "\<not> dot_segment ''containers''" "\<not> dot_segment ''start''" "\<not> dot_segment ''stop''"
    by (simp_all add: dot_segment_unreserved [OF letters(1)] dot_segment_unreserved [OF letters(2)]
        dot_segment_unreserved [OF letters(3)] dot_segment_unreserved [OF letters(4)])
  have coll: "url_segments (''libpod/containers/'' @ p) = [''libpod'', ''containers''] @ url_segments p" for p
    using url_segments_plain(1) [of "''libpod''" "''containers/'' @ p"] url_segments_plain(1) [of "''containers''" p]
      letters by simp
  have base: "url_segments (versioned_path c ''/libpod/containers'') = pre @ [''libpod'', ''containers'']"
    using url_segments_plain(1) [of "''libpod''" "''containers''"] url_segments_plain(2) [of "''containers''"]
      letters pre(1) [of "''libpod/containers''"] by simp
  have last: "url_segments (seg @ ''/start'') = [seg, ''start'']"
    "url_segments (seg @ ''/stop?timeout='' @ q) = [seg, ''stop'']" "url_segments (seg @ ''?force='' @ q) = [seg]"
    using url_segments_plain(1) [OF assms(2), of "''start''"] url_segments_plain(2) [of "''start''"]
      url_segments_plain(1) [OF assms(2), of "''stop?timeout='' @ q"] url_segments_plain(3) [of "''stop''" "''timeout='' @ q"]
      url_segments_plain(3) [OF assms(2), of "''force='' @ q"] letters by simp_all
  have in_seg: "in_segment c seg rest (versioned_path c (CHR ''/'' # ''libpod/containers/'' @ p))"
    if "url_segments p = seg # rest" "\<forall>s \<in> set rest. \<not> dot_segment s" for rest p
    unfolding in_segment_def base unfolding pre(1) coll that(1) using pre(2) word(1,2) that(2)
    by (simp only: append_assoc append_Cons append_Nil set_append set_simps ball_Un ball_simps simp_thms)
  show "in_segment c seg [''start''] (versioned_path c (''/libpod/containers/'' @ seg @ ''/start''))"
    using in_seg [OF last(1)] word(3) by simp
  show "in_segment c seg [''stop''] (versioned_path c (''/libpod/containers/'' @ seg @ ''/stop?timeout='' @ q))"
    using in_seg [OF last(2)] word(4) by simp
  show "in_segment c seg [] (versioned_path c (''/libpod/containers/'' @ seg @ ''?force='' @ q))"
    using in_seg [OF last(3)] by simp
qed

text \<open>
  C33: Starting, stopping and removing a container make one request each, in which the name appears as
  one segment of unreserved characters and escapes that decodes to the name, whatever
  characters it has. It is the only segment that libcurl may take for a dot segment, and is one exactly
  if the name is a dot or a dot-dot: any other name stays in its segment, these two leave it. A
  negative timeout is refused and nothing is sent.
\<close>

theorem container_name_in_one_segment:
  assumes "hr_init (first_reply w)" "\<forall>d \<in> set (pt_api_version (pc_target c)). unreserved d"
  shows "\<exists>seg. (\<forall>d \<in> set seg. unreserved d \<or> d = CHR ''%'') \<and> url_decode_component seg False = Inr name \<and>
    (dot_segment seg \<longleftrightarrow> name = ''.'' \<or> name = ''..'') \<and>
    (let start = versioned_path c (''/libpod/containers/'' @ seg @ ''/start'');
         stop = versioned_path c (''/libpod/containers/'' @ seg @ ''/stop?timeout='' @ show_int (sint t));
         remove = versioned_path c (''/libpod/containers/'' @ seg @ ''?force='' @ (if force then ''true'' else ''false''))
     in in_segment c seg [''start''] start \<and> in_segment c seg [''stop''] stop \<and> in_segment c seg [] remove \<and>
       w_log (snd (start_container c name w)) =
         w_log w @ [request_entry c (default_request\<lparr>req_method := ''POST'', req_path := start\<rparr>)] \<and>
       w_log (snd (remove_container c name force w)) =
         w_log w @ [request_entry c (default_request\<lparr>req_method := ''DELETE'', req_path := remove\<rparr>)] \<and>
       (if sint t < 0 then \<exists>e. stop_container c name t w = (Inl e, w)
        else w_log (snd (stop_container c name t w)) =
          w_log w @ [request_entry c (default_request\<lparr>req_method := ''POST'', req_path := stop\<rparr>)]))"
proof -
  have chars: "\<forall>d \<in> set (url_encode_component name). unreserved d \<or> d = CHR ''%''" using url_encode_chars by blast
  note seg = in_segment_name [OF assms(2) chars]
  have sent: "w_log (snd (perform c req operation w)) = w_log w @ [request_entry c req]" for req operation
    using assms(1) by (simp add: perform_conv Let_def)
  have stop: "if sint t < 0 then \<exists>e. stop_container c name t w = (Inl e, w)
      else w_log (snd (stop_container c name t w)) = w_log w @ [request_entry c (default_request\<lparr>req_method := ''POST'',
        req_path := versioned_path c (''/libpod/containers/'' @ url_encode_component name @ ''/stop?timeout=''
          @ show_int (sint t))\<rparr>)]"
  proof (cases "sint t < 0")
    case True
    then show ?thesis by (simp add: stop_container_def fail_io_def)
  next
    case False
    show ?thesis unfolding stop_container_def if_not_P [OF False] Let_def by (rule sent)
  qed
  show ?thesis
    unfolding Let_def start_container_def remove_container_def
    by (intro exI [of _ "url_encode_component name"] conjI chars decode_encoded dot_segment_encoded seg sent stop)
qed

theorem container_name_in_one_segment_witness:
  "\<exists>seg. url_decode_component seg False = Inr ''../x?'' \<and> \<not> dot_segment seg \<and>
    url_segments (versioned_path sample_client (''/libpod/containers/'' @ seg @ ''/start'')) =
      [[], ''v5.0.0'', ''libpod'', ''containers'', seg, ''start''] \<and>
    w_log (snd (start_container sample_client ''../x?'' (sample_http_world [ok_reply 204 []]))) =
      [request_entry sample_client (default_request\<lparr>req_method := ''POST'',
        req_path := versioned_path sample_client (''/libpod/containers/'' @ seg @ ''/start'')\<rparr>)]"
proof -
  have w: "hr_init (first_reply (sample_http_world [ok_reply 204 []]))" "w_log (sample_http_world [ok_reply 204 []]) = []"
    by (simp_all add: sample_http_world_def first_reply_def)
  have v: "\<forall>d \<in> set (pt_api_version (pc_target sample_client)). unreserved d"
    and base: "url_segments (versioned_path sample_client ''/libpod/containers'') = [[], ''v5.0.0'', ''libpod'', ''containers'']"
    by code_simp+
  have name: "\<not> (''../x?'' = ''.'' \<or> ''../x?'' = ''..'')" by simp
  from container_name_in_one_segment [OF w(1) v, of "''../x?''" 0 True] show ?thesis
    unfolding Let_def in_segment_def base w(2) by (elim exE conjE) (rule exI, simp only: append_Cons append_Nil name simp_thms)
qed

section \<open>Label filters\<close>

definition quoted :: "string \<Rightarrow> string" where
  "quoted f = CHR 0x22 # concat (map filter_char f) @ [CHR 0x22]"

definition printable :: "string \<Rightarrow> bool" where
  "printable f \<longleftrightarrow> (\<forall>d \<in> set f. 0x20 \<le> byte_of d)"

lemma filters_loop_conv:
  "filters_loop out first fs = out @ (if first \<or> fs = [] then [] else '','') @ join_comma (map quoted fs)"
  by (induction out first fs rule: filters_loop.induct) (auto simp: quoted_def join_comma_Cons)

lemma filter_char_json: "0x20 \<le> byte_of d \<Longrightarrow> filter_char d = json_escape_char d"
  by (auto simp: filter_char_def json_escape_char_def)

lemma quoted_json: "printable f \<Longrightarrow> quoted f = json_string f"
  by (induction f) (simp_all add: quoted_def json_string_def append_json_string_def printable_def filter_char_json)

lemma filters_json_conv:
  "filters_json fs = CHR ''{'' # json_string ''label'' @ '':['' @ join_comma (map quoted fs) @ '']}''"
  by (simp add: filters_json_def filters_loop_conv json_string_def append_json_string_def json_escape_char_def)

lemma filters_json_printable:
  assumes "\<forall>f \<in> set fs. printable f"
  shows "filters_json fs = print_json (J_object [(''label'', J_array (map J_string fs))])"
proof -
  have "map quoted fs = map json_string fs" using assms by (simp add: quoted_json)
  then show ?thesis unfolding filters_json_conv by (simp only:, simp add: comp_def)
qed

lemma read_quoted: "read_chars (concat (map filter_char f) @ CHR 0x22 # s) = (if printable f then Some (f, s) else None)"
proof (induction f)
  case (Cons d f)
  consider "d = CHR 0x22 \<or> d = CHR 0x5C" | "d \<noteq> CHR 0x22" "d \<noteq> CHR 0x5C" "byte_of d < 0x20"
    | "d \<noteq> CHR 0x22" "d \<noteq> CHR 0x5C" "0x20 \<le> byte_of d" by linarith
  then show ?case
  proof cases
    case 1
    then show ?thesis using Cons
      by (auto simp: filter_char_def read_chars.simps [of "_ # _"] unescape_def put_char_def printable_def)
  next
    case 2
    then show ?thesis by (simp add: filter_char_def read_chars.simps [of "d # _"] printable_def not_le)
  next
    case 3
    with Cons show ?thesis by (simp add: filter_char_json read_escaped put_char_def printable_def)
  qed
qed (simp add: printable_def)

lemma read_items_unprintable:
  "\<exists>f \<in> set fs. \<not> printable f \<Longrightarrow> read_items n (join_comma (map quoted fs) @ s) = None"
proof (induction fs arbitrary: n)
  case (Cons f fs)
  have head: "join_comma (map quoted (f # fs)) @ s = CHR 0x22 # concat (map filter_char f) @ CHR 0x22 #
      (if fs = [] then s else CHR '','' # join_comma (map quoted fs) @ s)"
    by (simp add: join_comma_Cons quoted_def)
  show ?case
  proof (cases n)
    case (Suc m)
    show ?thesis
    proof (cases m)
      case 0
      then show ?thesis by (simp add: Suc)
    next
      case m: (Suc k)
      have "fs \<noteq> [] \<and> read_items m (join_comma (map quoted fs) @ s) = None" if "printable f"
        using Cons that by auto
      then show ?thesis
        unfolding head Suc m by (auto simp: read_quoted)
    qed
  qed simp
qed simp

text \<open>
  C34: The query for listed containers means the labels asked for exactly when no label has a control
  character: the JSON of the filters reads back as the object with those labels, and does not
  read at all otherwise, since \<open>filters_query\<close> escapes only quotation marks and backslashes.
\<close>

theorem label_filters_read_back:
  "(read_json (filters_json fs) = Some (J_object [(''label'', J_array (map J_string fs))])) =
     (\<forall>f \<in> set fs. \<forall>d \<in> set f. 0x20 \<le> byte_of d)"
proof (cases "\<forall>f \<in> set fs. printable f")
  case True
  then show ?thesis
    unfolding filters_json_printable [OF True] read_print_json by (simp add: printable_def)
next
  case False
  then obtain f fs' where fs: "fs = f # fs'" by (cases fs) auto
  have none: "read_items n (join_comma (map quoted fs) @ s) = None" for n s
    by (rule read_items_unprintable) (use False in blast)
  obtain t where t: "join_comma (map quoted fs) = CHR 0x22 # t"
    by (cases "fs' = []") (simp_all add: fs join_comma_Cons quoted_def)
  have v: "read_value n (CHR ''['' # join_comma (map quoted fs) @ s) = None" for n s
    by (cases n) (simp_all add: none, simp add: t)
  have key: "read_chars (tl (json_string ''label'') @ s) = Some (''label'', s)" for s by (rule read_json_string)
  obtain k where k: "json_string ''label'' = CHR 0x22 # k" using json_string_head by blast
  have "read_fields n (json_string ''label'' @ '':['' @ join_comma (map quoted fs) @ '']}'') = None" for n
    using key v by (cases n) (simp_all add: k)
  then have "read_value n (filters_json fs) = None" for n
    unfolding filters_json_conv by (cases n) (simp_all add: k)
  then have "read_json (filters_json fs) = None" by (simp add: read_json_def)
  with False show ?thesis by (auto simp: printable_def)
qed

theorem label_filters_read_back_witness:
  "read_json (filters_json [''a=1'']) = Some (J_object [(''label'', J_array [J_string ''a=1''])]) \<and>
   read_json (filters_json [[CHR 0x0A]]) \<noteq> Some (J_object [(''label'', J_array [J_string [CHR 0x0A]])])"
  using label_filters_read_back [of "[''a=1'']"] label_filters_read_back [of "[[CHR 0x0A]]"] by simp

end
