(* ===== verification/Podman_Upload.thy ===== *)
theory Podman_Upload
  imports Podman_Properties Posix_Calls Installer_Properties
begin

text \<open>
  The upload of an image archive: the callback \<open>read_fd_upload\<close> in 64-bit arithmetic, and what
  libcurl is handed over a whole transfer, for any sequence of reads it asks for.
\<close>

section \<open>One call of the callback\<close>

text \<open>Bounds of a read that hold under any schedule and any interference.\<close>

lemma sys_read_length: "sys_read i off n w = (Inr s, w') \<Longrightarrow> length s \<le> n"
  by (auto simp: sys_read_def syscall_def transfer_def split: prod.splits option.splits node.splits)

lemma pread_loop_length: "pread_loop fd off n w = (Inr s, w') \<Longrightarrow> length s \<le> unat n"
proof (induction fd off n w rule: pread_loop.induct)
  case (1 fd off n w)
  obtain r w1 where r: "sys_read fd (unat off) (unat n) w = (r, w1)" by fastforce
  with 1 show ?case
    by (cases r) (auto simp: pread_loop.simps [of fd off n w] dest: sys_read_length split: if_splits)
qed

lemma unat_min: "unat (min (a :: u64) b) = min (unat a) (unat b)"
  by (simp add: min_def word_le_nat_alt)

lemma upload_request_unat:
  assumes "up_offset u \<le> up_size u"
  shows "unat (upload_request u a b) = min (unat (a * b)) (min (unat (up_size u) - unat (up_offset u)) (2 ^ 63 - 1))"
  using assms by (simp add: upload_request_def Let_def unat_min unat_sub)

lemma unat_advance:
  assumes "off \<le> (bytes :: u64)" "n \<le> unat bytes - unat off"
  shows "unat (off + word_of_nat n) = unat off + n" "off + word_of_nat n \<le> bytes"
proof -
  have le: "unat off \<le> unat bytes" using assms(1) by (simp add: word_le_nat_alt)
  then have "unat bytes < 2 ^ LENGTH(64)" using unsigned_less [of bytes] by simp
  with le assms(2) have s: "unat off + n < 2 ^ 64" by simp
  then have "unat (word_of_nat n :: u64) = n" using of_nat_inverse [OF refl, of n, where 'a = 64] by simp
  with s show u: "unat (off + word_of_nat n) = unat off + n" by (simp add: unat_add_lem [THEN iffD1])
  from le assms(2) show "off + word_of_nat n \<le> bytes" by (simp add: word_le_nat_alt u)
qed

text \<open>
  C18: The upload callback never hands over more than it was asked for and never reads past the size of
  the archive, in 64-bit arithmetic and whatever else happens: the offset grows by exactly the
  number of bytes handed over, without wrapping around, and stays within the size.
\<close>

theorem upload_callback_bounded:
  assumes "up_offset u \<le> up_size u" "read_fd_upload a b u w = (Inr (s, u'), w')"
  shows "length s \<le> unat (a * b) \<and> unat (up_offset u') = unat (up_offset u) + length s \<and>
    up_offset u' \<le> up_size u' \<and> up_size u' = up_size u \<and> up_fd u' = up_fd u"
proof (cases "a * b = 0 \<or> up_offset u \<ge> up_size u")
  case True
  with assms show ?thesis by (auto simp: read_fd_upload_def return_io_def)
next
  case False
  let ?n = "upload_request u a b"
  obtain r w1 where r: "pread_loop (up_fd u) (up_offset u) ?n w = (r, w1)" by fastforce
  with assms(2) False have res: "r = Inr s" "u' = u\<lparr>up_offset := up_offset u + word_of_nat (length s)\<rparr>"
    by (auto simp: read_fd_upload_def either_io_def return_io_def fail_io_def split: sum.splits)
  have "length s \<le> unat ?n" using pread_loop_length r res(1) by blast
  then have "length s \<le> unat (a * b)" "length s \<le> unat (up_size u) - unat (up_offset u)"
    unfolding upload_request_unat [OF assms(1)] by simp_all
  with unat_advance [OF assms(1) this(2)] res(2) show ?thesis by simp
qed

definition sample_upload :: fd_upload where
  "sample_upload = \<lparr>up_fd = 4, up_offset = 1, up_size = 3\<rparr>"

theorem upload_callback_bounded_witness:
  "\<exists>s u' w'. read_fd_upload 2 8 sample_upload (sample_world []) = (Inr (s, u'), w') \<and> s = ''ld'' \<and> up_offset u' = 3"
proof -
  let ?r = "read_fd_upload 2 8 sample_upload (sample_world [])"
  have "(case fst ?r of Inr (s, u') \<Rightarrow> s = ''ld'' | Inl e \<Rightarrow> False)" by code_simp
  then obtain s u' where "fst ?r = Inr (s, u')" and s: "s = ''ld''"
    by (cases "fst ?r") auto
  note r = eq_of_fst [OF this(1)]
  have le: "up_offset sample_upload \<le> up_size sample_upload" by (simp add: sample_upload_def)
  have "unat (up_offset u') = 3"
    using upload_callback_bounded [OF le r] s by (simp add: sample_upload_def)
  then have "up_offset u' = 3" by (simp add: word_unat_eq_iff)
  with r s show ?thesis by blast
qed

section \<open>The whole transfer\<close>

lemma wp_pread_loop:
  assumes "calm w" "inodes (w_fs w) i = Some nd" "i_node nd = Reg s"
    "\<And>k w'. idle w w' \<Longrightarrow> Q (take k (take (unat n) (drop (unat off) s))) w'" "\<And>e w'. idle w w' \<Longrightarrow> E e w'"
  shows "wp (pread_loop i off n) Q E w"
  using assms
proof (induction i off n w rule: pread_loop.induct)
  case (1 i off n w)
  obtain r w1 where r: "sys_read i (unat off) (unat n) w = (r, w1)" by fastforce
  show ?case
  proof (cases r)
    case (Inr t)
    have "\<exists>k. t = take k (take (unat n) (drop (unat off) s)) \<and> idle w w1"
      by (rule wp_Inr [OF wp_read [OF "1.prems"(1-3)] r [unfolded Inr], where E = "\<lambda>_ _. True"]) auto
    with "1.prems"(4) r Inr show ?thesis by (auto simp: wp_def pread_loop.simps [of i off n w])
  next
    case (Inl e)
    have w1: "idle w w1"
      by (rule wp_Inl [OF wp_read [OF "1.prems"(1-3)] r [unfolded Inl], where Q = "\<lambda>_ _. True"]) auto
    show ?thesis
    proof (cases "e = EINTR")
      case True
      have "wp (pread_loop i off n) Q E w1"
      proof (rule "1.IH" [OF r [symmetric] Inl True], goal_cases)
        case 2
        then show ?case using "1.prems"(2) idleD(1) [OF w1] by simp
      next
        case 3
        then show ?case by (rule "1.prems"(3))
      next
        case (4 k w')
        then show ?case using "1.prems"(4) idle_trans [OF w1] by blast
      next
        case (5 e w')
        then show ?case using "1.prems"(5) idle_trans [OF w1] by blast
      qed (rule idle_calm [OF w1])
      with r Inl True show ?thesis by (simp add: wp_def pread_loop.simps [of i off n w])
    next
      case False
      with r Inl w1 "1.prems"(5) show ?thesis by (simp add: wp_def pread_loop.simps [of i off n w])
    qed
  qed
qed

text \<open>What was sent is what lies before the offset.\<close>

definition uploading :: "string \<Rightarrow> fd_upload \<Rightarrow> string \<Rightarrow> bool" where
  "uploading s u sent \<longleftrightarrow> up_offset u \<le> up_size u \<and> unat (up_size u) \<le> length s \<and> sent = take (unat (up_offset u)) s"

lemma wp_read_fd_upload:
  assumes "calm w" "inodes (w_fs w) (up_fd u) = Some nd" "i_node nd = Reg s" "uploading s u sent"
    "\<And>t u' w'. idle w w' \<Longrightarrow> uploading s u' (sent @ t) \<Longrightarrow> up_size u' = up_size u \<Longrightarrow> up_fd u' = up_fd u \<Longrightarrow> Q (t, u') w'"
    "\<And>e w'. idle w w' \<Longrightarrow> E e w'"
  shows "wp (read_fd_upload a b u) Q E w"
proof (cases "a * b = 0 \<or> up_offset u \<ge> up_size u")
  case True
  then have "read_fd_upload a b u = return_io ([], u)" by (simp add: read_fd_upload_def)
  then show ?thesis using assms(4,5) idle_refl [OF assms(1)] by (simp add: wp_return)
next
  case False
  have up: "up_offset u \<le> up_size u" "unat (up_size u) \<le> length s" "sent = take (unat (up_offset u)) s"
    using assms(4) by (simp_all add: uploading_def)
  have "wp (either_io (pread_loop (up_fd u) (up_offset u) (upload_request u a b)) (\<lambda>e. fail_io ())
      (\<lambda>t. return_io (t, u\<lparr>up_offset := up_offset u + word_of_nat (length t)\<rparr>))) Q E w"
    unfolding wp_either
  proof (rule wp_pread_loop [OF assms(1-3)], goal_cases)
    case (1 k w')
    let ?n = "unat (upload_request u a b)" and ?o = "unat (up_offset u)"
    let ?t = "take k (take ?n (drop ?o s))"
    have len: "length ?t \<le> unat (up_size u) - ?o"
      using upload_request_unat [OF up(1)] by (simp add: min_def)
    note adv = unat_advance [OF up(1) len]
    have "sent @ ?t = take (?o + length ?t) s"
      unfolding up(3) take_add by (simp add: min_def)
    then have "uploading s (u\<lparr>up_offset := up_offset u + word_of_nat (length ?t)\<rparr>) (sent @ ?t)"
      using up(2) adv by (simp add: uploading_def)
    then show ?case unfolding wp_return by (intro assms(5) [OF 1]) simp_all
  next
    case (2 e w')
    then show ?case by (simp add: wp_fail assms(6))
  qed
  with False show ?thesis by (simp add: read_fd_upload_def)
qed

lemma wp_upload_loop:
  assumes "calm w" "inodes (w_fs w) (up_fd u) = Some nd" "i_node nd = Reg s" "uploading s u sent"
    "\<And>t u' w'. idle w w' \<Longrightarrow> uploading s u' t \<Longrightarrow> up_size u' = up_size u \<Longrightarrow> Q (t, u') w'"
    "\<And>t u' w'. idle w w' \<Longrightarrow> uploading s u' t \<Longrightarrow> up_size u' = up_size u \<Longrightarrow> E t w'"
  shows "wp (upload_loop rs u sent) Q E w"
  using assms
proof (induction rs arbitrary: u sent w)
  case Nil
  then show ?case by (simp add: wp_return idle_refl)
next
  case (Cons r rs)
  obtain a b where r: "r = (a, b)" by fastforce
  show ?case
    unfolding r upload_loop.simps wp_bind wp_catch wp_fail
  proof (rule wp_read_fd_upload [OF Cons.prems(1-4)], goal_cases)
    case (1 t u' w')
    have "wp (upload_loop rs u' (sent @ t)) Q E w'"
    proof (rule Cons.IH [OF idle_calm [OF 1(1)] _ Cons.prems(3) 1(2)], goal_cases)
      case 1
      then show ?case using Cons.prems(2) \<open>idle w w'\<close> \<open>up_fd u' = up_fd u\<close> idleD(1) by simp
    next
      case (2 t' u'' w'')
      then show ?case using idle_trans [OF \<open>idle w w'\<close>] \<open>up_size u' = up_size u\<close> by (intro Cons.prems(5)) auto
    next
      case (3 t' u'' w'')
      show ?case
        by (rule Cons.prems(6) [OF _ 3(2)]) (use 3 idle_trans [OF \<open>idle w w'\<close>] \<open>up_size u' = up_size u\<close> in auto)
    qed
    then show ?case by simp
  next
    case (2 e w')
    show ?case by (rule Cons.prems(6) [OF 2 Cons.prems(4) refl])
  qed
qed

lemma wp_checkI:
  "(\<And>e. E e w) \<Longrightarrow> (c \<Longrightarrow> wp (f ()) Q E w) \<Longrightarrow> wp (bind_io (lift_io (guard c e)) f) Q E w"
  by (simp add: wp_bind wp_guard)

lemma wp_finish:
  "(\<And>e. E e w) \<Longrightarrow> (\<And>r. Q r w) \<Longrightarrow>
     wp (bind_io (finish_perform r response rc) (\<lambda>response. lift_io (require_success op response))) Q E w"
  by (simp add: finish_perform_def wp_bind wp_return wp_get wp_fail wp_lift split: sum.split)

lemma wp_next_reply: "wp next_reply Q E w = Q (first_reply w) (w\<lparr>w_http := tl (w_http w)\<rparr>)"
  by (simp add: wp_def next_reply_conv)

text \<open>What is sent for a file: a prefix of it.\<close>

definition upload_entry :: "podman_client \<Rightarrow> ino \<Rightarrow> string \<Rightarrow> log_entry" where
  "upload_entry c fd sent = Log_upload (c_str (pt_socket_path (pc_target c)))
     (c_str (co_base_url (pc_options c) @ versioned_path c ''/libpod/images/load'')) fd sent"

lemma upload_fits:
  assumes "\<not> (int (length s) < 0 \<or> int (length s) < uint n)"
  shows "unat n \<le> length s"
proof -
  have "uint n = int (unat n)" by simp
  with assms show ?thesis by linarith
qed

lemma wp_load_image_archive_fd:
  assumes "calm w" "inodes (w_fs w) fd = Some nd" "i_node nd = Reg s"
    and Q: "\<And>r w' k. evolves w w' \<Longrightarrow> w_fs w' = w_fs w \<Longrightarrow> unat n \<le> length s \<Longrightarrow> k \<le> unat n \<Longrightarrow>
      w_log w' = w_log w @ [upload_entry c fd (take k s)] \<Longrightarrow> Q r w'"
    and E: "\<And>e w'. evolves w w' \<Longrightarrow> w_fs w' = w_fs w \<Longrightarrow>
      w_log w' = w_log w \<or> unat n \<le> length s \<and> (\<exists>k \<le> unat n. w_log w' = w_log w @ [upload_entry c fd (take k s)]) \<Longrightarrow> E e w'"
  shows "wp (load_image_archive_fd c (Some fd) n) Q E w"
proof -
  have idle: "E e w'" if "idle w w'" for e w' using that by (intro E) (auto dest: idleD)
  have st: "st_size (stat_of nd) = int (length s)" "st_type (stat_of nd) = S_IFREG"
    using assms(3) by (simp_all add: stat_of_def)
  show ?thesis
    unfolding load_image_archive_fd_def option.case wp_bind [of "or_os_error _ _ _"] wp_or_os_error
  proof (rule wp_fstat [OF assms(1)], goal_cases)
    case (1 e w')
    then show ?case by (intro idle)
  next
    case (2 w')
    with assms(2) show ?case by simp
  next
    case (3 nd' w1)
    then have nd': "nd' = nd" using assms(2) by simp
    note fs = idleD(1) [OF 3(1)] and log = idleD(3) [OF 3(1)] and ev = idleD(2) [OF 3(1)]
    show ?case
      unfolding nd' st
    proof (rule wp_checkI, rule idle [OF 3(1)], rule wp_checkI, rule idle [OF 3(1)], rule wp_checkI, rule idle [OF 3(1)], goal_cases)
      case 1
      from 1(2) have n: "unat n \<le> length s" by (rule upload_fits)
      let ?w = "w1\<lparr>w_http := tl (w_http w1)\<rparr>" and ?r = "first_reply w1"
      have fin: "wp (bind_io (finish_perform ?r response rc) (\<lambda>response. lift_io (require_success op response))) Q E w2"
        if "evolves w w2" "w_fs w2 = w_fs w"
          "w_log w2 = w_log w @ [upload_entry c fd (take k s)]" "k \<le> unat n" for response rc op w2 k
      proof (rule wp_finish)
        show "E e w2" for e using that n by (intro E [OF that(1,2)]) blast
        show "Q r w2" for r by (rule Q [OF that(1,2) n that(4,3)])
      qed
      show ?case
        unfolding wp_bind [of next_reply] wp_next_reply Let_def wp_if
      proof (split if_split, intro conjI impI, goal_cases)
        case 1
        show ?case
          unfolding wp_fail by (rule E) (use ev fs log in simp_all)
      next
        case 2
        let ?u = "\<lparr>up_fd = fd, up_offset = 0, up_size = n\<rparr>" and ?w = "w1\<lparr>w_http := tl (w_http w1)\<rparr>"
        have w: "evolves w ?w" "w_fs ?w = w_fs w" "w_log ?w = w_log w" using ev fs log by simp_all
        have handed: "wp (bind_io (log_io (Log_upload (c_str (pt_socket_path (pc_target c)))
              (c_str (co_base_url (pc_options c) @ versioned_path c ''/libpod/images/load'')) fd t))
              (\<lambda>_. finish_perform ?r response rc))
            (\<lambda>response. wp (lift_io (require_success op response)) Q E) E w'"
          if "idle ?w w'" "uploading s u' t" "up_size u' = up_size ?u" for t u' w' response rc op
        proof -
          have e: "evolves w w'" "w_fs w' = w_fs w" "w_log w' = w_log w"
            using evolves_trans [OF w(1) idleD(2) [OF that(1)]] idleD(1,3) [OF that(1)] w by simp_all
          have t: "t = take (unat (up_offset u')) s" "unat (up_offset u') \<le> unat n"
            using that(2,3) by (simp_all add: uploading_def word_le_nat_alt)
          show ?thesis
            unfolding wp_bind wp_log t(1) upload_entry_def [symmetric]
            by (rule fin [unfolded wp_bind, OF _ _ _ t(2)]) (use e in simp_all)
        qed
        show ?case
          unfolding wp_bind [of "either_io _ _ _"] wp_either
        proof (rule wp_upload_loop [OF evolves_calm [OF w(1)] _ assms(3)], goal_cases)
          case 1
          then show ?case using assms(2) w(2) by simp
        next
          case 2
          then show ?case using n by (simp add: uploading_def)
        next
          case (3 t u' w')
          then show ?case unfolding prod.case by (rule handed)
        next
          case (4 t u' w')
          then show ?case by (rule handed)
        qed
      qed
    qed
  qed
qed

text \<open>
  C17: What libcurl is handed for an archive is a prefix of its first \<open>n\<close> bytes, in order, without
  gaps or repetitions, whatever reads it asks for, whatever calls are interrupted or fail, even
  if the callback aborts the transfer, and however short they fall; a size beyond the end of the file is refused before anything is sent,
  a successful upload has been sent to the endpoint of the client, and the file system is left alone.
\<close>

theorem upload_sends_prefix:
  assumes "calm w" "inodes (w_fs w) fd = Some nd" "i_node nd = Reg s"
    and "load_image_archive_fd c (Some fd) n w = (r, w')"
  shows "w_fs w' = w_fs w \<and>
    ((\<exists>e. r = Inl e) \<and> w_log w' = w_log w \<or>
     unat n \<le> length s \<and> (\<exists>k \<le> unat n. w_log w' = w_log w @ [upload_entry c fd (take k s)]))"
proof -
  let ?sent = "\<lambda>w'. unat n \<le> length s \<and> (\<exists>k \<le> unat n. w_log w' = w_log w @ [upload_entry c fd (take k s)])"
  have "wp (load_image_archive_fd c (Some fd) n) (\<lambda>_ w'. w_fs w' = w_fs w \<and> ?sent w')
    (\<lambda>_ w'. w_fs w' = w_fs w \<and> (w_log w' = w_log w \<or> ?sent w')) w"
    by (rule wp_load_image_archive_fd [OF assms(1-3)]) blast+
  with assms(4) show ?thesis by (cases r) (auto simp: wp_def)
qed

definition sample_upload_world :: world where
  "sample_upload_world = (sample_world [])\<lparr>w_http := [(ok_reply 200 [])\<lparr>hr_reads := [(1, 2), (4, 16)]\<rparr>]\<rparr>"

theorem upload_sends_prefix_witness:
  "\<exists>k \<le> 3. w_log (snd (load_image_archive_fd sample_client (Some 4) 3 sample_upload_world)) =
    [upload_entry sample_client 4 (take k ''old'')]"
proof -
  let ?w = sample_upload_world and ?m = "load_image_archive_fd sample_client (Some 4) 3"
  have w: "w_fs ?w = sample_fs" "w_log ?w = []" "calm ?w"
    by (simp_all add: sample_upload_world_def sample_world_def calm_def calm_sched_def)
  have old: "inodes (w_fs ?w) 4 = Some (mk_inode (Reg ''old''))" "i_node (mk_inode (Reg ''old'')) = Reg ''old''"
    by (simp_all add: w(1) sample_fs_def mk_inode_def)
  have "(case fst (?m ?w) of Inr _ \<Rightarrow> True | Inl _ \<Rightarrow> False)" by code_simp
  with upload_sends_prefix [OF w(3) old prod.collapse [symmetric], of sample_client 3] w(2)
  show ?thesis by (auto split: sum.splits)
qed

end
