(* ===== verification/File_Descriptor.thy ===== *)
theory File_Descriptor
  imports Prelude "HOL-Library.AList" "HOL-Library.Multiset"
begin

text \<open>
  The class \<open>FileDescriptor\<close>, of which four source files have the same copy: an object that owns
  a descriptor, with its constructors, move assignment, \<open>reset\<close> and destructor, over all
  objects that are alive and the calls of \<open>close\<close> made so far. The rest of the development does
  not track which descriptors are open; that none is lost or closed twice is shown here.
\<close>

section \<open>The class\<close>

type_synonym handle = nat

text \<open>The value of \<open>fd_\<close> of every object alive, and the descriptors \<open>close\<close> was called with, in order.\<close>

record fd_state =
  fd_values :: "(handle \<times> int) list"
  fd_closed :: "int list"

definition no_objects :: fd_state where
  "no_objects = \<lparr>fd_values = [], fd_closed = []\<rparr>"

definition set_fd :: "handle \<Rightarrow> int \<Rightarrow> fd_state \<Rightarrow> fd_state" where
  "set_fd h fd s = s\<lparr>fd_values := AList.update h fd (fd_values s)\<rparr>"

definition construct_fd :: "handle \<Rightarrow> int \<Rightarrow> fd_state \<Rightarrow> fd_state option" where
  "construct_fd h fd s = (if map_of (fd_values s) h = None then Some (set_fd h fd s) else None)"

definition reset_fd :: "handle \<Rightarrow> int \<Rightarrow> fd_state \<Rightarrow> fd_state option" where
  "reset_fd h fd s =
     (case map_of (fd_values s) h of
        None \<Rightarrow> None
      | Some old \<Rightarrow>
          let s = (if old \<ge> 0 then s\<lparr>fd_closed := fd_closed s @ [old]\<rparr> else s)
          in Some (set_fd h fd s))"

text \<open>\<open>fd_ = std::exchange(other.fd_, -1)\<close>\<close>

definition exchange_fd :: "handle \<Rightarrow> handle \<Rightarrow> fd_state \<Rightarrow> fd_state option" where
  "exchange_fd h other s =
     (case map_of (fd_values s) other of
        None \<Rightarrow> None
      | Some fd \<Rightarrow> Some (set_fd h fd (set_fd other (- 1) s)))"

definition move_construct_fd :: "handle \<Rightarrow> handle \<Rightarrow> fd_state \<Rightarrow> fd_state option" where
  "move_construct_fd h other s =
     (if map_of (fd_values s) h = None then exchange_fd h other s else None)"

definition move_assign_fd :: "handle \<Rightarrow> handle \<Rightarrow> fd_state \<Rightarrow> fd_state option" where
  "move_assign_fd h other s =
     (if h \<noteq> other then
        (case reset_fd h (- 1) s of None \<Rightarrow> None | Some s \<Rightarrow> exchange_fd h other s)
      else if map_of (fd_values s) h = None then None else Some s)"

definition destroy_fd :: "handle \<Rightarrow> fd_state \<Rightarrow> fd_state option" where
  "destroy_fd h s =
     map_option (\<lambda>s. s\<lparr>fd_values := AList.delete h (fd_values s)\<rparr>) (reset_fd h (- 1) s)"

section \<open>Any use of it\<close>

datatype fd_op =
  Construct handle int
| Move_construct handle handle
| Move_assign handle handle
| Reset handle int
| Destroy handle

fun fd_step :: "fd_op \<Rightarrow> fd_state \<Rightarrow> fd_state option" where
  "fd_step (Construct h fd) s = construct_fd h fd s"
| "fd_step (Move_construct h other) s = move_construct_fd h other s"
| "fd_step (Move_assign h other) s = move_assign_fd h other s"
| "fd_step (Reset h fd) s = reset_fd h fd s"
| "fd_step (Destroy h) s = destroy_fd h s"

fun fd_run :: "fd_op list \<Rightarrow> fd_state \<Rightarrow> fd_state option" where
  "fd_run [] s = Some s"
| "fd_run (op # ops) s = (case fd_step op s of None \<Rightarrow> None | Some s \<Rightarrow> fd_run ops s)"

text \<open>The descriptors that were handed to objects, and those objects own.\<close>

abbreviation descriptors :: "int list \<Rightarrow> int multiset" where
  "descriptors fds \<equiv> mset (filter (\<lambda>fd. 0 \<le> fd) fds)"

fun handed :: "fd_op list \<Rightarrow> int multiset" where
  "handed [] = {#}"
| "handed (Construct h fd # ops) = descriptors [fd] + handed ops"
| "handed (Reset h fd # ops) = descriptors [fd] + handed ops"
| "handed (op # ops) = handed ops"

definition owned :: "fd_state \<Rightarrow> int multiset" where
  "owned s = descriptors (map snd (fd_values s))"

definition objects_distinct :: "fd_state \<Rightarrow> bool" where
  "objects_distinct s \<longleftrightarrow> distinct (map fst (fd_values s))"

lemma update_values:
  "distinct (map fst xs) \<Longrightarrow> map_of xs h = Some old \<Longrightarrow>
     descriptors (map snd (AList.update h fd xs)) + descriptors [old] = descriptors (map snd xs) + descriptors [fd]"
  by (induction xs) (auto simp: distinct_update)

lemma update_new_value:
  "map_of xs h = None \<Longrightarrow> descriptors (map snd (AList.update h fd xs)) = descriptors (map snd xs) + descriptors [fd]"
  by (induction xs) (auto split: if_splits)

lemma delete_values:
  "distinct (map fst xs) \<Longrightarrow> map_of xs h = Some old \<Longrightarrow>
     descriptors (map snd (AList.delete h xs)) + descriptors [old] = descriptors (map snd xs)"
  by (induction xs) auto

section \<open>Ownership\<close>

text \<open>What is closed, what is owned and what was handed over so far, given \<open>h\<close> more in one step.\<close>

definition accounts :: "int multiset \<Rightarrow> fd_state \<Rightarrow> fd_state \<Rightarrow> bool" where
  "accounts given s s' \<longleftrightarrow> objects_distinct s' \<and>
     mset (fd_closed s') + owned s' = mset (fd_closed s) + owned s + given"

lemma accounts_trans: "accounts m s s1 \<Longrightarrow> accounts n s1 s2 \<Longrightarrow> accounts (m + n) s s2"
  by (auto simp: accounts_def ac_simps)

lemma reset_accounts:
  assumes "objects_distinct s" "reset_fd h fd s = Some s'"
  shows "accounts (descriptors [fd]) s s'" "map_of (fd_values s') h = Some fd"
proof -
  obtain old where old: "map_of (fd_values s) h = Some old" using assms(2) by (auto simp: reset_fd_def split: option.splits)
  note vals = update_values [OF assms(1) [unfolded objects_distinct_def] old, of fd]
  from vals assms old show "accounts (descriptors [fd]) s s'"
    by (auto simp: reset_fd_def accounts_def owned_def objects_distinct_def set_fd_def distinct_update Let_def)
  from assms(2) old show "map_of (fd_values s') h = Some fd"
    by (auto simp: reset_fd_def set_fd_def Let_def update_conv')
qed

lemma set_new_accounts:
  assumes "objects_distinct s" "map_of (fd_values s) h = None"
  shows "accounts (descriptors [fd]) s (set_fd h fd s)"
  using assms update_new_value [OF assms(2), of fd]
  by (auto simp: accounts_def owned_def objects_distinct_def set_fd_def distinct_update)

lemma set_accounts:
  assumes "objects_distinct s" "map_of (fd_values s) h = Some old" "old < 0"
  shows "accounts (descriptors [fd]) s (set_fd h fd s)"
  using assms update_values [OF _ assms(2), of fd]
  by (auto simp: accounts_def owned_def objects_distinct_def set_fd_def distinct_update)

lemma exchange_accounts:
  assumes "objects_distinct s" "exchange_fd h other s = Some s'" "h \<noteq> other"
    "map_of (fd_values s) h = None \<or> (\<exists>old < 0. map_of (fd_values s) h = Some old)"
  shows "accounts {#} s s'"
proof -
  obtain fd where fd: "map_of (fd_values s) other = Some fd" "s' = set_fd h fd (set_fd other (- 1) s)"
    using assms(2) by (auto simp: exchange_fd_def split: option.splits)
  let ?s = "set_fd other (- 1) s"
  have out: "objects_distinct ?s" "fd_closed ?s = fd_closed s" "owned ?s + descriptors [fd] = owned s"
    using assms(1) update_values [OF assms(1) [unfolded objects_distinct_def] fd(1), of "- 1"]
    by (auto simp: owned_def objects_distinct_def set_fd_def distinct_update)
  have h: "map_of (fd_values ?s) h = map_of (fd_values s) h"
    using assms(3) by (simp add: set_fd_def update_conv')
  from assms(4) have "accounts (descriptors [fd]) ?s s'"
    unfolding fd(2) h [symmetric]
    using set_new_accounts [OF out(1), of h fd] set_accounts [OF out(1), of h _ fd] by blast
  with out show ?thesis by (simp add: accounts_def ac_simps)
qed

lemma step_accounts:
  assumes "objects_distinct s" "fd_step op s = Some s'"
  shows "accounts (handed [op]) s s'"
proof (cases op)
  case (Construct h fd)
  with assms set_new_accounts [OF assms(1), of h fd] show ?thesis by (auto simp: construct_fd_def split: if_splits)
next
  case (Move_construct h other)
  with assms have e: "exchange_fd h other s = Some s'" "map_of (fd_values s) h = None"
    by (auto simp: move_construct_fd_def split: if_splits)
  then have "h \<noteq> other" by (auto simp: exchange_fd_def split: option.splits)
  from exchange_accounts [OF assms(1) e(1) this] e(2) Move_construct show ?thesis by simp
next
  case (Move_assign h other)
  show ?thesis
  proof (cases "h = other")
    case True
    with assms Move_assign show ?thesis by (auto simp: move_assign_fd_def accounts_def split: if_splits)
  next
    case False
    then obtain s1 where s1: "reset_fd h (- 1) s = Some s1" "exchange_fd h other s1 = Some s'"
      using assms(2) Move_assign by (auto simp: move_assign_fd_def split: option.splits)
    note r = reset_accounts [OF assms(1) s1(1)]
    have "accounts {#} s1 s'"
      by (rule exchange_accounts [OF _ s1(2) False]) (use r in \<open>auto simp: accounts_def\<close>)
    with accounts_trans [OF r(1)] Move_assign show ?thesis by fastforce
  qed
next
  case (Reset h fd)
  with assms reset_accounts(1) show ?thesis by simp
next
  case (Destroy h)
  with assms(2) obtain s1 where s1: "reset_fd h (- 1) s = Some s1" "s' = s1\<lparr>fd_values := AList.delete h (fd_values s1)\<rparr>"
    by (auto simp: destroy_fd_def)
  note r = reset_accounts [OF assms(1) s1(1)]
  have "owned s' = owned s1" "objects_distinct s'"
    using r delete_values [OF _ r(2)] by (auto simp: s1(2) owned_def accounts_def objects_distinct_def distinct_delete)
  with r(1) Destroy s1(2) show ?thesis by (simp add: accounts_def)
qed

lemma run_accounts: "objects_distinct s \<Longrightarrow> fd_run ops s = Some s' \<Longrightarrow> accounts (handed ops) s s'"
proof (induction ops arbitrary: s)
  case (Cons op ops)
  then obtain s1 where s1: "fd_step op s = Some s1" "fd_run ops s1 = Some s'" by (auto split: option.splits)
  note a = step_accounts [OF Cons.prems(1) s1(1)]
  have "accounts (handed ops) s1 s'" by (rule Cons.IH [OF _ s1(2)]) (use a in \<open>simp add: accounts_def\<close>)
  from accounts_trans [OF a this] show ?case by (cases op) simp_all
qed (simp add: accounts_def)

text \<open>
  C28: Whatever constructors, moves, assignments to itself, resets and destructors run, in any order:
  the descriptors that were closed, with their multiplicities, and those the objects alive own
  are together exactly those that were handed to the class. So none is lost, none is closed
  while an object still owns it, and none is closed twice unless it was handed over twice; once
  all objects are destroyed, each was closed.
\<close>

theorem descriptors_owned_once:
  assumes "fd_run ops no_objects = Some s"
  shows "mset (fd_closed s) + owned s = handed ops \<and> (fd_values s = [] \<longrightarrow> mset (fd_closed s) = handed ops)"
proof -
  have "objects_distinct no_objects" "owned no_objects = {#}" "fd_closed no_objects = []"
    by (simp_all add: objects_distinct_def owned_def no_objects_def)
  with run_accounts [OF _ assms] show ?thesis by (auto simp: accounts_def owned_def)
qed

theorem descriptors_owned_once_witness:
  "\<exists>s. fd_run [Construct 0 7, Construct 1 (- 1), Move_assign 1 0, Construct 2 9, Move_assign 1 2, Move_assign 1 1,
     Destroy 2, Destroy 1, Destroy 0] no_objects = Some s \<and> mset (fd_closed s) = {#7, 9#}"
proof -
  let ?ops = "[Construct 0 7, Construct 1 (- 1), Move_assign 1 0, Construct 2 9, Move_assign 1 2, Move_assign 1 1,
     Destroy 2, Destroy 1, Destroy 0]"
  have "fd_run ?ops no_objects \<noteq> None \<and> fd_values (the (fd_run ?ops no_objects)) = []" by code_simp
  then obtain s where s: "fd_run ?ops no_objects = Some s" "fd_values s = []" by auto
  from descriptors_owned_once [OF s(1)] s show ?thesis by (auto simp: add_mset_commute)
qed

end
