(* ===== verification/Service_Query.thy ===== *)
theory Service_Query
  imports Service
begin

text \<open>
  The query of a request: the map of its parameters as an instance of the interface
  \<open>multimap\<close>, its well-formedness, and the round trip from an encoded query.
\<close>

section \<open>The map of the parameters\<close>

definition param_values :: "query_params \<Rightarrow> string \<Rightarrow> string list" where
  "param_values params key = (case map_of params key of None \<Rightarrow> [] | Some vs \<Rightarrow> vs)"

definition params_wf :: "query_params \<Rightarrow> bool" where
  "params_wf params \<longleftrightarrow> smap_wf params \<and> (\<forall>p \<in> set params. snd p \<noteq> [])"

lemma query_many_conv: "query_many q key = param_values (qu_params q) key"
  by (simp add: query_many_def param_values_def)

lemma query_one_conv:
  "query_one q key = (case query_many q key of [] \<Rightarrow> None | v # _ \<Rightarrow> Some v)"
  by (simp add: query_many_def query_one_def split: option.split)

lemma params_wf_Nil [simp]: "params_wf []"
  by (simp add: params_wf_def)

lemma params_wf_push [simp]: "params_wf params \<Longrightarrow> params_wf (push_param key value params)"
  by (fastforce simp: params_wf_def push_param_def dest: smap_upd_values)

lemma param_values_push:
  "params_wf params \<Longrightarrow> param_values (push_param key value params) k =
     (if k = key then param_values params key @ [value] else param_values params k)"
  by (simp add: params_wf_def push_param_def param_values_def)

interpretation query_map: multimap "[]" push_param param_values params_wf
proof unfold_locales
  show "param_values [] key = []" for key by (simp add: param_values_def)
qed (simp_all add: param_values_push)

section \<open>Whatever is parsed is well formed\<close>

lemma query_loop_wf: "query_loop remaining params = Inr params' \<Longrightarrow> params_wf params \<Longrightarrow> params_wf params'"
proof (induction remaining params rule: query_loop.induct)
  case (1 remaining params)
  let ?amp = "str_find (CHR ''&'') remaining"
  let ?part = "upto_pos ?amp remaining"
  let ?eq = "str_find (CHR ''='') ?part"
  let ?raw_value = "case ?eq of None \<Rightarrow> [] | Some i \<Rightarrow> drop (i + 1) ?part"
  show ?case
  proof (cases "remaining = []")
    case True
    with "1.prems" show ?thesis by (simp add: query_loop.simps)
  next
    case False
    from "1.prems"(1) obtain key where key: "url_decode_component (upto_pos ?eq ?part) True = Inr key"
      unfolding query_loop.simps [of remaining params] Let_def bind_result_def if_not_P [OF False]
      by (cases "url_decode_component (upto_pos ?eq ?part) True") simp_all
    from "1.prems"(1) obtain v where v: "url_decode_component ?raw_value True = Inr v"
      unfolding query_loop.simps [of remaining params] Let_def bind_result_def if_not_P [OF False] key
      by (cases "url_decode_component ?raw_value True") simp_all
    have wf: "params_wf (push_param key v params)" using "1.prems"(2) by simp
    from "1.prems"(1) have res: "(case ?amp of None \<Rightarrow> Inr (push_param key v params)
        | Some i \<Rightarrow> query_loop (drop (i + 1) remaining) (push_param key v params)) = Inr params'"
      unfolding query_loop.simps [of remaining params] Let_def bind_result_def if_not_P [OF False] key v sum.case .
    show ?thesis
    proof (cases ?amp)
      case None
      with res wf show ?thesis by simp
    next
      case (Some i)
      with res have "query_loop (drop (i + 1) remaining) (push_param key v params) = Inr params'" by simp
      from "1.IH" [OF False refl refl refl refl refl key v refl Some this wf] show ?thesis .
    qed
  qed
qed

text \<open>
  C35: The parameters a query is parsed into form a \<open>std::map\<close> without empty value lists, so a key
  is present exactly if it has a value, and \<open>one\<close> returns the first element of \<open>many\<close>.
\<close>

theorem parsed_query_well_formed:
  assumes "parse_query target = Inr q"
  shows "params_wf (qu_params q) \<and>
    (query_one q key = None \<longleftrightarrow> key \<notin> fst ` set (qu_params q)) \<and>
    (\<forall>v. query_one q key = Some v \<longrightarrow> (\<exists>vs. query_many q key = v # vs))"
proof -
  have wf: "params_wf (qu_params q)"
    using assms query_loop_wf [OF _ params_wf_Nil]
    by (auto simp: parse_query_def bind_result_def split: option.splits sum.splits)
  have "map_of (qu_params q) key = Some vs \<Longrightarrow> vs \<noteq> []" for vs
    using wf map_of_SomeD by (fastforce simp: params_wf_def)
  with wf show ?thesis
    by (auto simp: query_one_def query_many_def map_of_eq_None_iff [symmetric] split: option.splits list.splits)
qed

section \<open>The round trip\<close>

definition encode_param :: "string \<times> string \<Rightarrow> string" where
  "encode_param p = url_encode_component (fst p) @ ''='' @ url_encode_component (snd p)"

fun encode_params :: "(string \<times> string) list \<Rightarrow> string" where
  "encode_params [] = []"
| "encode_params [p] = encode_param p"
| "encode_params (p # ps) = encode_param p @ ''&'' @ encode_params ps"

lemma encoded_chars:
  "c \<in> set (url_encode_component s) \<Longrightarrow> c \<noteq> CHR ''='' \<and> c \<noteq> CHR ''&'' \<and> c \<noteq> CHR ''?''"
  by (drule url_encode_chars) (auto simp: unreserved_def ctype_defs)

lemma no_amp: "CHR ''&'' \<notin> set (encode_param p)"
  using encoded_chars by (auto simp: encode_param_def)

lemma encode_param_ne [simp]: "encode_param p \<noteq> []"
  by (simp add: encode_param_def)

lemma query_loop_param:
  assumes "remaining = encode_param p @ rest" "rest = [] \<or> rest = CHR ''&'' # rest'"
  shows "query_loop remaining params =
    (if rest = [] then Inr (push_param (fst p) (snd p) params)
     else query_loop rest' (push_param (fst p) (snd p) params))"
proof -
  have amp: "str_find (CHR ''&'') remaining = (if rest = [] then None else Some (length (encode_param p)))"
    using assms no_amp [of p] by (auto simp: str_find_None str_find_append simp del: split_paired_All)
  have "CHR ''='' \<notin> set (url_encode_component (fst p))" using encoded_chars by blast
  then have eq: "str_find (CHR ''='') (encode_param p) = Some (length (url_encode_component (fst p)))"
    by (simp add: encode_param_def str_find_append)
  have upto: "upto_pos (str_find (CHR ''&'') remaining) remaining = encode_param p"
    using amp assms by (auto simp: upto_pos_def)
  have parts: "upto_pos (Some (length (url_encode_component (fst p)))) (encode_param p) = url_encode_component (fst p)"
    "drop (length (url_encode_component (fst p)) + 1) (encode_param p) = url_encode_component (snd p)"
    by (simp_all add: upto_pos_def encode_param_def)
  have ne: "remaining \<noteq> []" using assms(1) by simp
  have next_params: "rest \<noteq> [] \<Longrightarrow> drop (length (encode_param p) + 1) remaining = rest'"
    using assms by simp
  show ?thesis
    unfolding query_loop.simps [of remaining params] Let_def upto eq option.case parts
    unfolding url_decode_encode bind_result_def sum.case amp
    using ne next_params by simp
qed

lemma query_loop_encoded:
  "query_loop (encode_params ps) params = Inr (fold (\<lambda>(k, v). push_param k v) ps params)"
proof (induction ps arbitrary: params rule: encode_params.induct)
  case 1
  show ?case by (simp add: query_loop.simps)
next
  case (2 p)
  show ?case using query_loop_param [of "encode_param p" p "[]"] by (simp add: split_beta)
next
  case (3 p p' ps)
  show ?case
    unfolding encode_params.simps(3)
    using query_loop_param [OF refl, of "CHR ''&'' # encode_params (p' # ps)" "encode_params (p' # ps)" p params] 3
    by (simp add: split_beta)
qed

text \<open>
  C25: A query that is built from parameters by percent-encoding keys and values is read back: the
  path is the part before the question mark, \<open>many\<close> returns the values of a key in their order, and
  \<open>one\<close> the first of them, whatever bytes keys and values contain.
\<close>

theorem query_reads_back:
  assumes "CHR ''?'' \<notin> set path"
  shows "\<exists>q. parse_query (path @ ''?'' @ encode_params ps) = Inr q \<and> qu_path q = path \<and>
    query_many q key = map snd (filter (\<lambda>p. fst p = key) ps) \<and>
    query_one q key = map_of ps key"
proof -
  let ?q = "\<lparr>qu_path = path, qu_params = fold (\<lambda>(k, v). push_param k v) ps []\<rparr>"
  have "parse_query (path @ ''?'' @ encode_params ps) = Inr ?q"
    using assms str_find_append [of "CHR ''?''" path "encode_params ps"]
    by (simp add: parse_query_def query_loop_encoded bind_result_def)
  moreover have many: "query_many ?q key = map snd (filter (\<lambda>p. fst p = key) ps)"
    unfolding query_many_conv query.simps by (rule query_map.vals_fold_add_empty)
  moreover have "query_one ?q key = map_of ps key"
    unfolding query_one_conv many by (induction ps) auto
  ultimately show ?thesis by (intro exI [of _ ?q]) simp
qed

theorem parsed_query_well_formed_witness:
  "\<exists>q. parse_query ''/v?a=1&b=%26&a='' = Inr q \<and> params_wf (qu_params q) \<and> query_one q ''c'' = None \<and>
     (\<exists>vs. query_many q ''b'' = ''&'' # vs)"
proof -
  have "(case parse_query ''/v?a=1&b=%26&a='' of Inl e \<Rightarrow> False
    | Inr q \<Rightarrow> query_one q ''b'' = Some ''&'' \<and> query_one q ''c'' = None)" by code_simp
  then obtain q where q: "parse_query ''/v?a=1&b=%26&a='' = Inr q" "query_one q ''b'' = Some ''&''" "query_one q ''c'' = None"
    by (auto split: sum.splits)
  from parsed_query_well_formed [OF q(1), of "''b''"] q show ?thesis by blast
qed

theorem query_reads_back_witness:
  "\<exists>q. parse_query (''/v1'' @ ''?'' @ encode_params [(''user'', ''a&b''), (''user'', ''='')]) = Inr q \<and>
     qu_path q = ''/v1'' \<and> query_many q ''user'' = [''a&b'', ''='']"
  using query_reads_back [of "''/v1''" "[(''user'', ''a&b''), (''user'', ''='')]" "''user''"] by auto

end
