(* ===== verification/Service_Answers.thy ===== *)
theory Service_Answers
  imports Service Json
begin

text \<open>
  What the service answers: the framing of a response, read back by a reader of HTTP heads that
  is independent of the printer, and its bodies, read back by the reader of JSON.
\<close>

section \<open>The framing\<close>

text \<open>The lines of the head up to the empty line, and what follows it.\<close>

function read_head :: "string \<Rightarrow> (string list \<times> string) option" where
  "read_head s =
     (case str_find_sub s crlf of
        None \<Rightarrow> None
      | Some 0 \<Rightarrow> Some ([], drop 2 s)
      | Some (Suc i) \<Rightarrow> map_option (\<lambda>(ls, rest). (take (Suc i) s # ls, rest)) (read_head (drop (i + 3) s)))"
  by pat_completeness auto
termination
proof (relation "measure length", goal_cases)
  case (2 s n i)
  then show ?case by (cases s) (auto simp: crlf_def split: if_splits)
qed simp

declare read_head.simps [simp del]

lemma find_crlf: "CHR 0x0D \<notin> set l \<Longrightarrow> str_find_sub (l @ crlf @ rest) crlf = Some (length l)"
  by (induction l) (auto simp: crlf_def starts_with_def)

lemma read_head_end: "read_head (crlf @ rest) = Some ([], rest)"
  using find_crlf [of "[]" rest] by (simp add: read_head.simps [of "crlf @ rest"]) (simp add: crlf_def)

lemma read_head_line:
  assumes "CHR 0x0D \<notin> set l" "l \<noteq> []" "read_head rest = Some (ls, body)"
  shows "read_head (l @ crlf @ rest) = Some (l # ls, body)"
proof -
  obtain i where i: "length l = Suc i" using assms(2) by (cases l) auto
  then have "drop (i + 3) (l @ crlf @ rest) = rest" "take (Suc i) (l @ crlf @ rest) = l"
    by (simp_all add: crlf_def)
  with find_crlf [OF assms(1), of rest] assms(3) i show ?thesis
    by (simp add: read_head.simps [of "l @ crlf @ rest"])
qed

lemma show_nat_no_cr: "CHR 0x0D \<notin> set (show_nat n)"
  using show_nat_digits [of "CHR 0x0D" n] by (auto simp: isdigit_def)

text \<open>
  C26: Every response is one HTTP message: a client that splits the head at line ends finds the
  status and its phrase, the three header fields, no others, and the body behind the empty
  line, whose length is the length announced. A body with line ends cannot add a header field.
\<close>

theorem response_reads_back:
  "read_head (response status body) =
     Some ([''HTTP/1.1 '' @ show_nat status @ '' '' @ reason_phrase status,
            ''Content-Type: application/json'',
            ''Content-Length: '' @ show_nat (length body),
            ''Connection: close''], body)
   \<and> read_nat (show_nat (length body)) = length body"
proof -
  have head: "CHR 0x0D \<notin> set (''HTTP/1.1 '' @ show_nat status @ '' '' @ reason_phrase status)"
    "CHR 0x0D \<notin> set (''Content-Length: '' @ show_nat (length body))"
    using show_nat_no_cr by (simp_all add: reason_phrase_def)
  have lines: "response status body =
      (''HTTP/1.1 '' @ show_nat status @ '' '' @ reason_phrase status) @ crlf @
      ''Content-Type: application/json'' @ crlf @
      (''Content-Length: '' @ show_nat (length body)) @ crlf @
      ''Connection: close'' @ crlf @ crlf @ body"
    by (simp add: response_def)
  have "read_head (response status body) =
     Some ([''HTTP/1.1 '' @ show_nat status @ '' '' @ reason_phrase status,
            ''Content-Type: application/json'',
            ''Content-Length: '' @ show_nat (length body),
            ''Connection: close''], body)"
    unfolding lines by (intro read_head_line head read_head_end) simp_all
  then show ?thesis by simp
qed

section \<open>The bodies\<close>

text \<open>Characters \<open>json_escape\<close> prints as JSON asks for: all but the other control characters.\<close>

definition printable :: "char \<Rightarrow> bool" where
  "printable c \<longleftrightarrow> 0x20 \<le> byte_of c \<or> c \<in> {CHR 0x09, CHR 0x0A, CHR 0x0D}"

lemma escape_char_printable: "printable c \<Longrightarrow> escape_char c = json_escape_char c"
  by (auto simp: printable_def escape_char_def json_escape_char_def)

lemma json_escape_printable: "list_all printable s \<Longrightarrow> json_escape s = print_json (J_string s)"
  by (induction s)
    (simp_all add: json_escape_def json_string_def append_json_string_def escape_char_printable)

lemma read_escape_char: "read_chars (escape_char c @ s) = (if printable c then put_char c (read_chars s) else None)"
proof (cases "printable c")
  case True
  then show ?thesis by (simp add: escape_char_printable read_escaped)
next
  case False
  then have "escape_char c = [c]" "byte_of c < 0x20" "c \<noteq> CHR 0x22" "c \<noteq> CHR 0x5C"
    by (auto simp: printable_def escape_char_def)
  with False show ?thesis by (simp add: read_chars.simps [of "c # s"])
qed

lemma read_json_escape: "\<not> list_all printable s \<Longrightarrow> read_chars (concat (map escape_char s) @ t) = None"
proof (induction s)
  case (Cons c s)
  then show ?case by (cases "printable c") (simp_all add: read_escape_char put_char_def)
qed simp

text \<open>
  C27: The body of an error response is the JSON object with the message, for every message of
  printable characters, quotes and line ends included; with any other control character in
  the message, which a request can put there, the body is not JSON.
\<close>

theorem error_body_reads_back:
  "read_json (butlast (error_body msg)) =
     (if list_all printable msg then Some (J_object [(''error'', J_string msg)]) else None)"
proof (cases "list_all printable msg")
  case True
  have "error_body msg = print_json (J_object [(''error'', J_string msg)]) @ [CHR 0x0A]"
    using json_escape_printable [OF True]
    by (simp add: error_body_def json_key_def json_string_def append_json_string_def json_escape_char_def)
  with True show ?thesis by (simp only: butlast_snoc read_print_json if_True)
next
  case False
  let ?t = "concat (map escape_char msg) @ [CHR 0x22, CHR ''}'']"
  have body: "butlast (error_body msg) = CHR ''{'' # json_string ''error'' @ CHR '':'' # CHR 0x22 # ?t"
    by (simp add: error_body_def json_key_def json_escape_def json_string_def append_json_string_def
      json_escape_char_def butlast_append)
  have key: "json_string ''error'' @ r = CHR 0x22 # tl (json_string ''error'') @ r" for r
    by (subst json_string_head) simp
  have "read_value n (CHR 0x22 # ?t) = None" for n
    by (cases n) (simp_all add: read_json_escape [OF False])
  then have "read_fields n (json_string ''error'' @ CHR '':'' # CHR 0x22 # ?t) = None" for n
    unfolding key by (cases n) (simp_all add: read_json_string)
  then have "read_value n (butlast (error_body msg)) = None" for n
    unfolding body key by (cases n) simp_all
  with False show ?thesis by (simp add: read_json_def)
qed

text \<open>
  The answer to a deployment is a JSON object: what its members read back as, when the
  strings in it are printable.
\<close>

theorem deploy_body_reads_back:
  assumes "list_all printable (pt_user_name target)" "list_all printable (dr_installed_quadlet_path res)"
    "list_all printable (dr_systemd_unit res)" "list_all printable (value_or (dr_job_path res) [])"
    "list_all printable (value_or (dr_status_error res) [])"
  shows "read_json (butlast (deploy_body target res)) =
     Some (J_object [(''dryRun'', J_bool (dr_dry_run res)),
       (''targetUser'', J_string (pt_user_name target)),
       (''installedQuadletPath'', J_string (dr_installed_quadlet_path res)),
       (''systemdUnit'', J_string (dr_systemd_unit res)),
       (''jobPath'', J_string (value_or (dr_job_path res) [])),
       (''statusError'', J_string (value_or (dr_status_error res) []))])"
proof -
  have key: "json_key k = json_string k @ '':''" if "k \<in> {''dryRun'', ''targetUser'', ''installedQuadletPath'',
      ''systemdUnit'', ''jobPath'', ''statusError''}" for k
    using that by (auto simp: json_key_def json_string_def append_json_string_def json_escape_char_def)
  have "deploy_body target res = print_json (J_object [(''dryRun'', J_bool (dr_dry_run res)),
       (''targetUser'', J_string (pt_user_name target)),
       (''installedQuadletPath'', J_string (dr_installed_quadlet_path res)),
       (''systemdUnit'', J_string (dr_systemd_unit res)),
       (''jobPath'', J_string (value_or (dr_job_path res) [])),
       (''statusError'', J_string (value_or (dr_status_error res) []))]) @ [CHR 0x0A]"
    unfolding deploy_body_def json_escape_printable [OF assms(1)] json_escape_printable [OF assms(2)]
      json_escape_printable [OF assms(3)] json_escape_printable [OF assms(4)] json_escape_printable [OF assms(5)]
    by (simp add: key json_bool_def)
  then show ?thesis by (simp only: butlast_snoc read_print_json)
qed

end
