(* ===== verification/Service_Arguments.thy ===== *)
theory Service_Arguments
  imports Service
begin

text \<open>The command line of the service: what the arguments amount to.\<close>

section \<open>Accepted arguments\<close>

text \<open>The ways in which the first argument can be accepted.\<close>

lemma parse_args_accepted:
  assumes "parse_args cfg (arg # args) = Configured cfg'"
  obtains "arg = ''--execute''" "parse_args (cfg\<lparr>cf_dry_run := False\<rparr>) args = Configured cfg'"
  | "arg = ''--no-socket-validation''" "parse_args (cfg\<lparr>cf_validate_socket := False\<rparr>) args = Configured cfg'"
  | v rest cfg1 where "arg = ''--listen''" "args = v # rest" "listen_value v cfg = Inr cfg1"
      "parse_args cfg1 rest = Configured cfg'"
  | v rest where "arg = ''--api-version''" "args = v # rest"
      "parse_args (cfg\<lparr>cf_api_version := v\<rparr>) rest = Configured cfg'"
  | v rest where "arg = ''--staging-root''" "args = v # rest"
      "parse_args (cfg\<lparr>cf_staging_root := v\<rparr>) rest = Configured cfg'"
proof -
  note step = assms [unfolded parse_args.simps(2)]
  have nohelp: "arg \<noteq> ''--help''"
  proof
    assume h: "arg = ''--help''"
    from step show False unfolding if_P [OF h] by simp
  qed
  show thesis
  proof (cases "arg = ''--execute''")
    case True
    from step [unfolded if_not_P [OF nohelp] if_P [OF True]] show thesis by (rule that(1) [OF True])
  next
    case exec: False
    show thesis
    proof (cases "arg = ''--no-socket-validation''")
      case True
      from step [unfolded if_not_P [OF nohelp] if_not_P [OF exec] if_P [OF True]] show thesis by (rule that(2) [OF True])
    next
      case sock: False
      note step = step [unfolded if_not_P [OF nohelp] if_not_P [OF exec] if_not_P [OF sock]]
      show thesis
      proof (cases args)
        case Nil
        with step show thesis by (simp split: if_splits)
      next
        case (Cons v rest)
        note step = step [unfolded Cons list.case]
        show thesis
        proof (cases "arg = ''--listen''")
          case True
          then have any: "arg = ''--listen'' \<or> arg = ''--api-version'' \<or> arg = ''--staging-root''" ..
          note step = step [unfolded if_P [OF any] if_P [OF True]]
          show thesis
          proof (cases "listen_value v cfg")
            case (Inl r)
            then have "r \<noteq> Configured cfg'"
              by (auto simp: listen_value_def split: option.splits stoul_result.splits if_splits)
            with step Inl show thesis by simp
          next
            case (Inr cfg1)
            with step show thesis by (intro that(3) [OF True Cons]) simp_all
          qed
        next
          case listen: False
          show thesis
          proof (cases "arg = ''--api-version''")
            case True
            then have any: "arg = ''--listen'' \<or> arg = ''--api-version'' \<or> arg = ''--staging-root''" by (intro disjI2 disjI1)
            from step [unfolded if_P [OF any] if_not_P [OF listen] if_P [OF True]] show thesis
              by (rule that(4) [OF True Cons])
          next
            case api: False
            show thesis
            proof (cases "arg = ''--staging-root''")
              case True
              then have any: "arg = ''--listen'' \<or> arg = ''--api-version'' \<or> arg = ''--staging-root''" by (intro disjI2)
              from step [unfolded if_P [OF any] if_not_P [OF listen] if_not_P [OF api]] show thesis
                by (rule that(5) [OF True Cons])
            next
              case False
              with listen api have none: "\<not> (arg = ''--listen'' \<or> arg = ''--api-version'' \<or> arg = ''--staging-root'')" by blast
              from step show thesis unfolding if_not_P [OF none] by simp
            qed
          qed
        qed
      qed
    qed
  qed
qed

lemma str_rfind_None: "str_rfind c s = None \<longleftrightarrow> c \<notin> set s"
  by (induction s) (auto split: option.splits)

lemma str_rfind_split: "str_rfind c s = Some i \<Longrightarrow> s = take i s @ c # drop (i + 1) s \<and> c \<notin> set (drop (i + 1) s)"
proof (induction s arbitrary: i)
  case (Cons x s)
  then show ?case by (cases "str_rfind c s") (auto simp: str_rfind_None split: if_splits)
qed simp

lemma listen_value_Inr:
  assumes "listen_value v cfg = Inr cfg'"
  obtains host t n where "v = host @ CHR '':'' # t" "CHR '':'' \<notin> set t" "stoul t = Stoul_value n" "0 < n" "n < 2 ^ 16"
    "cfg' = cfg\<lparr>cf_host := host, cf_port := word_of_nat n\<rparr>"
proof -
  obtain i where i: "str_rfind (CHR '':'') v = Some i"
    using assms by (auto simp: listen_value_def split: option.splits)
  obtain n where n: "stoul (drop (i + 1) v) = Stoul_value n"
    using assms i by (auto simp: listen_value_def split: stoul_result.splits)
  have c: "n \<noteq> 0" "n \<le> 65535" "cfg' = cfg\<lparr>cf_host := take i v, cf_port := word_of_nat n\<rparr>"
    using assms i n by (auto simp: listen_value_def split: if_splits)
  have "v = take i v @ CHR '':'' # drop (i + 1) v" "CHR '':'' \<notin> set (drop (i + 1) v)"
    using str_rfind_split [OF i] by simp_all
  with n c show thesis by (intro that) auto
qed

text \<open>What holds of the default and is kept by every accepted argument holds of the result.\<close>

lemma parse_args_induct:
  assumes "parse_args cfg args = Configured cfg'" "P cfg"
    and "\<And>c. ''--execute'' \<in> set args \<Longrightarrow> P c \<Longrightarrow> P (c\<lparr>cf_dry_run := False\<rparr>)"
    and "\<And>c. ''--no-socket-validation'' \<in> set args \<Longrightarrow> P c \<Longrightarrow> P (c\<lparr>cf_validate_socket := False\<rparr>)"
    and "\<And>v c c'. v \<in> set args \<Longrightarrow> listen_value v c = Inr c' \<Longrightarrow> P c \<Longrightarrow> P c'"
    and "\<And>v c. v \<in> set args \<Longrightarrow> P c \<Longrightarrow> P (c\<lparr>cf_api_version := v\<rparr>)"
    and "\<And>v c. v \<in> set args \<Longrightarrow> P c \<Longrightarrow> P (c\<lparr>cf_staging_root := v\<rparr>)"
  shows "P cfg'"
  using assms
proof (induction args arbitrary: cfg rule: length_induct)
  case (1 args)
  show ?case
  proof (cases args)
    case Nil
    with 1 show ?thesis by simp
  next
    case (Cons arg args')
    have IH: "P cfg'" if "set rest \<subseteq> set args" "length rest < length args"
        "parse_args c rest = Configured cfg'" "P c" for c rest
      by (rule 1(1) [rule_format, OF that(2-4)]) (use 1(4-8) that(1) in blast)+
    from 1(2) [unfolded Cons] show ?thesis
    proof (cases rule: parse_args_accepted)
      case 1
      then show ?thesis by (intro IH [OF _ _ 1(2)] "1.prems"(3,2)) (auto simp: Cons)
    next
      case 2
      then show ?thesis by (intro IH [OF _ _ 2(2)] "1.prems"(4,2)) (auto simp: Cons)
    next
      case (3 v rest cfg1)
      then show ?thesis by (intro IH [OF _ _ 3(4)] "1.prems"(5) [OF _ 3(3) "1.prems"(2)]) (auto simp: Cons)
    next
      case (4 v rest)
      then show ?thesis by (intro IH [OF _ _ 4(3)] "1.prems"(6,2)) (auto simp: Cons)
    next
      case (5 v rest)
      then show ?thesis by (intro IH [OF _ _ 5(3)] "1.prems"(7,2)) (auto simp: Cons)
    qed
  qed
qed

text \<open>The default address, or what an argument \<open>HOST:PORT\<close> says.\<close>

definition address_from :: "string list \<Rightarrow> string \<Rightarrow> 16 word \<Rightarrow> bool" where
  "address_from args host port \<longleftrightarrow>
     host = ''127.0.0.1'' \<and> port = 9090 \<or>
     (\<exists>v \<in> set args. \<exists>t. v = host @ CHR '':'' # t \<and> CHR '':'' \<notin> set t \<and>
        stoul t = Stoul_value (unat port) \<and> 0 < unat port)"

lemma address_fromI:
  assumes "v \<in> set args" "v = host @ CHR '':'' # t" "CHR '':'' \<notin> set t"
    "stoul t = Stoul_value (unat port) \<and> 0 < unat port"
  shows "address_from args host port"
  unfolding address_from_def by (rule disjI2) (intro bexI [OF _ assms(1)] exI [of _ t] conjI assms(2,3) assms(4) [THEN conjunct1] assms(4) [THEN conjunct2])

text \<open>
  C37: The address the service listens on is the default one on the loopback interface, or what an
  argument \<open>HOST:PORT\<close> says, split at its last colon; the port is the number \<open>stoul\<close> reads, it is
  not zero and no truncation to 16 bits changes it.
\<close>

theorem listen_address:
  assumes "parse_args default_config args = Configured cfg"
  shows "address_from args (cf_host cfg) (cf_port cfg)"
  using assms
proof (rule parse_args_induct, goal_cases)
  case 1
  show ?case unfolding address_from_def by (rule disjI1) (simp add: default_config_def)
next
  case (4 v c c')
  from 4(2) show ?case
  proof (rule listen_value_Inr, goal_cases)
    case (1 host t n)
    have n: "unat (word_of_nat n :: 16 word) = n" by (rule of_nat_inverse [OF refl]) (use 1(5) in simp)
    have v: "v = cf_host c' @ CHR '':'' # t" using 1(1,6) by simp
    have "unat (cf_port c') = n" using 1(6) n by simp
    with 1(3,4) have "stoul t = Stoul_value (unat (cf_port c')) \<and> 0 < unat (cf_port c')" by (simp only: simp_thms)
    then show ?case by (rule address_fromI [OF 4(1) v 1(2)])
  qed
qed simp_all

lemma stoul_sample: "stoul ''80x'' = Stoul_value 80"
  by (simp add: stoul_def isspace_def isdigit_def read_nat_def digit_value_def)

theorem listen_address_witness:
  "address_from [''--execute'', ''--listen'', ''0.0.0.0:80x''] ''0.0.0.0'' 80"
proof -
  have "str_rfind (CHR '':'') ''0.0.0.0:80x'' = Some 7" by code_simp
  then have "listen_value ''0.0.0.0:80x'' c = Inr (c\<lparr>cf_host := ''0.0.0.0'', cf_port := 80\<rparr>)" for c
    using stoul_sample by (simp add: listen_value_def)
  then have "parse_args default_config [''--execute'', ''--listen'', ''0.0.0.0:80x''] =
      Configured (default_config\<lparr>cf_dry_run := False, cf_host := ''0.0.0.0'', cf_port := 80\<rparr>)"
    by simp
  from listen_address [OF this] show ?thesis by simp
qed

text \<open>
  C38: An argument of \<open>--listen\<close> with no number behind its last colon ends the process with the
  exception of \<open>std::stoul\<close>: \<open>main\<close> does not catch it, and neither the message for a port that is
  out of range nor the usage is shown.
\<close>

theorem port_without_digits_terminates:
  assumes "CHR '':'' \<notin> set t" "\<forall>c \<in> set t. \<not> isdigit c"
  shows "run_main (''--listen'' # (host @ CHR '':'' # t) # args) replies rounds w = (Terminated Stoul_invalid_argument, [], w)"
proof -
  have "str_rfind (CHR '':'') (host @ CHR '':'' # t) = Some (length host)"
    using assms(1) by (induction host) (simp_all add: str_rfind_None [THEN iffD2])
  moreover have "stoul t = Stoul_invalid_argument"
  proof -
    have none: "takeWhile isdigit u = []" if "set u \<subseteq> set t" for u
      using that assms(2) by (cases u) auto
    have "set (dropWhile isspace t) \<subseteq> set t" using set_dropWhileD by fast
    moreover have "set (tl u) \<subseteq> set u" for u :: string by (cases u) auto
    from this calculation have "set (tl (dropWhile isspace t)) \<subseteq> set t" by (rule order_trans)
    ultimately show ?thesis by (simp add: stoul_def Let_def none)
  qed
  ultimately have "listen_value (host @ CHR '':'' # t) default_config = Inl (Uncaught Stoul_invalid_argument)"
    by (simp add: listen_value_def)
  then show ?thesis by (simp add: run_main_def)
qed

theorem port_without_digits_terminates_witness:
  "\<forall>replies rounds w. run_main [''--listen'', ''127.0.0.1:http''] replies rounds w = (Terminated Stoul_invalid_argument, [], w)"
  using port_without_digits_terminates [of "''http''" "''127.0.0.1''" "[]"] by (simp add: isdigit_def)

end
