(* ===== verification/Service_Loop.thy ===== *)
theory Service_Loop
  imports Service_Arguments Deployment_Order
begin

text \<open>
  The loop of the service: which descriptors are open, when the loop ends, and what a service in
  dry-run mode can do.
\<close>

section \<open>Descriptors\<close>

text \<open>
  The descriptors open after a sequence of calls; none if a call opens one that is open, or
  uses or closes one that is not.
\<close>

fun held :: "nat list \<Rightarrow> socket_call list \<Rightarrow> nat list option" where
  "held fds [] = Some fds"
| "held fds (Opened fd # cs) = (if fd \<in> set fds then None else held (fd # fds) cs)"
| "held fds (Bound fd host port # cs) = (if fd \<in> set fds then held fds cs else None)"
| "held fds (Sent fd out # cs) = (if fd \<in> set fds then held fds cs else None)"
| "held fds (Closed fd # cs) = (if fd \<in> set fds then held (removeAll fd fds) cs else None)"

lemma held_append: "held fds (cs @ cs') = (case held fds cs of None \<Rightarrow> None | Some fds' \<Rightarrow> held fds' cs')"
  by (induction fds cs rule: held.induct) auto

lemma held_serve:
  "\<forall>r \<in> set rounds. ro_accept r \<noteq> Inr fd \<Longrightarrow> held [fd] (fst (serve cfg rounds w)) = Some [fd]"
  by (induction rounds arbitrary: w) (auto split: sum.split simp: Let_def case_prod_beta)

text \<open>
  C14: \<open>main\<close> closes what it opens, each descriptor once, on every way to return: the listening socket also
  when \<open>bind\<close> or \<open>listen\<close> fails, and every accepted connection, whether a request came or not. No
  call uses a descriptor after it was closed. The system is relied upon not to return the open
  listener again from \<open>accept\<close>.
\<close>

theorem main_closes_what_it_opens:
  assumes "\<forall>r \<in> set rounds. lr_socket replies \<noteq> ro_accept r"
  shows "held [] (fst (snd (run_main args replies rounds w))) = Some []"
proof (cases "parse_args default_config args")
  case (Configured cfg)
  show ?thesis
  proof (cases "create_listener cfg replies")
    case (Pair res calls)
    show ?thesis
    proof (cases res)
      case (Inl msg)
      with Pair Configured show ?thesis
        by (auto simp: run_main_def create_listener_def Let_def split: sum.splits if_splits option.splits)
    next
      case (Inr fd)
      with Pair have c: "lr_socket replies = Inr fd" "held [] calls = Some [fd]"
        by (auto simp: create_listener_def Let_def split: sum.splits if_splits option.splits)
      have "held [fd] (fst (serve cfg rounds w)) = Some [fd]"
        using assms c(1) by (intro held_serve) auto
      with c Pair Inr Configured show ?thesis
        by (simp add: run_main_def held_append Let_def case_prod_beta)
    qed
  qed
qed (simp_all add: run_main_def)

definition round_of :: "errno + nat \<Rightarrow> errno + nat \<Rightarrow> string \<Rightarrow> round" where
  "round_of p a s = \<lparr>ro_stop = False, ro_poll = p, ro_accept = a, ro_recv = s\<rparr>"

definition sample_replies :: listen_replies where
  "sample_replies = \<lparr>lr_socket = Inr 3, lr_inet_pton = (\<lambda>host. host = ''127.0.0.1''), lr_bind = None,
     lr_listen = None, lr_strerror = (\<lambda>e. ''error'')\<rparr>"

text \<open>A connection without a request, a signal, and a request.\<close>

definition sample_rounds :: "string \<Rightarrow> round list" where
  "sample_rounds s = [round_of (Inr 1) (Inr 4) [], round_of (Inl EINTR) (Inr 4) [],
     round_of (Inr 1) (Inr 4) s]"

theorem main_closes_what_it_opens_witness:
  "held [] (fst (snd (run_main [] sample_replies (sample_rounds ''GET /healthz'') (sample_world [])))) = Some []"
  by (rule main_closes_what_it_opens) (simp add: sample_replies_def sample_rounds_def round_of_def)

section \<open>The end of the loop\<close>

text \<open>Does a round end the loop?\<close>

definition ends_loop :: "round \<Rightarrow> bool" where
  "ends_loop r \<longleftrightarrow>
     ro_stop r \<or>
     (case ro_poll r of
        Inl e \<Rightarrow> e \<noteq> EINTR
      | Inr n \<Rightarrow> n \<noteq> 0 \<and> (case ro_accept r of Inl e \<Rightarrow> e \<noteq> EINTR | Inr client \<Rightarrow> False))"

lemma serve_ends: "ends_loop r \<Longrightarrow> serve cfg (r # rs) w = ([], w)"
  by (auto simp: ends_loop_def split: sum.splits)

text \<open>
  C36: A signal, or a \<open>poll\<close> or \<open>accept\<close> that fails other than by being interrupted, ends the process:
  nothing that would come afterwards is served, the listener is closed last, and the exit status
  is zero.
\<close>

theorem main_stops:
  assumes "parse_args default_config args = Configured cfg" "create_listener cfg replies = (Inr listener, opening)"
    "ends_loop r"
  shows "\<exists>served w'. run_main args replies (rounds @ r # later) w = (Exit 0, opening @ served @ [Closed listener], w') \<and>
    serve cfg rounds w = (served, w')"
proof -
  have "serve cfg (rounds @ r # later) w = serve cfg rounds w"
    using serve_ends [OF assms(3)]
    by (induction rounds arbitrary: w) (auto simp: Let_def case_prod_beta split: sum.split)
  with assms(1,2) show ?thesis
    by (cases "serve cfg rounds w") (simp add: run_main_def)
qed

theorem main_stops_witness:
  "\<exists>served w'. run_main [] sample_replies ([] @ round_of (Inl 9) (Inr 4) [] # sample_rounds ''GET'') (sample_world []) =
     (Exit 0, [Opened 3, Bound 3 ''127.0.0.1'' 9090] @ served @ [Closed 3], w') \<and> served = []"
proof -
  have "create_listener default_config sample_replies = (Inr 3, [Opened 3, Bound 3 ''127.0.0.1'' 9090])"
    by (simp add: create_listener_def sample_replies_def default_config_def)
  from main_stops [OF _ this, of "[]" "round_of (Inl 9) (Inr 4) []" "[]"] show ?thesis
    by (simp add: ends_loop_def round_of_def errno_defs)
qed

section \<open>Dry-run mode\<close>

context kept_in_time
begin

lemma keeps_open_staged_components: "keeps R (open_staged_components d names)"
  by (induction names arbitrary: d) (auto intro!: reading simp: read_flags_def directory_flags_def)

lemma keeps_open_staged_regular_file: "keeps R (open_staged_regular_file root p n)"
  unfolding open_staged_regular_file_def
  by (intro reading keeps_open_staged_components) (simp add: directory_flags_def)

lemma keeps_staged_read_loop: "keeps R (staged_read_loop fd bytes out)"
proof (rule keepsI)
  fix w show "R w (snd (staged_read_loop fd bytes out w))"
  proof (induction fd bytes out w rule: staged_read_loop.induct)
    case (1 fd bytes out w)
    obtain r w' where r: "sys_read fd (length out) (bytes - length out) w = (r, w')" by fastforce
    have "R w w'" using keeps_read r by (rule keepsD)
    with 1 [OF _ r [symmetric]] r show ?case
      by (cases r) (auto simp: staged_read_loop.simps [of fd bytes out w] fail_io_def os_error_def refl intro: trans)
  qed
qed

lemma keeps_read_staged_regular_file: "keeps R (read_staged_regular_file root p n)"
  unfolding read_staged_regular_file_def
  by (intro composed keeps_open_staged_regular_file keeps_staged_read_loop)

lemma keeps_handle_deploy_bundle:
  assumes "\<And>b. keeps R (deploy default_installer (Some (systemctl_controller (cf_dry_run cfg))) (request_options cfg q) b)"
  shows "keeps R (handle_deploy_bundle cfg q)"
  unfolding handle_deploy_bundle_def
  by (auto intro!: composed keeps_resolve_user keeps_read_staged_regular_file keeps_open_staged_regular_file assms
    split: option.split)

end

lemma handle_request_world:
  "snd (handle_request cfg raw w) = w \<or> (\<exists>q. snd (handle_request cfg raw w) = snd (handle_deploy_bundle cfg q w))"
proof -
  have "snd (case m of (Inl e, w') \<Rightarrow> (f e, w') | (Inr body, w') \<Rightarrow> (g body, w')) = snd m"
    for m :: "(error + string) \<times> world" and f :: "error \<Rightarrow> string" and g
    by (simp split: prod.split sum.split)
  then show ?thesis unfolding handle_request_def by (simp split: sum.split) blast
qed

lemma silent_request: "cf_dry_run cfg \<Longrightarrow> silent w (snd (handle_request cfg raw w))"
proof -
  assume "cf_dry_run cfg"
  then have "keeps silent (handle_deploy_bundle cfg q)" for q
    by (intro silent.keeps_handle_deploy_bundle silent_dry_run) (simp add: request_options_def)
  then have "silent w (snd (handle_deploy_bundle cfg q w))" for q by (simp add: keeps_def)
  moreover have "snd (handle_request cfg raw w) = w \<or>
      (\<exists>q. snd (handle_request cfg raw w) = snd (handle_deploy_bundle cfg q w))"
    by (rule handle_request_world)
  ultimately show ?thesis using silent.refl by metis
qed

lemma silent_serve: "cf_dry_run cfg \<Longrightarrow> silent w (snd (serve cfg rounds w))"
  by (induction rounds arbitrary: w)
    (auto simp: silent.refl Let_def case_prod_beta intro: silent.trans silent_request split: sum.split)

lemma parse_args_dry_run:
  assumes "parse_args default_config args = Configured cfg" "''--execute'' \<notin> set args"
  shows "cf_dry_run cfg"
  using assms(1) by (rule parse_args_induct) (use assms(2) in \<open>auto simp: default_config_def elim!: listen_value_Inr\<close>)

text \<open>
  C12: A service that was not started with \<open>--execute\<close> changes nothing, whatever requests arrive: no file
  changes unless another process changes it, no process is run, no request is sent to Podman and
  nothing is logged, over the whole run.
\<close>

theorem dry_run_service_is_silent:
  assumes "''--execute'' \<notin> set args" "run_main args replies rounds w = (result, calls, w')"
  shows "w_log w' = w_log w \<and> w_http w' = w_http w \<and> w_procs w' = w_procs w \<and> (calm w \<longrightarrow> w_fs w' = w_fs w)"
proof -
  have "silent w (snd (snd (run_main args replies rounds w)))"
  proof (cases "parse_args default_config args")
    case (Configured cfg)
    from silent_serve [OF parse_args_dry_run [OF Configured assms(1)]] Configured show ?thesis
      by (simp add: run_main_def silent.refl Let_def case_prod_beta split: sum.split)
  qed (simp_all add: run_main_def silent.refl)
  with assms(2) show ?thesis by (auto simp: silent_def still_def)
qed

theorem dry_run_service_is_silent_witness:
  "w_fs (snd (snd (run_main [] sample_replies
     (sample_rounds ''POST /v1/deploy-bundle?user=a&quadletPath=b HTTP/1.1'') (sample_world sample_schedule)))) = sample_fs"
proof -
  let ?run = "run_main [] sample_replies
    (sample_rounds ''POST /v1/deploy-bundle?user=a&quadletPath=b HTTP/1.1'') (sample_world sample_schedule)"
  obtain result calls w' where r: "?run = (result, calls, w')" by (rule prod_cases3)
  from dry_run_service_is_silent [OF _ r] sample_calm(2) show ?thesis
    by (simp add: r) (simp add: sample_world_def)
qed

end
