(* ===== verification/Service_Deploys.thy ===== *)
theory Service_Deploys
  imports Service_Loop Staged_Archive
begin

text \<open>
  From a request to the installed file: what \<open>read_staged_regular_file\<close> returns, and what a
  deployment through the service leaves behind.
\<close>

section \<open>Reading a staged file\<close>

text \<open>
  The regular file a staged path stands for: below the root, reached through directory entries
  only, with no symbolic link on the way.
\<close>

definition staged_file :: "world \<Rightarrow> path \<Rightarrow> path \<Rightarrow> (ino \<times> string) option" where
  "staged_file w root p =
     (case (staged_relative_path root p, resolve w (w_cwd w) root False) of
        (Inr rel, Inr rd) \<Rightarrow>
          (case descend (w_fs w) rd (path_elems rel) of
             None \<Rightarrow> None
           | Some fd \<Rightarrow> (case node_at (w_fs w) fd of Some (Reg s) \<Rightarrow> Some (fd, s) | _ \<Rightarrow> None))
      | _ \<Rightarrow> None)"

lemma wp_open_staged_components:
  assumes "calm w" "\<forall>n \<in> set names. plain_name n \<and> CHR 0x00 \<notin> set n"
    and E: "\<And>e w'. idle w w' \<Longrightarrow> E e w'"
    and Q: "\<And>i w'. idle w w' \<Longrightarrow> descend (w_fs w) d names = Some i \<Longrightarrow> Q i w'"
  shows "wp (open_staged_components d names) Q E w"
  using assms
proof (induction names arbitrary: d w)
  case Nil
  then show ?case by (simp add: wp_return idle_refl)
next
  case (Cons n names)
  show ?case
    unfolding open_staged_components.simps wp_bind wp_or_os_error
  proof (rule wp_openat_name [OF Cons.prems(1)], goal_cases)
    case (6 i nd w1)
    have d: "descend (w_fs w) d (n # names) = descend (w_fs w) i names"
      using 6 by (intro descend_Cons)
    show ?case
      by (rule Cons.IH [OF idle_calm [OF 6(1)]])
        (use Cons.prems(2) Cons.prems(3,4) [OF idle_trans [OF 6(1)]] d idleD(1) [OF 6(1)] in auto)
  qed (use Cons.prems(2,3) in \<open>auto simp: read_flags_def directory_flags_def\<close>)
qed

lemma wp_open_staged_regular_file:
  assumes "calm w" "CHR 0x00 \<notin> set p"
    and E: "\<And>e w'. idle w w' \<Longrightarrow> E e w'"
    and Q: "\<And>opened w' s. idle w w' \<Longrightarrow> staged_file w root p = Some (os_fd opened, s) \<Longrightarrow>
       os_size opened = length s \<Longrightarrow> length s \<le> n \<Longrightarrow>
       staged_relative_path root p = Inr (os_relative_path opened) \<Longrightarrow> Q opened w'"
  shows "wp (open_staged_regular_file root p n) Q E w"
proof (cases "staged_relative_path root p")
  case (Inl e)
  with E idle_refl [OF assms(1)] show ?thesis by (simp add: open_staged_regular_file_def wp_bind wp_lift)
next
  case (Inr rel)
  show ?thesis
    unfolding open_staged_regular_file_def wp_bind [of "lift_io _"] wp_lift Inr sum.case
      wp_bind [of "or_os_error (sys_open _ _ _) _ _"] wp_or_os_error [of "sys_open _ _ _"]
  proof (rule wp_open [OF assms(1)], goal_cases)
    case (5 rd w1)
    then have rd: "resolve w (w_cwd w) root False = Inr rd"
      by (simp add: directory_flags_def)
    then have "root \<noteq> []" by (auto simp: resolve_def c_str_def)
    with Inr obtain ns where ns: "\<forall>n \<in> set ns. safe_name n" "path_elems rel = ns" "set ns \<subseteq> set (path_names p)"
      by (rule staged_relative_path_names)
    have names: "\<forall>n \<in> set (path_elems rel). plain_name n \<and> CHR 0x00 \<notin> set n"
      using ns set_path_names assms(2) by (fastforce simp: safe_name_def)
    show ?case
      unfolding wp_bind [of "open_staged_components _ _"]
    proof (rule wp_open_staged_components [OF idle_calm [OF 5(1)] names], goal_cases)
      case (1 e w2)
      then show ?case using E idle_trans [OF 5(1)] by (simp add: wp_simps)
    next
      case (2 fd w2)
      have w2: "idle w w2" using idle_trans [OF 5(1) 2(1)] .
      show ?case
        unfolding wp_bind [of "or_os_error _ _ _"] wp_or_os_error
      proof (rule wp_fstat [OF idle_calm [OF w2]], goal_cases)
        case (3 nd w3)
        have w3: "idle w w3" using idle_trans [OF w2 3(1)] .
        have nd: "inodes (w_fs w) fd = Some nd" "descend (w_fs w) rd (path_elems rel) = Some fd"
          using 3(2) 2(2) idleD(1) [OF w2] idleD(1) [OF 5(1)] by simp_all
        show ?case
        proof (cases "i_node nd")
          case (Reg s)
          have st: "st_type (stat_of nd) = S_IFREG" "st_size (stat_of nd) = int (length s)"
            by (simp_all add: stat_of_def Reg)
          have "staged_file w root p = Some (fd, s)"
            by (simp add: staged_file_def Inr rd nd node_at_def Reg)
          with E [OF w3] Q [OF w3, of "\<lparr>os_fd = fd, os_size = length s, os_relative_path = rel\<rparr>" s] Inr show ?thesis
            by (simp add: wp_bind wp_guard wp_lift guard_def wp_return st split: if_splits)
        qed (use E [OF w3] in \<open>simp_all add: wp_bind wp_guard wp_lift stat_of_def guard_def\<close>)
      qed (use E idle_trans [OF w2] in auto)
    qed
  qed (use E in \<open>auto simp: directory_flags_def\<close>)
qed

text \<open>The loop is the one that reads back an installed file but for its messages.\<close>

lemma staged_read_loop_conv:
  "snd (staged_read_loop fd bytes out w) = snd (read_loop p fd bytes out w) \<and>
   (\<forall>s. fst (staged_read_loop fd bytes out w) = Inr s \<longleftrightarrow> fst (read_loop p fd bytes out w) = Inr s)"
proof (induction fd bytes out w rule: staged_read_loop.induct)
  case (1 fd bytes out w)
  note steps = staged_read_loop.simps [of fd bytes out w] read_loop.simps [of p fd bytes out w]
  obtain r w1 where r: "sys_read fd (length out) (bytes - length out) w = (r, w1)" by fastforce
  show ?case
  proof (cases "length out < bytes")
    case True
    with 1 [OF _ r [symmetric]] r show ?thesis
      by (cases r) (simp_all add: steps fail_io_def os_error_def)
  qed (simp add: steps)
qed

lemma wp_staged_read_loop:
  assumes "calm w" "inodes (w_fs w) fd = Some nd" "i_node nd = Reg s"
    and Q: "\<And>w'. idle w w' \<Longrightarrow> Q s w'" and E: "\<And>e w'. idle w w' \<Longrightarrow> E e w'"
  shows "wp (staged_read_loop fd (length s) []) Q E w"
proof -
  have run: "wp (read_loop [] fd (length s) []) (\<lambda>t w'. t = s \<and> idle w w') (\<lambda>e w'. idle w w') w"
    by (rule wp_read_loop [OF assms(1-3)]) simp_all
  show ?thesis
  proof (rule wpI)
    fix t w' assume "staged_read_loop fd (length s) [] w = (Inr t, w')"
    with staged_read_loop_conv [of fd "length s" "[]" w "[]"] have "read_loop [] fd (length s) [] w = (Inr t, w')"
      by (metis fst_conv snd_conv prod.collapse)
    with wp_Inr [OF run] Q show "Q t w'" by blast
  next
    fix e w' assume e: "staged_read_loop fd (length s) [] w = (Inl e, w')"
    then obtain e' where "read_loop [] fd (length s) [] w = (Inl e', w')"
      using staged_read_loop_conv [of fd "length s" "[]" w "[]"]
      by (metis fst_conv snd_conv prod.collapse sum.exhaust sum.distinct(1))
    with wp_Inl [OF run] E show "E e w'" by blast
  qed
qed

lemma wp_read_staged_regular_file:
  assumes "calm w" "CHR 0x00 \<notin> set p"
    and Q: "\<And>fd s w'. idle w w' \<Longrightarrow> staged_file w root p = Some (fd, s) \<Longrightarrow> length s \<le> n \<Longrightarrow> Q s w'"
    and E: "\<And>e w'. idle w w' \<Longrightarrow> E e w'"
  shows "wp (read_staged_regular_file root p n) Q E w"
  unfolding read_staged_regular_file_def wp_bind
proof (rule wp_open_staged_regular_file [OF assms(1,2)], goal_cases)
  case (1 e w1)
  then show ?case by (rule E)
next
  case (2 opened w1 s)
  then obtain nd where nd: "inodes (w_fs w1) (os_fd opened) = Some nd" "i_node nd = Reg s"
    by (auto simp: staged_file_def node_at_def idleD(1) [OF 2(1)] split: sum.splits option.splits node.splits)
  show ?case
    unfolding 2(3)
  proof (rule wp_staged_read_loop [OF idle_calm [OF 2(1)] nd])
    show "Q s w'" if "idle w1 w'" for w' by (rule Q [OF idle_trans [OF 2(1) that] 2(2,4)])
    show "E e w'" if "idle w1 w'" for e w' by (rule E [OF idle_trans [OF 2(1) that]])
  qed
qed

section \<open>A deployment through the service\<close>

text \<open>What the installed Quadlet of the request contains afterwards, when it was deployed.\<close>

definition restart_wanted :: "query \<Rightarrow> bool" where
  "restart_wanted q \<longleftrightarrow> query_one q ''restart'' \<noteq> Some ''false''"

definition unit_came_up :: "deployment_result \<Rightarrow> bool" where
  "unit_came_up res \<longleftrightarrow> (\<exists>st. dr_status res = Some st \<and> us_unit st = dr_systemd_unit res \<and> deployed_status_is_healthy st)"

lemma request_options_conv [simp]:
  "do_dry_run (request_options cfg q) = cf_dry_run cfg"
  "do_restart_unit (request_options cfg q) = restart_wanted q"
  by (simp_all add: request_options_def restart_wanted_def value_or_def split: option.split)

lemma wp_handle_deploy_bundle:
  assumes "calm w" "\<not> cf_dry_run cfg" "query_one q ''user'' = Some user" "query_one q ''quadletPath'' = Some qpath"
    and "CHR 0x00 \<notin> set qpath" "resolve_user user default_runtime_layout (cf_api_version cfg) w = (Inr target, w)"
    and "ready w default_layout (pt_uid target) a u"
    and Q: "\<And>fd s res w'. staged_file w (cf_staging_root cfg) qpath = Some (fd, s) \<Longrightarrow> length s \<le> cf_max_quadlet_size cfg \<Longrightarrow>
       file_text (w_fs w') u (filename qpath) = Some s \<Longrightarrow>
       service_unit_name_from_quadlet (filename qpath) = Inr (dr_systemd_unit res) \<Longrightarrow>
       (restart_wanted q \<longrightarrow> unit_came_up res) \<Longrightarrow> Q (deploy_body target res) w'"
    and E: "\<And>e w'. file_text (w_fs w') u (filename qpath) = file_text (w_fs w) u (filename qpath) \<or>
       \<not> faultless w \<and> (\<exists>fd s. staged_file w (cf_staging_root cfg) qpath = Some (fd, s) \<and>
         file_text (w_fs w') u (filename qpath) = Some s) \<Longrightarrow> E e w'"
  shows "wp (handle_deploy_bundle cfg q) Q E w"
proof -
  have user: "wp (resolve_user user default_runtime_layout (cf_api_version cfg)) R E w = R target w" for R
    by (simp add: wp_def assms(6))
  show ?thesis
    unfolding handle_deploy_bundle_def assms(3,4) prod.case option.case wp_bind [of "resolve_user _ _ _"] user
      wp_bind [of "read_staged_regular_file _ _ _"]
  proof (rule wp_read_staged_regular_file [OF assms(1,5)], goal_cases)
    case (1 fd s w1)
    note idle = 1(1) and staged = 1(2,3)
    show ?case
    proof (cases "service_name_from_quadlet_path qpath")
      case (Inl e)
      then show ?thesis by (simp add: wp_bind wp_lift E idleD(1) [OF idle])
    next
      case (Inr name)
      let ?img = "case query_one q ''imageArchive'' of None \<Rightarrow> return_io None
         | Some image_archive \<Rightarrow> bind_io (open_staged_regular_file (cf_staging_root cfg) image_archive (8 * 1024 * 1024 * 1024))
             (\<lambda>staged. return_io (Some (os_relative_path staged)))"
      have still: "keeps still ?img"
        by (auto intro!: still.composed still.keeps_open_staged_regular_file split: option.split)
      show ?thesis
        unfolding wp_bind [of "lift_io _"] wp_lift Inr sum.case wp_bind [of "case_option _ _ _"]
      proof (rule wp_still [OF still idle_calm [OF idle]], goal_cases)
        case (1 img w2)
        have w2: "evolves w w2" "w_fs w2 = w_fs w"
          using evolves_trans [OF idleD(2) [OF idle] 1(1)] 1(2) idleD(1) [OF idle] by simp_all
        let ?b = "request_bundle q target qpath s name img"
        have b: "bu_target_uid ?b = pt_uid target" "qf_file_name (bu_quadlet ?b) = filename qpath"
          "qf_contents (bu_quadlet ?b) = s"
          by (simp_all add: request_bundle_def)
        have ready: "ready w2 (qi_layout default_installer) (bu_target_uid ?b) a u"
          using ready_frame [OF assms(7) w2(1)] assms(7) w2(2)
          by (simp add: b(1) default_installer_def ready_def frame_refl)
        have live: "\<not> do_dry_run (request_options cfg q)" using assms(2) by simp
        show ?case
          unfolding wp_bind [of "deploy _ _ _ _"]
        proof (rule user_systemd.wp_deploy [OF systemctl.user_systemd_axioms evolves_calm [OF w2(1)] ready live], goal_cases)
          case (1 res inst w3)
          then show ?case
            unfolding wp_return b request_options_conv
            by (intro Q [OF staged]) (auto dest: expected_install_Inr(5) simp: b(2) unit_came_up_def)
        next
          case (2 e w3)
          then show ?case
            using evolvesD(13) [OF w2(1)] staged unfolding b w2(2) by (intro E) auto
        qed
      next
        case (2 e w2)
        then show ?case using idleD(1) [OF idle] by (intro E) simp
      qed
    qed
  next
    case (2 e w1)
    then show ?case by (intro E) (simp add: idleD(1))
  qed
qed

text \<open>
  C5: The answer to a deployment request tells the truth, in execute mode. If it is 202, the installed
  Quadlet has the contents of the staged file, which lies below the staging root with no symbolic
  link on the way and is within the size limit, and unless the request said otherwise its unit is
  loaded and active; if it is 400, the installed file is as it was, except that a file-system
  call that failed may have left the new contents. There is no other answer.
\<close>

theorem deployment_request_answered:
  assumes "calm w" "\<not> cf_dry_run cfg"
    "parse_request_line raw = Inr \<lparr>rl_method = ''POST'', rl_target = url\<rparr>" "parse_query url = Inr q"
    "qu_path q = ''/v1/deploy-bundle''" "query_one q ''user'' = Some user" "query_one q ''quadletPath'' = Some qpath"
    "CHR 0x00 \<notin> set qpath" "resolve_user user default_runtime_layout (cf_api_version cfg) w = (Inr target, w)"
    "ready w default_layout (pt_uid target) a u" "handle_request cfg raw w = (out, w')"
  shows "(\<exists>fd s res. out = response 202 (deploy_body target res) \<and>
      staged_file w (cf_staging_root cfg) qpath = Some (fd, s) \<and> length s \<le> cf_max_quadlet_size cfg \<and>
      file_text (w_fs w') u (filename qpath) = Some s \<and>
      service_unit_name_from_quadlet (filename qpath) = Inr (dr_systemd_unit res) \<and>
      (query_one q ''restart'' = Some ''false'' \<or> unit_came_up res))
   \<or> (\<exists>msg. out = response 400 (error_body msg) \<and>
      (file_text (w_fs w') u (filename qpath) = file_text (w_fs w) u (filename qpath) \<or>
       \<not> faultless w \<and> (\<exists>fd s. staged_file w (cf_staging_root cfg) qpath = Some (fd, s) \<and>
         file_text (w_fs w') u (filename qpath) = Some s)))"
    (is "?told out w'")
proof -
  let ?m = "handle_deploy_bundle cfg q"
  have run: "wp ?m (\<lambda>body. ?told (response 202 body)) (\<lambda>e. ?told (response 400 (error_body (message e)))) w"
  proof (rule wp_handle_deploy_bundle [OF assms(1,2,6-10)], goal_cases)
    case (1 fd s res w')
    have up: "query_one q ''restart'' = Some ''false'' \<or> unit_came_up res"
      using 1(5) unfolding restart_wanted_def by blast
    show ?case by (rule disjI1) (intro exI conjI, rule refl, rule 1, rule 1, rule 1, rule 1, rule up)
  next
    case (2 e w')
    show ?case by (rule disjI2, rule exI, rule conjI [OF refl 2])
  qed
  have out: "handle_request cfg raw w = (case ?m w of
      (Inl e, w') \<Rightarrow> (response 400 (error_body (message e)), w') | (Inr body, w') \<Rightarrow> (response 202 body, w'))"
    using assms(2-5) by (simp add: handle_request_def)
  show ?thesis
  proof (cases "?m w")
    case (Pair r w1)
    show ?thesis
    proof (cases r)
      case (Inl e)
      from wp_Inl [OF run Pair [unfolded Inl]] show ?thesis using assms(11) unfolding out Pair Inl by simp
    next
      case (Inr body)
      from wp_Inr [OF run Pair [unfolded Inr]] show ?thesis using assms(11) unfolding out Pair Inr by simp
    qed
  qed
qed

text \<open>A system with one user, her old Quadlet and a staged one.\<close>

definition service_fs :: fs where
  "service_fs =
     \<lparr>inodes =
        [1 \<mapsto> mk_inode (Dir [''etc'' \<mapsto> 2, ''srv'' \<mapsto> 7]),
         2 \<mapsto> mk_inode (Dir [''containers'' \<mapsto> 3]),
         3 \<mapsto> mk_inode (Dir [''systemd'' \<mapsto> 4]),
         4 \<mapsto> mk_inode (Dir [''users'' \<mapsto> 5]),
         5 \<mapsto> mk_inode (Dir [''1000'' \<mapsto> 6]),
         6 \<mapsto> mk_inode (Dir [''demo.container'' \<mapsto> 9]),
         7 \<mapsto> mk_inode (Dir [''demo.container'' \<mapsto> 8]),
         8 \<mapsto> mk_inode (Reg (qf_contents sample_quadlet)),
         9 \<mapsto> mk_inode (Reg ''old'')],
      next_ino = 10\<rparr>"

definition service_world :: world where
  "service_world = (sample_deploy_world [] [])\<lparr>w_fs := service_fs,
     w_getpwnam := (\<lambda>n. (0, Some \<lparr>pw_uid = 1000, pw_name = n\<rparr>))\<rparr>"

definition service_config :: config where
  "service_config = default_config\<lparr>cf_staging_root := ''/srv'', cf_dry_run := False\<rparr>"

definition service_request :: string where
  "service_request = ''POST /v1/deploy-bundle?user=alice&quadletPath=demo.container HTTP/1.1'' @ crlf @ crlf"

lemma service_ready: "ready service_world default_layout 1000 5 6"
proof -
  have "fs_wf service_fs"
    by (auto simp: fs_wf_def service_fs_def mk_inode_def entry_def dir_entries_def split: if_splits)
  moreover have "is_dir service_fs 5" "is_dir service_fs 6"
    by (simp_all add: is_dir_def dir_entries_def service_fs_def mk_inode_def)
  moreover have "anchored service_world (admin_user_root default_layout) 6 5"
    "anchored service_world (user_directory default_layout 1000) 6 6"
  proof -
    let ?layout = "sample_layout\<lparr>admin_user_root := ''/etc/containers/systemd/users''\<rparr>"
    have "admin_user_root default_layout = admin_user_root ?layout"
      "user_directory default_layout 1000 = user_directory ?layout 1000"
      by (simp_all add: default_layout_def user_directory_def)
    moreover have "anchored service_world (admin_user_root ?layout) 6 5"
      "anchored service_world (user_directory ?layout 1000) 6 6" by code_simp+
    ultimately show "anchored service_world (admin_user_root default_layout) 6 5"
      "anchored service_world (user_directory default_layout 1000) 6 6" by simp_all
  qed
  ultimately show ?thesis by (simp add: ready_def service_world_def)
qed

text \<open>What the witness knows of the request.\<close>

lemma service_request_parses:
  "parse_request_line service_request =
     Inr \<lparr>rl_method = ''POST'', rl_target = ''/v1/deploy-bundle?user=alice&quadletPath=demo.container''\<rparr>"
  by code_simp

theorem deployment_request_answered_witness:
  "let (out, w') = handle_request service_config service_request service_world
   in (\<exists>res. out = response 202 (deploy_body (make_target 1000 ''alice'' default_runtime_layout ''5.0.0'') res) \<and>
        file_text (w_fs w') 6 ''demo.container'' = Some (qf_contents sample_quadlet) \<and> unit_came_up res)
    \<or> (\<exists>msg. out = response 400 (error_body msg) \<and> file_text (w_fs w') 6 ''demo.container'' = Some ''old'')"
proof -
  let ?q = "\<lparr>qu_path = ''/v1/deploy-bundle'', qu_params = [(''quadletPath'', [''demo.container'']), (''user'', [''alice''])]\<rparr>"
  have q: "parse_query ''/v1/deploy-bundle?user=alice&quadletPath=demo.container'' = Inr ?q" by code_simp
  have params: "query_one ?q ''user'' = Some ''alice''" "query_one ?q ''quadletPath'' = Some ''demo.container''"
    "query_one ?q ''restart'' \<noteq> Some ''false''" by code_simp+
  have facts: "staged_file service_world ''/srv'' ''demo.container'' = Some (8, qf_contents sample_quadlet)"
    "file_text (w_fs service_world) 6 ''demo.container'' = Some ''old''" "filename ''demo.container'' = ''demo.container''"
    by code_simp+
  have w: "calm service_world" "faultless service_world" "cf_staging_root service_config = ''/srv''"
    "\<not> cf_dry_run service_config" "cf_api_version service_config = ''5.0.0''"
    by (simp_all add: service_world_def service_config_def default_config_def sample_deploy_world_def sample_world_def
      calm_def calm_sched_def faultless_def)
  have target: "resolve_user ''alice'' default_runtime_layout (cf_api_version service_config) service_world =
      (Inr (make_target 1000 ''alice'' default_runtime_layout ''5.0.0''), service_world)"
    by (simp add: resolve_user_def service_world_def w(5) c_str_def)
  have uid: "pt_uid (make_target 1000 ''alice'' default_runtime_layout ''5.0.0'') = 1000" by (simp add: make_target_def)
  have nul: "CHR 0x00 \<notin> set ''demo.container''" by simp
  have path: "qu_path ?q = ''/v1/deploy-bundle''" by simp
  obtain out w' where run: "handle_request service_config service_request service_world = (out, w')" by (rule prod.exhaust)
  from deployment_request_answered [OF w(1,4) service_request_parses q path params(1,2) nul target _ run, unfolded uid, OF service_ready]
  show ?thesis unfolding run Let_def prod.case facts w(3) using w(2) params(3) by simp blast
qed

end
