(* ===== verification/Spec2Isabelle.thy ===== *)
theory Spec2Isabelle
imports Quadlet_Properties Installer_Properties Systemd_Properties Staged_Archive Deployment_Order
  Deployment_Success Target_Properties Podman_Upload File_Descriptor Service_Query Service_Answers Service_Deploys
begin

text \<open>
  pod-installer is a C++23 library, and an example HTTP service around it, with which a program
  running as root deploys supplied Quadlet files and image archives for the rootless Podman of
  other users. This development models the library and the service as definitions of HOL and
  proves what makes them correct. It needs no axioms; what is not code of the repository is
  either modelled from its documentation (POSIX, the C++ library) or a parameter.

  \<^bold>\<open>The program and its parts.\<close> A deployment (\<open>DeploymentOrchestrator::deploy\<close>) validates a bundle, looks
  the user up, checks what would be installed, opens the staged image archive below a staging
  root, takes a lock per user and unit, loads the image through the Podman socket of the user,
  takes a snapshot of the installed Quadlet, installs the new one, makes the systemd of the user
  reload and restart the unit, and restores the snapshot when that fails. The service turns
  one HTTP request into one such deployment. The parts and their theories:

  \<^item> errors (\<open>error.hpp\<close>, \<open>error.cpp\<close>): \<^theory_text>\<open>Errors\<close>. A \<open>Result<T>\<close> is a sum, \<open>Inl\<close> the error.
  \<^item> HTTP values and URL encoding (\<open>http.hpp\<close>, \<open>http.cpp\<close>): \<^theory_text>\<open>Http\<close>.
  \<^item> Quadlet files (\<open>quadlet.hpp\<close>, \<open>quadlet.cpp\<close>): names and parsing in \<^theory_text>\<open>Quadlet_Syntax\<close> and
    \<^theory_text>\<open>Quadlet_Parser\<close>, the policy in \<^theory_text>\<open>Quadlet_Policy\<close>, installing, reading back, restoring and removing in
    \<^theory_text>\<open>Quadlet_Install\<close>.
  \<^item> the class \<open>FileDescriptor\<close>, of which four files have a copy: \<^theory_text>\<open>File_Descriptor\<close>.
  \<^item> targets and the validation of the Podman socket (\<open>target.cpp\<close>, \<open>socket_validation.cpp\<close>): \<^theory_text>\<open>Target\<close>.
  \<^item> systemd, over processes (\<open>systemd.cpp\<close>) in \<^theory_text>\<open>Systemd\<close> and over D-Bus (\<open>systemd_sdbus.cpp\<close>) in
    \<^theory_text>\<open>Systemd_Sdbus\<close>. The virtual class \<open>UserSystemdController\<close> is a record of its methods.
  \<^item> container specifications (\<open>container_spec.cpp\<close>): \<^theory_text>\<open>Container_Spec\<close>.
  \<^item> the Podman client (\<open>podman_client.cpp\<close>): \<^theory_text>\<open>Podman_Client\<close>.
  \<^item> deployments (\<open>deployment.cpp\<close>): \<^theory_text>\<open>Deployment\<close>.
  \<^item> the example service (\<open>examples/orchestrator_service.cpp\<close>): \<^theory_text>\<open>Service\<close>.

  \<^bold>\<open>State and effects.\<close> Code with effects is a function on \<open>world\<close> (\<^theory_text>\<open>Posix\<close>): a file system of inodes with
  directories, links, sockets and FIFOs, the identity of the process, the user database, and
  what the program cannot determine. That is a schedule with one event per system call, which
  may let other processes change the file system, make the call fail and cut a transfer short,
  and the replies of libcurl and of spawned processes. A reply also says in which order the
  arguments of \<open>finish_perform\<close> are evaluated, which C++ leaves open. A log keeps the effects whose order
  matters: locks, \<open>fsync\<close>, renames, requests, uploads, processes. A descriptor is the inode it
  refers to; that each is closed once is shown for the class apart from the world. Path names
  are strings with the operations of \<open>std::filesystem::path\<close> in \<^theory_text>\<open>Path\<close>; a \<open>std::map\<close> is a sorted
  association list in \<^theory_text>\<open>Prelude\<close>; sizes and offsets of uploads are 64-bit words, user identifiers 32-bit
  words, the port of the service a 16-bit word.

  \<^bold>\<open>Interfaces.\<close> The locale \<open>multimap\<close> (\<^theory_text>\<open>Prelude\<close>) is the contract of a map to lists of values that only
  grow; the parsed Quadlet and the parameters of a query are its instances. The locale \<open>kept\<close> and
  its extensions \<open>kept_in_time\<close>, \<open>kept_by_changes\<close>, \<open>kept_by_commits\<close> and \<open>kept_by_requests\<close> (\<^theory_text>\<open>Posix_Keeps\<close>,
  \<^theory_text>\<open>Deployment_Facts\<close>) lift a relation between worlds from single calls to programs; they are
  interpreted for the relations \<open>still\<close> (no file changes), \<open>silent\<close> (nothing happens at all),
  equal logs, logs without lock entries, and equal replies of processes. The locale \<open>user_systemd\<close> (\<^theory_text>\<open>Systemd_Facts\<close>) is what a deployment
  relies on in a controller; it is interpreted for the controller over \<open>systemctl\<close>, and shown
  for the one over D-Bus for every bus that keeps its documented behaviour. The rollback
  rules of \<^theory_text>\<open>Deployment_Rollback\<close> and \<^theory_text>\<open>Deployment_Properties\<close> are proved inside that locale.

  \<^bold>\<open>What the lemmas show.\<close>

  \<^item> \<^theory_text>\<open>Posix_Facts\<close>, \<^theory_text>\<open>Posix_Calls\<close>: the weakest precondition \<open>wp\<close>, one rule per system call for schedules in
    which no other process interferes (\<open>calm\<close>; calls may fail), and what path resolution means.
  \<^item> \<^theory_text>\<open>Quadlet_Properties\<close> on \<^theory_text>\<open>Quadlet_Policy_Facts\<close>: the checks of the policy are a declarative condition on
    what the parser reads, it is monotone, and parsing undoes printing.
  \<^item> \<^theory_text>\<open>Installer_Properties\<close> on \<^theory_text>\<open>Quadlet_Install_Facts\<close>, \<^theory_text>\<open>Quadlet_Atomic\<close> and \<^theory_text>\<open>Quadlet_Installer\<close>: installing is
    atomic whatever fails, restoring undoes installing, installing succeeds when nothing is in
    its way, the directories are safe afterwards, and which names can never be installed.
  \<^item> \<^theory_text>\<open>Systemd_Properties\<close>: both controllers keep the contract; arguments, processes, waiting for a job.
  \<^item> \<^theory_text>\<open>Target_Properties\<close>: what the validation of the socket accepts, exactly.
  \<^item> \<^theory_text>\<open>Staged_Path\<close>, \<^theory_text>\<open>Staged_Archive\<close>: an archive that is opened is confined to the staging root and within
    the limit; and which files can be opened, with NUL bytes in the path also outside the root.
  \<^item> \<^theory_text>\<open>Json\<close>, \<^theory_text>\<open>Podman_Properties\<close>, \<^theory_text>\<open>Podman_Upload\<close>: the JSON sent reads back as the specification, which names
    stay in one segment of the URL (all but a dot and a dot-dot), what becomes of a reply, and an upload is a prefix of the archive.
  \<^item> \<^theory_text>\<open>Deployment_Lock\<close>, \<^theory_text>\<open>Deployment_Properties\<close>, \<^theory_text>\<open>Deployment_Order\<close>, \<^theory_text>\<open>Deployment_Success\<close>: the outcome of a
    deployment on all paths, that it succeeds when nothing is in its way, its critical section, that deployments in parallel exclude each other (a step relation and
    its reachable states), and that a dry run does nothing.
  \<^item> \<^theory_text>\<open>Service_Arguments\<close>, \<^theory_text>\<open>Service_Query\<close>, \<^theory_text>\<open>Service_Answers\<close>, \<^theory_text>\<open>Service_Loop\<close>, \<^theory_text>\<open>Service_Deploys\<close>: what the service takes
    the command line and a query for, that its responses read back, that it closes what it opens
    and stops, that without \<open>--execute\<close> it changes nothing, and that it answers 202 only for a
    deployment that is in place.

  \<^bold>\<open>Bounds and fuel.\<close> Path resolution follows at most 40 links, as Linux does, and then fails with \<open>ELOOP\<close>.
  The installer tries 100 temporary names, as the code does. Loops over \<open>read\<close>, \<open>write\<close> and \<open>flock\<close> recurse
  on the events left and the bytes left, and are total: an interrupted call uses up an event, and
  after the schedule calls are not interrupted. The reader of JSON, which is not a model of code,
  takes the length of the text as fuel, which \<open>read_print_json\<close> shows to be enough. The loop of the
  service is followed over a list of rounds, as long as one likes, and is taken to find the stop
  flag set after the last.

  \<^bold>\<open>What the properties assume.\<close> Those about file contents assume that no other process changes the file
  system during the operation (\<open>calm\<close>), and that the installation directory exists (\<open>ready\<close>); those
  about bounds, locks, dry runs and logs hold under any interference. The contract of the bus
  and the replies of libcurl are the documented behaviour of code outside the repository.

  \<^bold>\<open>Not modelled.\<close> Permission bits are recorded but not checked, since the program runs as root. Time is
  not modelled: a timeout is one of the outcomes of waiting for a job. libcurl, sdbus-c++, the
  Podman service and systemd are parameters or replies; the code that only sets their options
  (the handles of libcurl, header lists) has no counterpart but the logged request. Exhausted
  memory, the messages the service prints on standard error, the registration of its signal
  handlers, the tests and the build files are left out. \<open>verify\<close> of a bundle is modelled as it
  is: it accepts everything.
\<close>

end
